(* ===== verification/Prelude.thy ===== *)
theory Prelude
  imports Main "HOL-Library.Word"
begin

text \<open>
  Shared vocabulary of the development: the machine integers and byte strings of the Go
  sources, results with errors, the blocking operations of the concurrent parts, the
  big-endian codec of \<open>encoding/binary\<close>, and the generic lemmas on lists and words that the
  component theories use.  The collections \<open>wire_simps\<close> (encoders and decoders) and
  \<open>flow_simps\<close> (window accounting on \<open>uint32\<close>) carry most component proofs.
\<close>

unbundle bit_operations_syntax

named_theorems wire_simps \<open>equations of the wire encoders and decoders\<close>
named_theorems flow_simps \<open>window arithmetic at width 32\<close>
named_theorems go_string_simps \<open>equations of the Go string functions\<close>

section \<open>Machine integers, bytes and results\<close>

type_synonym byte = "8 word"
type_synonym u32 = "32 word"
type_synonym bytes = "byte list"

text \<open>A Go error value, by its message; a Go \<open>string\<close> is a byte string, hence a \<open>char list\<close>.\<close>

type_synonym go_error = string
type_synonym 'a result = "go_error + 'a"

text \<open>The outcome of an operation that may wait on a condition variable.\<close>

datatype 'a blocking = Blocked | Done 'a

definition bytes_of_string :: "string \<Rightarrow> bytes" where
  "bytes_of_string s = map (\<lambda>c. of_nat (of_char c)) s"

definition string_of_bytes :: "bytes \<Rightarrow> string" where
  "string_of_bytes b = map (\<lambda>x. char_of (unat x)) b"

lemma string_of_bytes_of_string [simp]: "string_of_bytes (bytes_of_string s) = s"
proof -
  have "char_of (unat (of_nat (of_char c) :: byte)) = c" for c :: char
    by (simp add: unat_of_nat)
  then show ?thesis
    by (induction s) (simp_all add: bytes_of_string_def string_of_bytes_def)
qed

lemma bytes_of_string_of_bytes [simp]: "bytes_of_string (string_of_bytes b) = b"
proof -
  have "(of_nat (of_char (char_of (unat x))) :: byte) = x" for x :: byte
  proof -
    have "unat x < 256" using unsigned_less [of x] by simp
    then show ?thesis by simp
  qed
  then show ?thesis
    by (induction b) (simp_all add: bytes_of_string_def string_of_bytes_def)
qed

lemma length_bytes_of_string [simp]: "length (bytes_of_string s) = length s"
  by (simp add: bytes_of_string_def)

lemma length_string_of_bytes [simp]: "length (string_of_bytes b) = length b"
  by (simp add: string_of_bytes_def)

section \<open>Big-endian integers (encoding/binary)\<close>

definition AppendUint32 :: "bytes \<Rightarrow> u32 \<Rightarrow> bytes" where
  "AppendUint32 b v =
     b @ [ucast (drop_bit 24 v), ucast (drop_bit 16 v), ucast (drop_bit 8 v), ucast v]"

definition Uint32 :: "bytes \<Rightarrow> u32" where
  "Uint32 b = ucast (b ! 3) OR push_bit 8 (ucast (b ! 2)) OR
     push_bit 16 (ucast (b ! 1)) OR push_bit 24 (ucast (b ! 0))"

lemma length_AppendUint32 [simp]: "length (AppendUint32 b v) = length b + 4"
  by (simp add: AppendUint32_def)

lemma AppendUint32_append: "AppendUint32 b v = b @ AppendUint32 [] v"
  by (simp add: AppendUint32_def)

lemma take_AppendUint32 [simp]: "take 4 (AppendUint32 [] v @ r) = AppendUint32 [] v"
  by (simp add: AppendUint32_def)

lemma drop_AppendUint32 [simp]: "drop 4 (AppendUint32 [] v @ r) = r"
  by (simp add: AppendUint32_def)

lemma Uint32_AppendUint32 [wire_simps, simp]: "Uint32 (AppendUint32 [] v @ r) = v"
proof (rule bit_word_eqI)
  fix n assume "n < LENGTH(32)"
  then have n: "n < 32" by simp
  consider "n < 8" | "8 \<le> n" "n < 16" | "16 \<le> n" "n < 24" | "24 \<le> n" "n < 32"
    using n by linarith
  then show "bit (Uint32 (AppendUint32 [] v @ r)) n = bit v n"
    by cases (auto simp: Uint32_def AppendUint32_def bit_or_iff bit_push_bit_iff
        bit_ucast_iff bit_drop_bit_eq)
qed

lemma Uint32_AppendUint32_Nil [simp]: "Uint32 (AppendUint32 [] v) = v"
  using Uint32_AppendUint32 [of v "[]"] by simp

lemma byte_bit_beyond: "8 \<le> n \<Longrightarrow> \<not> bit (w :: byte) n"
  using bit_imp_le_length [of w n] by auto

lemma AppendUint32_Uint32:
  assumes "length b = 4"
  shows "AppendUint32 [] (Uint32 b) = b"
proof -
  obtain a0 a1 a2 a3 where b: "b = [a0, a1, a2, a3]"
    using assms by (auto simp: length_Suc_conv numeral_eq_Suc)
  show ?thesis
    unfolding b Uint32_def AppendUint32_def
    by (auto intro!: bit_word_eqI
        simp: bit_or_iff bit_push_bit_iff bit_ucast_iff bit_drop_bit_eq byte_bit_beyond)
qed

section \<open>Unsigned words as naturals\<close>

lemma unat_of_nat_u32 [flow_simps]: "n < 2 ^ 32 \<Longrightarrow> unat (of_nat n :: u32) = n"
  by (simp add: unat_of_nat)

lemma unat_u32_less: "unat (w :: u32) < 4294967296"
  using unsigned_less [of w] by simp

lemma unat_add_u32 [flow_simps]:
  "unat a + unat b < 4294967296 \<Longrightarrow> unat (a + b :: u32) = unat a + unat b"
  by (simp add: unat_word_ariths)

lemma unat_sub_u32 [flow_simps]:
  "b \<le> a \<Longrightarrow> unat (a - b :: u32) = unat a - unat b"
  by (simp add: unat_sub)

lemma unat_min_u32 [flow_simps]: "unat (min a b :: u32) = min (unat a) (unat b)"
  by (simp add: min_def word_le_nat_alt)

section \<open>Lists\<close>

lemma sum_list_length_concat: "sum_list (map length xs) = length (concat xs)"
  by (simp add: length_concat)

lemma takeWhile_all_append: "\<forall>x\<in>set xs. P x \<Longrightarrow> \<not> P y \<Longrightarrow> takeWhile P (xs @ y # ys) = xs"
  by (induction xs) auto

lemma dropWhile_all_append: "\<forall>x\<in>set xs. P x \<Longrightarrow> \<not> P y \<Longrightarrow> dropWhile P (xs @ y # ys) = y # ys"
  by (induction xs) auto

end
