(* ===== verification/GoStrings.thy ===== *)
theory GoStrings
  imports Prelude "HOL-Library.Sublist"
begin

text \<open>
  The parts of Go's standard library that the sources call on text: \<open>strings\<close>, \<open>bytes\<close>,
  \<open>strconv\<close>, \<open>unicode\<close>, and the host:port helpers of \<open>net\<close>.  A Go string is a byte string,
  so it is a \<^typ>\<open>string\<close> here, one \<^typ>\<open>char\<close> per byte.  A loop \<open>for _, c := range s\<close> visits
  the runes of \<open>s\<close>: \<open>range_runes\<close> cuts a byte string exactly as Go's UTF-8 decoder does and
  pairs every piece with the bytes that \<open>WriteRune\<close> writes for it (an invalid byte becomes
  U+FFFD).  Case mapping is exact on ASCII and on the non-ASCII runes whose lower case or
  simple folding is an ASCII letter (U+0130, U+017F, U+212A); every other non-ASCII rune is
  left as it is.  An index that Go reports as \<open>-1\<close> is \<^term>\<open>None\<close>.
\<close>

section \<open>Runes\<close>

definition byte_in :: "nat \<Rightarrow> nat \<Rightarrow> char \<Rightarrow> bool" where
  "byte_in lo hi c \<longleftrightarrow> lo \<le> (of_char c :: nat) \<and> (of_char c :: nat) \<le> hi"

text \<open>The number of bytes of the rune at the front of a non-empty string, 0 if it is invalid.\<close>

fun utf8_width :: "string \<Rightarrow> nat" where
  "utf8_width [] = 0"
| "utf8_width (a # r) =
     (if byte_in 0 127 a then 1
      else if byte_in 194 223 a then
        (case r of b # _ \<Rightarrow> if byte_in 128 191 b then 2 else 0 | _ \<Rightarrow> 0)
      else if byte_in 224 239 a then
        (case r of b # c # _ \<Rightarrow>
           if byte_in (if a = CHR 0xE0 then 160 else 128) (if a = CHR 0xED then 159 else 191) b
              \<and> byte_in 128 191 c then 3 else 0
         | _ \<Rightarrow> 0)
      else if byte_in 240 244 a then
        (case r of b # c # d # _ \<Rightarrow>
           if byte_in (if a = CHR 0xF0 then 144 else 128) (if a = CHR 0xF4 then 143 else 191) b
              \<and> byte_in 128 191 c \<and> byte_in 128 191 d then 4 else 0
         | _ \<Rightarrow> 0)
      else 0)"

abbreviation rune_error :: string where
  "rune_error \<equiv> [CHR 0xEF, CHR 0xBF, CHR 0xBD]"

text \<open>The runes of a string in order: the bytes of the source, and the bytes of the rune.\<close>

function range_runes :: "string \<Rightarrow> (string \<times> string) list" where
  "range_runes s =
     (if s = [] then []
      else let w = utf8_width s in
        if w = 0 then (take 1 s, rune_error) # range_runes (drop 1 s)
        else (take w s, take w s) # range_runes (drop w s))"
  by pat_completeness auto
termination
  by (relation "measure length") auto

declare range_runes.simps [simp del]

lemma range_runes_Nil [simp]: "range_runes [] = []"
  by (simp add: range_runes.simps)

definition ascii :: "string \<Rightarrow> bool" where
  "ascii s \<longleftrightarrow> (\<forall>c\<in>set s. (of_char c :: nat) < 128)"

lemma ascii_Nil [simp]: "ascii []"
  by (simp add: ascii_def)

lemma ascii_Cons [simp]: "ascii (c # s) \<longleftrightarrow> (of_char c :: nat) < 128 \<and> ascii s"
  by (auto simp: ascii_def)

lemma ascii_append [simp]: "ascii (s @ t) \<longleftrightarrow> ascii s \<and> ascii t"
  by (auto simp: ascii_def)

lemma range_runes_ascii_Cons [simp]:
  "(of_char c :: nat) < 128 \<Longrightarrow> range_runes (c # s) = ([c], [c]) # range_runes s"
  by (subst range_runes.simps) (simp add: byte_in_def)

lemma range_runes_ascii: "ascii s \<Longrightarrow> range_runes s = map (\<lambda>c. ([c], [c])) s"
  by (induction s) auto

lemma concat_fst_range_runes: "concat (map fst (range_runes s)) = s"
proof (induction s rule: range_runes.induct)
  case (1 s)
  show ?case
  proof (cases "s = []")
    case False
    with 1 show ?thesis
      by (subst range_runes.simps) (auto simp: Let_def simp del: take_Suc)
  qed simp
qed

text \<open>\<open>unicode.IsSpace\<close> and \<open>unicode.IsControl\<close> on the UTF-8 bytes of a rune.\<close>

definition space_runes :: "string list" where
  "space_runes =
     map (\<lambda>n. [char_of n]) [9, 10, 11, 12, 13, 32 :: nat] @
     [[CHR 0xC2, CHR 0x85], [CHR 0xC2, CHR 0xA0], [CHR 0xE1, CHR 0x9A, CHR 0x80]] @
     map (\<lambda>n. [CHR 0xE2, CHR 0x80, char_of n])
       ([128, 129, 130, 131, 132, 133, 134, 135, 136, 137, 138, 168, 169, 175] :: nat list) @
     [[CHR 0xE2, CHR 0x81, CHR 0x9F], [CHR 0xE3, CHR 0x80, CHR 0x80]]"

definition IsSpace :: "string \<Rightarrow> bool" where
  "IsSpace r \<longleftrightarrow> r \<in> set space_runes"

definition IsControl :: "string \<Rightarrow> bool" where
  "IsControl r \<longleftrightarrow>
     (case r of [c] \<Rightarrow> (of_char c :: nat) < 32 \<or> c = CHR 0x7F
      | [a, b] \<Rightarrow> a = CHR 0xC2 \<and> byte_in 128 159 b
      | _ \<Rightarrow> False)"

lemma space_runes_nonempty: "r \<in> set space_runes \<Longrightarrow> r \<noteq> []"
  by (auto simp: space_runes_def)

section \<open>strings and bytes\<close>

definition HasPrefix :: "'a list \<Rightarrow> 'a list \<Rightarrow> bool" where
  "HasPrefix s p \<longleftrightarrow> take (length p) s = p"

definition HasSuffix :: "'a list \<Rightarrow> 'a list \<Rightarrow> bool" where
  "HasSuffix s p \<longleftrightarrow> HasPrefix (rev s) (rev p)"

lemma HasPrefix_append [simp]: "HasPrefix (p @ s) p"
  by (simp add: HasPrefix_def)

lemma HasPrefix_prefix: "HasPrefix s p \<longleftrightarrow> prefix p s"
  by (auto simp: HasPrefix_def prefix_def) (metis append_take_drop_id)

fun IndexByte :: "'a list \<Rightarrow> 'a \<Rightarrow> nat option" where
  "IndexByte [] c = None"
| "IndexByte (x # xs) c = (if x = c then Some 0 else map_option Suc (IndexByte xs c))"

definition LastIndexByte :: "'a list \<Rightarrow> 'a \<Rightarrow> nat option" where
  "LastIndexByte s c = map_option (\<lambda>i. length s - 1 - i) (IndexByte (rev s) c)"

definition IndexAny :: "string \<Rightarrow> string \<Rightarrow> nat option" where
  "IndexAny s cs = (if \<exists>c\<in>set s. c \<in> set cs
     then Some (length (takeWhile (\<lambda>c. c \<notin> set cs) s)) else None)"

fun Contains :: "'a list \<Rightarrow> 'a list \<Rightarrow> bool" where
  "Contains [] p = (p = [])"
| "Contains (x # xs) p = (HasPrefix (x # xs) p \<or> Contains xs p)"

lemma IndexByte_None: "IndexByte s c = None \<longleftrightarrow> c \<notin> set s"
  by (induction s) auto

lemma IndexByte_Some: "IndexByte s c = Some i \<Longrightarrow> i < length s \<and> s ! i = c \<and> c \<notin> set (take i s)"
  by (induction s arbitrary: i) (auto split: if_splits)

lemma IndexByte_append: "c \<notin> set p \<Longrightarrow> IndexByte (p @ c # r) c = Some (length p)"
  by (induction p) auto

lemma LastIndexByte_append: "c \<notin> set r \<Longrightarrow> LastIndexByte (p @ c # r) c = Some (length p)"
proof -
  assume "c \<notin> set r"
  then have "IndexByte (rev r @ c # rev p) c = Some (length r)"
    using IndexByte_append [of c "rev r" "rev p"] by simp
  then show ?thesis by (simp add: LastIndexByte_def)
qed

lemma LastIndexByte_None: "LastIndexByte s c = None \<longleftrightarrow> c \<notin> set s"
  by (simp add: LastIndexByte_def IndexByte_None)

text \<open>\<open>Split\<close> with a one-byte separator.\<close>

fun Split :: "'a list \<Rightarrow> 'a \<Rightarrow> 'a list list" where
  "Split [] c = [[]]"
| "Split (x # xs) c =
     (if x = c then [] # Split xs c
      else (case Split xs c of y # ys \<Rightarrow> (x # y) # ys | [] \<Rightarrow> [[x]]))"

fun Join :: "'a list list \<Rightarrow> 'a list \<Rightarrow> 'a list" where
  "Join [] sep = []"
| "Join [x] sep = x"
| "Join (x # y # ys) sep = x @ sep @ Join (y # ys) sep"

lemma Split_ne [simp]: "Split s c \<noteq> []"
  by (induction s) (auto split: list.splits)

lemma Split_notin: "c \<notin> set s \<Longrightarrow> Split s c = [s]"
  by (induction s) auto

lemma Split_append: "c \<notin> set p \<Longrightarrow> Split (p @ c # r) c = p # Split r c"
  by (induction p) auto

lemma Join_Split [simp]: "Join (Split s c) [c] = s"
proof (induction s)
  case (Cons x xs)
  then show ?case
    by (cases "Split xs c"; cases "tl (Split xs c)") (auto split: list.splits)
qed simp

lemma Split_parts: "p \<in> set (Split s c) \<Longrightarrow> c \<notin> set p"
  by (induction s arbitrary: p) (auto split: if_splits list.splits)

lemma Split_Join: "ls \<noteq> [] \<Longrightarrow> \<forall>l\<in>set ls. c \<notin> set l \<Longrightarrow> Split (Join ls [c]) c = ls"
  by (induction ls "[c]" rule: Join.induct) (auto simp: Split_notin Split_append)

definition Cut :: "'a list \<Rightarrow> 'a \<Rightarrow> ('a list \<times> 'a list) option" where
  "Cut s c = (case IndexByte s c of None \<Rightarrow> None | Some i \<Rightarrow> Some (take i s, drop (Suc i) s))"

definition TrimLeftSet :: "'a list \<Rightarrow> 'a set \<Rightarrow> 'a list" where
  "TrimLeftSet s cs = dropWhile (\<lambda>c. c \<in> cs) s"

definition TrimRightSet :: "'a list \<Rightarrow> 'a set \<Rightarrow> 'a list" where
  "TrimRightSet s cs = rev (dropWhile (\<lambda>c. c \<in> cs) (rev s))"

definition TrimSet :: "'a list \<Rightarrow> 'a set \<Rightarrow> 'a list" where
  "TrimSet s cs = TrimRightSet (TrimLeftSet s cs) cs"

definition TrimPrefix :: "'a list \<Rightarrow> 'a list \<Rightarrow> 'a list" where
  "TrimPrefix s p = (if HasPrefix s p then drop (length p) s else s)"

definition TrimSuffix :: "'a list \<Rightarrow> 'a list \<Rightarrow> 'a list" where
  "TrimSuffix s p = (if HasSuffix s p then take (length s - length p) s else s)"

function TrimLeftSpace :: "string \<Rightarrow> string" where
  "TrimLeftSpace s =
     (case find (HasPrefix s) space_runes of None \<Rightarrow> s
      | Some r \<Rightarrow> TrimLeftSpace (drop (length r) s))"
  by pat_completeness auto
termination
proof (relation "measure length")
  fix s r assume f: "find (HasPrefix s) space_runes = Some r"
  then have "r \<in> set space_runes" and "HasPrefix s r"
    by (auto simp: find_Some_iff in_set_conv_nth)
  then have "r \<noteq> []" and "length r \<le> length s"
    by (auto simp: space_runes_nonempty HasPrefix_prefix prefix_length_le)
  then show "(drop (length r) s, s) \<in> measure length" by (cases s) auto
qed auto

function TrimRightSpace :: "string \<Rightarrow> string" where
  "TrimRightSpace s =
     (case find (HasSuffix s) space_runes of None \<Rightarrow> s
      | Some r \<Rightarrow> TrimRightSpace (take (length s - length r) s))"
  by pat_completeness auto
termination
proof (relation "measure length")
  fix s r assume f: "find (HasSuffix s) space_runes = Some r"
  then have "r \<in> set space_runes" and "HasSuffix s r"
    by (auto simp: find_Some_iff in_set_conv_nth)
  then have "r \<noteq> []" and "s \<noteq> []"
    by (auto simp: space_runes_nonempty HasSuffix_def HasPrefix_def)
  then show "(take (length s - length r) s, s) \<in> measure length" by (cases s; cases r) auto
qed auto

declare TrimLeftSpace.simps [simp del] TrimRightSpace.simps [simp del]

definition TrimSpace :: "string \<Rightarrow> string" where
  "TrimSpace s = TrimRightSpace (TrimLeftSpace s)"

fun fields_aux :: "string \<Rightarrow> (string \<times> string) list \<Rightarrow> string list" where
  "fields_aux acc [] = (if acc = [] then [] else [acc])"
| "fields_aux acc ((src, r) # rs) =
     (if IsSpace r then (if acc = [] then fields_aux [] rs else acc # fields_aux [] rs)
      else fields_aux (acc @ src) rs)"

definition Fields :: "string \<Rightarrow> string list" where
  "Fields s = fields_aux [] (range_runes s)"

text \<open>A text without spaces, in ASCII, is one field and is not trimmed.\<close>

definition solid :: "string \<Rightarrow> bool" where
  "solid s \<longleftrightarrow> ascii s \<and> (\<forall>c\<in>set s. \<not> IsSpace [c])"

lemma space_runes_shape: "list_all (\<lambda>r. length r = 1 \<or> \<not> ascii r) space_runes"
  by code_simp

lemma space_rune_cases:
  assumes "r \<in> set space_runes"
  shows "(\<exists>c. r = [c] \<and> IsSpace [c]) \<or> \<not> ascii r"
proof -
  have "length r = 1 \<or> \<not> ascii r"
    using assms space_runes_shape by (simp only: list_all_iff)
  moreover have "\<exists>c. r = [c] \<and> IsSpace [c]" if "length r = 1"
    using that assms by (auto simp: IsSpace_def length_Suc_conv simp del: list.set)
  ultimately show ?thesis by blast
qed

lemma space_runes_small: "list_all (\<lambda>r. case r of [c] \<Rightarrow> (of_char c :: nat) \<le> 32 | _ \<Rightarrow> True) space_runes"
  by code_simp

lemma IsSpace_small: "IsSpace [c] \<Longrightarrow> (of_char c :: nat) \<le> 32"
  using space_runes_small unfolding IsSpace_def list_all_iff by (auto dest: bspec)

lemma solid_space: "solid s \<Longrightarrow> r \<in> set space_runes \<Longrightarrow> \<not> set r \<subseteq> set s"
  using space_rune_cases [of r] by (auto simp: solid_def ascii_def)

lemma TrimSpace_solid: "solid s \<Longrightarrow> TrimSpace s = s"
proof -
  assume s: "solid s"
  have "\<not> HasPrefix s r" "\<not> HasSuffix s r" if "r \<in> set space_runes" for r
    using solid_space [OF s that] by (auto simp: HasSuffix_def HasPrefix_prefix dest!: set_mono_prefix)
  then have "find (HasPrefix s) space_runes = None" "find (HasSuffix s) space_runes = None"
    by (simp_all add: find_None_iff)
  then show ?thesis
    by (simp add: TrimSpace_def TrimLeftSpace.simps [of s] TrimRightSpace.simps [of s])
qed

lemma fields_aux_solid: "solid s \<Longrightarrow> fields_aux acc (map (\<lambda>c. ([c], [c])) s) = (if acc @ s = [] then [] else [acc @ s])"
  by (induction s arbitrary: acc) (auto simp: solid_def)

lemma Fields_solid: "solid s \<Longrightarrow> s \<noteq> [] \<Longrightarrow> Fields s = [s]"
  using fields_aux_solid [of s "[]"] by (simp add: Fields_def range_runes_ascii solid_def)

lemma solid_append [simp]: "solid (s @ t) \<longleftrightarrow> solid s \<and> solid t"
  by (auto simp: solid_def)

subsection \<open>Case mapping\<close>

definition lower_char :: "char \<Rightarrow> char" where
  "lower_char c = (if byte_in 65 90 c then char_of ((of_char c :: nat) + 32) else c)"

definition lower_rune :: "string \<Rightarrow> string" where
  "lower_rune r =
     (if r = [CHR 0xE2, CHR 0x84, CHR 0xAA] then ''k''
      else if r = [CHR 0xC4, CHR 0xB0] then ''i''
      else (case r of [c] \<Rightarrow> [lower_char c] | _ \<Rightarrow> r))"

definition fold_rune :: "string \<Rightarrow> string" where
  "fold_rune r =
     (if r = [CHR 0xE2, CHR 0x84, CHR 0xAA] then ''k''
      else if r = [CHR 0xC5, CHR 0xBF] then ''s''
      else (case r of [c] \<Rightarrow> [lower_char c] | _ \<Rightarrow> r))"

definition ToLower :: "string \<Rightarrow> string" where
  "ToLower s = concat (map (\<lambda>p. lower_rune (snd p)) (range_runes s))"

definition EqualFold :: "string \<Rightarrow> string \<Rightarrow> bool" where
  "EqualFold s t \<longleftrightarrow>
     map (\<lambda>p. fold_rune (snd p)) (range_runes s) = map (\<lambda>p. fold_rune (snd p)) (range_runes t)"

lemma EqualFold_refl [simp]: "EqualFold s s"
  by (simp add: EqualFold_def)

lemma EqualFold_sym: "EqualFold s t \<Longrightarrow> EqualFold t s"
  by (simp add: EqualFold_def)

section \<open>strconv\<close>

definition is_digit :: "char \<Rightarrow> bool" where
  "is_digit c \<longleftrightarrow> byte_in 48 57 c"

definition digit_val :: "char \<Rightarrow> nat" where
  "digit_val c = of_char c - 48"

definition dec_val :: "string \<Rightarrow> nat" where
  "dec_val s = foldl (\<lambda>n c. 10 * n + digit_val c) 0 s"

text \<open>\<open>strconv.ParseUint(s, 10, bits)\<close>: \<^term>\<open>None\<close> for a syntax or a range error.\<close>

definition ParseUint :: "string \<Rightarrow> nat \<Rightarrow> nat option" where
  "ParseUint s bits =
     (if s = [] \<or> \<not> list_all is_digit s then None
      else if dec_val s < 2 ^ bits then Some (dec_val s) else None)"

definition digit_char :: "nat \<Rightarrow> char" where
  "digit_char n = char_of (48 + n)"

fun utoa :: "nat \<Rightarrow> string" where
  "utoa n = (if n < 10 then [digit_char n] else utoa (n div 10) @ [digit_char (n mod 10)])"

declare utoa.simps [simp del]

lemma digit_char_props [simp]:
  assumes "n < 10"
  shows "is_digit (digit_char n)" and "digit_val (digit_char n) = n"
  using assms by (auto simp: is_digit_def digit_char_def digit_val_def byte_in_def)

lemma digit_chars:
  "digit_char 0 = CHR ''0''" "digit_char 1 = CHR ''1''" "digit_char 2 = CHR ''2''" "digit_char 3 = CHR ''3''"
  "digit_char 4 = CHR ''4''" "digit_char 5 = CHR ''5''" "digit_char 6 = CHR ''6''" "digit_char 7 = CHR ''7''"
  "digit_char 8 = CHR ''8''" "digit_char 9 = CHR ''9''"
  by code_simp+

lemma list_all_digit_utoa [simp]: "list_all is_digit (utoa n)"
proof (induction n rule: utoa.induct)
  case (1 n)
  then show ?case by (subst utoa.simps) simp
qed

lemma utoa_ne [simp]: "utoa n \<noteq> []"
  by (subst utoa.simps) simp

lemma dec_val_utoa [simp]: "dec_val (utoa n) = n"
proof (induction n rule: utoa.induct)
  case (1 n)
  then show ?case by (subst utoa.simps) (simp add: dec_val_def)
qed

lemma ParseUint_utoa [simp]: "n < 2 ^ bits \<Longrightarrow> ParseUint (utoa n) bits = Some n"
  by (simp add: ParseUint_def)

lemma ParseUint_bound: "ParseUint s bits = Some n \<Longrightarrow> n < 2 ^ bits"
  by (auto simp: ParseUint_def split: if_splits)

lemma digit_not [simp]:
  assumes "is_digit c"
  shows "c \<noteq> CHR '':''" "c \<noteq> CHR ''/''" "c \<noteq> CHR ''[''" "c \<noteq> CHR '']''" "c \<noteq> CHR ''.''"
  using assms by (auto simp: is_digit_def byte_in_def)

lemma utoa_notin [simp]:
  "CHR '':'' \<notin> set (utoa n)" "CHR ''/'' \<notin> set (utoa n)"
  using list_all_digit_utoa [of n] by (auto simp: list_all_iff is_digit_def byte_in_def)

section \<open>net: host and port\<close>

definition JoinHostPort :: "string \<Rightarrow> string \<Rightarrow> string" where
  "JoinHostPort host port =
     (if CHR '':'' \<in> set host then ''['' @ host @ '']:'' @ port else host @ '':'' @ port)"

text \<open>\<open>net.SplitHostPort\<close>; every address error is \<^term>\<open>None\<close>.\<close>

definition SplitHostPort :: "string \<Rightarrow> (string \<times> string) option" where
  "SplitHostPort hp =
     (case LastIndexByte hp (CHR '':'') of None \<Rightarrow> None
      | Some i \<Rightarrow>
          if take 1 hp = ''['' then
            (case IndexByte hp (CHR '']'') of None \<Rightarrow> None
             | Some e \<Rightarrow>
                 if Suc e \<noteq> i then None
                 else if CHR ''['' \<in> set (drop 1 hp) \<or> CHR '']'' \<in> set (drop (Suc e) hp) then None
                 else Some (drop 1 (take e hp), drop (Suc i) hp))
          else if CHR '':'' \<in> set (take i hp) then None
          else if CHR ''['' \<in> set hp \<or> CHR '']'' \<in> set hp then None
          else Some (take i hp, drop (Suc i) hp))"

lemma SplitHostPort_JoinHostPort:
  assumes "CHR ''['' \<notin> set host" "CHR '']'' \<notin> set host"
    and "CHR '':'' \<notin> set port" "CHR ''['' \<notin> set port" "CHR '']'' \<notin> set port"
  shows "SplitHostPort (JoinHostPort host port) = Some (host, port)"
proof (cases "CHR '':'' \<in> set host")
  case True
  have l: "LastIndexByte (''['' @ host @ '']:'' @ port) (CHR '':'') = Some (length host + 2)"
    using LastIndexByte_append [of "CHR '':''" port "''['' @ host @ '']''"] assms by simp
  have r: "IndexByte (''['' @ host @ '']:'' @ port) (CHR '']'') = Some (Suc (length host))"
    using IndexByte_append [of "CHR '']''" "''['' @ host" "'':'' @ port"] assms by simp
  show ?thesis
    using True l r assms by (simp add: JoinHostPort_def SplitHostPort_def)
next
  case False
  have l: "LastIndexByte (host @ '':'' @ port) (CHR '':'') = Some (length host)"
    using LastIndexByte_append [of "CHR '':''" port host] assms by simp
  have "take 1 (host @ '':'' @ port) \<noteq> ''[''"
    using assms by (cases host) auto
  then show ?thesis
    using False l assms by (simp add: JoinHostPort_def SplitHostPort_def)
qed

end
