(* ===== verification/GoNet.thy ===== *)
theory GoNet
  imports GoStrings
begin

text \<open>
  More of the Go standard library that several components call: \<open>strconv.Atoi\<close> and the
  syntax check of \<open>net.ParseIP\<close> (dotted IPv4 without leading zeros, IPv6 with at most one
  ellipsis and an optional IPv4 tail, no zone).
\<close>

section \<open>strconv.Atoi\<close>

definition Atoi :: "string \<Rightarrow> int option" where
  "Atoi s =
     (let (neg, d) = (case s of c # r \<Rightarrow> if c = CHR ''-'' then (True, r)
                        else if c = CHR ''+'' then (False, r) else (False, s) | [] \<Rightarrow> (False, s)) in
      if d = [] \<or> \<not> list_all is_digit d then None
      else let v = int (dec_val d) in
        if neg then (if v \<le> 9223372036854775808 then Some (- v) else None)
        else (if v < 9223372036854775808 then Some v else None))"

lemma digit_not_sign [simp]: "is_digit c \<Longrightarrow> c \<noteq> CHR ''-''" "is_digit c \<Longrightarrow> c \<noteq> CHR ''+''"
  by (auto simp: is_digit_def byte_in_def)

lemma Atoi_digits:
  assumes "s \<noteq> []" "list_all is_digit s" "dec_val s < 9223372036854775808"
  shows "Atoi s = Some (int (dec_val s))"
proof (cases s)
  case (Cons c r)
  then have "c \<noteq> CHR ''-''" "c \<noteq> CHR ''+''" using assms(2) by auto
  with assms Cons show ?thesis by (auto simp: Atoi_def)
qed (use assms in simp)

lemma Atoi_utoa [simp]: "n < 9223372036854775808 \<Longrightarrow> Atoi (utoa n) = Some (int n)"
  by (simp add: Atoi_digits)

section \<open>net.ParseIP\<close>

definition ipv4_field :: "string \<Rightarrow> bool" where
  "ipv4_field f \<longleftrightarrow> f \<noteq> [] \<and> list_all is_digit f \<and> length f \<le> 3 \<and> dec_val f \<le> 255 \<and>
     (length f > 1 \<longrightarrow> hd f \<noteq> CHR ''0'')"

definition ParseIPv4 :: "string \<Rightarrow> bool" where
  "ParseIPv4 s \<longleftrightarrow> length (Split s (CHR ''.'')) = 4 \<and> list_all ipv4_field (Split s (CHR ''.''))"

definition is_hex :: "char \<Rightarrow> bool" where
  "is_hex c \<longleftrightarrow> is_digit c \<or> byte_in 97 102 c \<or> byte_in 65 70 c"

text \<open>The loop of the IPv6 parser: \<open>i\<close> counts the bytes filled, \<open>ell\<close> says that \<open>::\<close> was seen.\<close>

function ipv6_loop :: "nat \<Rightarrow> bool \<Rightarrow> string \<Rightarrow> bool" where
  "ipv6_loop i ell s =
     (if i \<ge> 16 then s = [] \<and> \<not> ell
      else let off = length (takeWhile is_hex s); r = drop off s in
        if off > 4 \<or> off = 0 then False
        else if take 1 r = ''.'' then (ell \<or> i = 12) \<and> i + 4 \<le> 16 \<and> ParseIPv4 s \<and> (i + 4 < 16 \<longleftrightarrow> ell)
        else (case r of
            [] \<Rightarrow> (i + 2 < 16 \<longleftrightarrow> ell)
          | c # r1 \<Rightarrow>
              if c \<noteq> CHR '':'' \<or> r1 = [] then False
              else if hd r1 = CHR '':'' then
                (if ell then False
                 else if tl r1 = [] then i + 2 < 16 else ipv6_loop (i + 2) True (tl r1))
              else ipv6_loop (i + 2) ell r1))"
  by pat_completeness auto
termination by (relation "measure (\<lambda>(i, _). 16 - i)") auto

declare ipv6_loop.simps [simp del]

definition ParseIPv6 :: "string \<Rightarrow> bool" where
  "ParseIPv6 s =
     (if take 2 s = ''::'' then drop 2 s = [] \<or> ipv6_loop 0 True (drop 2 s) else ipv6_loop 0 False s)"

text \<open>\<open>ParseIP s \<noteq> nil\<close>: the first of \<open>.\<close>, \<open>:\<close> and \<open>%\<close> decides the family; a zone is refused.\<close>

definition ParseIP :: "string \<Rightarrow> bool" where
  "ParseIP s =
     (case dropWhile (\<lambda>c. c \<notin> set ''.:%'') s of [] \<Rightarrow> False
      | c # _ \<Rightarrow> if c = CHR ''.'' then ParseIPv4 s
                 else c = CHR '':'' \<and> CHR ''%'' \<notin> set s \<and> ParseIPv6 s)"

text \<open>\<open>netip.ParseAddr\<close> without an error: as above, but an IPv6 address may have a non-empty zone.\<close>

definition ParseAddr :: "string \<Rightarrow> bool" where
  "ParseAddr s =
     (case dropWhile (\<lambda>c. c \<notin> set ''.:%'') s of [] \<Rightarrow> False
      | c # _ \<Rightarrow> if c = CHR ''.'' then ParseIPv4 s
                 else c = CHR '':'' \<and>
                   (case IndexByte s (CHR ''%'') of None \<Rightarrow> ParseIPv6 s
                    | Some i \<Rightarrow> drop (Suc i) s \<noteq> [] \<and> ParseIPv6 (take i s)))"

end
