(* ===== verification/GoHash.thy ===== *)
theory GoHash
  imports GoStrings "HOL-Library.Word"
begin

text \<open>
  \<open>crypto/sha1\<close> (RFC 3174), \<open>crypto/sha256\<close> (RFC 6234) and \<open>crypto/hmac\<close> (RFC 2104) on 32-bit words, the
  hexadecimal formatting of \<open>fmt\<close>, and the decoders of \<open>encoding/hex\<close> and \<open>encoding/base64\<close>.
\<close>

section \<open>SHA-1\<close>

definition sha1_pad :: "bytes \<Rightarrow> bytes" where
  "sha1_pad m =
     m @ [0x80] @ replicate ((119 - length m mod 64) mod 64) 0 @
     map (\<lambda>i. ucast (drop_bit (8 * (7 - i)) (of_nat (8 * length m) :: 64 word))) [0..<8]"

definition sha1_words :: "bytes \<Rightarrow> u32 list" where
  "sha1_words b = map (\<lambda>i. Uint32 (take 4 (drop (4 * i) b))) [0..<16]"

fun sha1_schedule :: "nat \<Rightarrow> u32 list \<Rightarrow> u32 list" where
  "sha1_schedule 0 w = w"
| "sha1_schedule (Suc n) w =
     (let t = length w in
      sha1_schedule n (w @ [word_rotl 1 (w ! (t - 3) XOR w ! (t - 8) XOR w ! (t - 14) XOR w ! (t - 16))]))"

type_synonym sha1_state = "u32 \<times> u32 \<times> u32 \<times> u32 \<times> u32"

definition sha1_round :: "sha1_state \<Rightarrow> nat \<times> u32 \<Rightarrow> sha1_state" where
  "sha1_round st tw =
     (case (st, tw) of ((a, b, c, d, e), (t, w)) \<Rightarrow>
        let (f, k) = (if t < 20 then ((b AND c) OR (NOT b AND d), 0x5A827999)
              else if t < 40 then (b XOR c XOR d, 0x6ED9EBA1)
              else if t < 60 then ((b AND c) OR (b AND d) OR (c AND d), 0x8F1BBCDC)
              else (b XOR c XOR d, 0xCA62C1D6)) in
        (word_rotl 5 a + f + e + w + k, a, word_rotl 30 b, c, d))"

definition sha1_block :: "sha1_state \<Rightarrow> bytes \<Rightarrow> sha1_state" where
  "sha1_block st blk =
     (case (st, foldl sha1_round st (enumerate 0 (sha1_schedule 64 (sha1_words blk)))) of
        ((a, b, c, d, e), (a', b', c', d', e')) \<Rightarrow> (a + a', b + b', c + c', d + d', e + e'))"

function sha1_blocks :: "sha1_state \<Rightarrow> bytes \<Rightarrow> sha1_state" where
  "sha1_blocks st m = (if m = [] then st else sha1_blocks (sha1_block st (take 64 m)) (drop 64 m))"
  by pat_completeness auto
termination by (relation "measure (\<lambda>(_, m). length m)") auto

declare sha1_blocks.simps [simp del]

definition sha1_Sum :: "bytes \<Rightarrow> bytes" where
  "sha1_Sum m =
     (case sha1_blocks (0x67452301, 0xEFCDAB89, 0x98BADCFE, 0x10325476, 0xC3D2E1F0) (sha1_pad m) of
        (a, b, c, d, e) \<Rightarrow> concat (map (\<lambda>v. AppendUint32 [] v) [a, b, c, d, e]))"

section \<open>SHA-256\<close>

definition sha256_K :: "u32 list" where
  "sha256_K =
     [0x428A2F98, 0x71374491, 0xB5C0FBCF, 0xE9B5DBA5, 0x3956C25B, 0x59F111F1, 0x923F82A4, 0xAB1C5ED5,
      0xD807AA98, 0x12835B01, 0x243185BE, 0x550C7DC3, 0x72BE5D74, 0x80DEB1FE, 0x9BDC06A7, 0xC19BF174,
      0xE49B69C1, 0xEFBE4786, 0x0FC19DC6, 0x240CA1CC, 0x2DE92C6F, 0x4A7484AA, 0x5CB0A9DC, 0x76F988DA,
      0x983E5152, 0xA831C66D, 0xB00327C8, 0xBF597FC7, 0xC6E00BF3, 0xD5A79147, 0x06CA6351, 0x14292967,
      0x27B70A85, 0x2E1B2138, 0x4D2C6DFC, 0x53380D13, 0x650A7354, 0x766A0ABB, 0x81C2C92E, 0x92722C85,
      0xA2BFE8A1, 0xA81A664B, 0xC24B8B70, 0xC76C51A3, 0xD192E819, 0xD6990624, 0xF40E3585, 0x106AA070,
      0x19A4C116, 0x1E376C08, 0x2748774C, 0x34B0BCB5, 0x391C0CB3, 0x4ED8AA4A, 0x5B9CCA4F, 0x682E6FF3,
      0x748F82EE, 0x78A5636F, 0x84C87814, 0x8CC70208, 0x90BEFFFA, 0xA4506CEB, 0xBEF9A3F7, 0xC67178F2]"

fun sha256_schedule :: "nat \<Rightarrow> u32 list \<Rightarrow> u32 list" where
  "sha256_schedule 0 w = w"
| "sha256_schedule (Suc n) w =
     (let t = length w; x = w ! (t - 15); y = w ! (t - 2);
          s0 = word_rotr 7 x XOR word_rotr 18 x XOR drop_bit 3 x;
          s1 = word_rotr 17 y XOR word_rotr 19 y XOR drop_bit 10 y in
      sha256_schedule n (w @ [w ! (t - 16) + s0 + w ! (t - 7) + s1]))"

text \<open>The working variables, a to h.\<close>

definition sha256_round :: "u32 list \<Rightarrow> u32 \<times> u32 \<Rightarrow> u32 list" where
  "sha256_round st kw =
     (case kw of (k, w) \<Rightarrow>
        let a = st ! 0; b = st ! 1; c = st ! 2; d = st ! 3; e = st ! 4; f = st ! 5; g = st ! 6; h = st ! 7;
            s1 = word_rotr 6 e XOR word_rotr 11 e XOR word_rotr 25 e;
            t1 = h + s1 + ((e AND f) XOR (NOT e AND g)) + k + w;
            s0 = word_rotr 2 a XOR word_rotr 13 a XOR word_rotr 22 a;
            t2 = s0 + ((a AND b) XOR (a AND c) XOR (b AND c)) in
        [t1 + t2, a, b, c, d + t1, e, f, g])"

definition sha256_block :: "u32 list \<Rightarrow> bytes \<Rightarrow> u32 list" where
  "sha256_block st blk =
     map2 (+) st (foldl sha256_round st (zip sha256_K (sha256_schedule 48 (sha1_words blk))))"

function sha256_blocks :: "u32 list \<Rightarrow> bytes \<Rightarrow> u32 list" where
  "sha256_blocks st m = (if m = [] then st else sha256_blocks (sha256_block st (take 64 m)) (drop 64 m))"
  by pat_completeness auto
termination by (relation "measure (\<lambda>(_, m). length m)") auto

declare sha256_blocks.simps [simp del]

text \<open>The padding is that of SHA-1.\<close>

definition sha256_Sum :: "bytes \<Rightarrow> bytes" where
  "sha256_Sum m =
     concat (map (AppendUint32 [])
       (sha256_blocks [0x6A09E667, 0xBB67AE85, 0x3C6EF372, 0xA54FF53A, 0x510E527F, 0x9B05688C, 0x1F83D9AB, 0x5BE0CD19]
         (sha1_pad m)))"

section \<open>HMAC\<close>

definition hmac_sha1 :: "bytes \<Rightarrow> bytes \<Rightarrow> bytes" where
  "hmac_sha1 key m =
     (let k0 = (if length key > 64 then sha1_Sum key else key);
          k = k0 @ replicate (64 - length k0) 0 in
      sha1_Sum (map (\<lambda>b. b XOR 0x5C) k @ sha1_Sum (map (\<lambda>b. b XOR 0x36) k @ m)))"

section \<open>Hexadecimal\<close>

definition hex_digit :: "nat \<Rightarrow> char" where
  "hex_digit n = (if n < 10 then char_of (48 + n) else char_of (87 + n))"

definition hex_bytes :: "bytes \<Rightarrow> string" where
  "hex_bytes b = concat (map (\<lambda>x. [hex_digit (unat x div 16), hex_digit (unat x mod 16)]) b)"

definition hex_val :: "char \<Rightarrow> nat option" where
  "hex_val c =
     (if byte_in 48 57 c then Some (of_char c - 48) else if byte_in 97 102 c then Some (of_char c - 87)
      else if byte_in 65 70 c then Some (of_char c - 55) else None)"

text \<open>\<open>hex.DecodeString\<close>.\<close>

fun hex_decode :: "string \<Rightarrow> bytes option" where
  "hex_decode [] = Some []"
| "hex_decode [_] = None"
| "hex_decode (a # b # r) =
     (case (hex_val a, hex_val b, hex_decode r) of
        (Some x, Some y, Some bs) \<Rightarrow> Some (of_nat (16 * x + y) # bs)
      | _ \<Rightarrow> None)"

section \<open>Base64\<close>

definition base64_val :: "char \<Rightarrow> nat option" where
  "base64_val c =
     (if byte_in 65 90 c then Some (of_char c - 65) else if byte_in 97 122 c then Some (of_char c - 71)
      else if byte_in 48 57 c then Some (of_char c + 4) else if c = CHR ''+'' then Some 62
      else if c = CHR ''/'' then Some 63 else None)"

text \<open>A group of four characters; padding may only end the text.\<close>

fun base64_groups :: "string \<Rightarrow> bytes option" where
  "base64_groups [] = Some []"
| "base64_groups (a # b # c # d # r) =
     (case (base64_val a, base64_val b) of
        (Some x, Some y) \<Rightarrow>
          if c = CHR ''='' then (if d = CHR ''='' \<and> r = [] then Some [of_nat (4 * x + y div 16)] else None)
          else (case base64_val c of None \<Rightarrow> None
            | Some z \<Rightarrow>
                if d = CHR ''='' then
                  (if r = [] then Some [of_nat (4 * x + y div 16), of_nat (16 * (y mod 16) + z div 4)] else None)
                else (case (base64_val d, base64_groups r) of
                    (Some w, Some bs) \<Rightarrow>
                      Some (of_nat (4 * x + y div 16) # of_nat (16 * (y mod 16) + z div 4) # of_nat (64 * (z mod 4) + w) # bs)
                  | _ \<Rightarrow> None))
      | _ \<Rightarrow> None)"
| "base64_groups _ = None"

text \<open>\<open>base64.StdEncoding.DecodeString\<close> skips line ends.\<close>

definition base64_decode :: "string \<Rightarrow> bytes option" where
  "base64_decode s = base64_groups (filter (\<lambda>c. c \<noteq> CHR 0x0A \<and> c \<noteq> CHR 0x0D) s)"

section \<open>Facts\<close>

lemma hex_digit_safe: "n < 16 \<Longrightarrow> byte_in 48 57 (hex_digit n) \<or> byte_in 97 102 (hex_digit n)"
  by (auto simp: hex_digit_def byte_in_def)

lemma hex_bytes_safe:
  assumes "c \<in> set (hex_bytes b)"
  shows "byte_in 48 57 c \<or> byte_in 97 102 c"
proof -
  obtain x :: byte where x: "c = hex_digit (unat x div 16) \<or> c = hex_digit (unat x mod 16)"
    using assms by (auto simp: hex_bytes_def)
  have "unat x < 256" using unsigned_less [of x, where 'a = nat] by simp
  then have "unat x div 16 < 16" "unat x mod 16 < 16" by simp_all
  then show ?thesis using x hex_digit_safe by metis
qed

lemma hex_val_digit: "n < 16 \<Longrightarrow> hex_val (hex_digit n) = Some n"
  by (auto simp: hex_val_def hex_digit_def byte_in_def)

lemma hex_decode_bytes: "hex_decode (hex_bytes b) = Some b"
proof (induction b)
  case (Cons x b)
  have "unat x < 256" using unsigned_less [of x, where 'a = nat] by simp
  then have v: "hex_val (hex_digit (unat x div 16)) = Some (unat x div 16)"
    "hex_val (hex_digit (unat x mod 16)) = Some (unat x mod 16)"
    by (simp_all add: hex_val_digit)
  have "of_nat (16 * (unat x div 16) + unat x mod 16) = x" by simp
  moreover have "hex_bytes (x # b) = hex_digit (unat x div 16) # hex_digit (unat x mod 16) # hex_bytes b"
    by (simp add: hex_bytes_def)
  ultimately show ?case using v Cons by (simp only: hex_decode.simps option.case prod.case)
qed (simp add: hex_bytes_def)

end
