(* ===== verification/MuxProto.thy ===== *)
theory MuxProto
  imports Prelude
begin

text \<open>
  \<open>tssh/mux_proto.go\<close>: the framing of the OpenSSH multiplexing protocol and of the ssh packets
  that travel over the control socket in proxy mode.  A connection is read from a byte stream
  (the bytes that will still arrive before the peer closes it), so \<open>io.ReadFull\<close> either splits
  off a prefix or fails at the end of the stream.  \<open>writeAll\<close> of \<open>tssh/stdio.go\<close> is modelled
  over a writer that may take only part of a write.
\<close>

section \<open>Constants\<close>

definition kMuxProtocolVersion :: u32 where "kMuxProtocolVersion = 4"
definition kMuxMsgHello :: u32 where "kMuxMsgHello = 0x00000001"
definition kMuxCNewSession :: u32 where "kMuxCNewSession = 0x10000002"
definition kMuxCAliveCheck :: u32 where "kMuxCAliveCheck = 0x10000004"
definition kMuxCTerminate :: u32 where "kMuxCTerminate = 0x10000005"
definition kMuxCOpenFwd :: u32 where "kMuxCOpenFwd = 0x10000006"
definition kMuxCCloseFwd :: u32 where "kMuxCCloseFwd = 0x10000007"
definition kMuxCNewStdioFwd :: u32 where "kMuxCNewStdioFwd = 0x10000008"
definition kMuxCStopListening :: u32 where "kMuxCStopListening = 0x10000009"
definition kMuxCProxy :: u32 where "kMuxCProxy = 0x1000000f"
definition kMuxSOk :: u32 where "kMuxSOk = 0x80000001"
definition kMuxSPermissionDenied :: u32 where "kMuxSPermissionDenied = 0x80000002"
definition kMuxSFailure :: u32 where "kMuxSFailure = 0x80000003"
definition kMuxSAlive :: u32 where "kMuxSAlive = 0x80000005"
definition kMuxSProxy :: u32 where "kMuxSProxy = 0x8000000f"
definition kMuxMaxPacket :: nat where "kMuxMaxPacket = 256 * 1024"
definition kMuxChannelWindowSize :: u32 where "kMuxChannelWindowSize = 2 * 1024 * 1024"
definition kMuxChannelMaxPacket :: u32 where "kMuxChannelMaxPacket = 32 * 1024"
definition kMuxUdpModeRequest :: string where
  "kMuxUdpModeRequest = ''udp-mode@trzsz.github.io''"

definition kSshMsgGlobalRequest :: byte where "kSshMsgGlobalRequest = 80"
definition kSshMsgRequestSuccess :: byte where "kSshMsgRequestSuccess = 81"
definition kSshMsgRequestFailure :: byte where "kSshMsgRequestFailure = 82"
definition kSshMsgChannelOpen :: byte where "kSshMsgChannelOpen = 90"
definition kSshMsgChannelOpenConfirm :: byte where "kSshMsgChannelOpenConfirm = 91"
definition kSshMsgChannelOpenFailure :: byte where "kSshMsgChannelOpenFailure = 92"
definition kSshMsgChannelWindowAdjust :: byte where "kSshMsgChannelWindowAdjust = 93"
definition kSshMsgChannelData :: byte where "kSshMsgChannelData = 94"
definition kSshMsgChannelExtendedData :: byte where "kSshMsgChannelExtendedData = 95"
definition kSshMsgChannelEOF :: byte where "kSshMsgChannelEOF = 96"
definition kSshMsgChannelClose :: byte where "kSshMsgChannelClose = 97"
definition kSshMsgChannelRequest :: byte where "kSshMsgChannelRequest = 98"
definition kSshMsgChannelSuccess :: byte where "kSshMsgChannelSuccess = 99"
definition kSshMsgChannelFailure :: byte where "kSshMsgChannelFailure = 100"
definition kSshExtendedDataStderr :: u32 where "kSshExtendedDataStderr = 1"
definition kSshTerminalModeEnd :: byte where "kSshTerminalModeEnd = 0"

lemmas mux_type_defs =
  kMuxMsgHello_def kMuxCNewSession_def kMuxCAliveCheck_def kMuxCTerminate_def kMuxCOpenFwd_def
  kMuxCCloseFwd_def kMuxCNewStdioFwd_def kMuxCStopListening_def kMuxCProxy_def kMuxSOk_def
  kMuxSPermissionDenied_def kMuxSFailure_def kMuxSAlive_def kMuxSProxy_def

lemmas ssh_type_defs =
  kSshMsgGlobalRequest_def kSshMsgRequestSuccess_def kSshMsgRequestFailure_def
  kSshMsgChannelOpen_def kSshMsgChannelOpenConfirm_def kSshMsgChannelOpenFailure_def
  kSshMsgChannelWindowAdjust_def kSshMsgChannelData_def kSshMsgChannelExtendedData_def
  kSshMsgChannelEOF_def kSshMsgChannelClose_def kSshMsgChannelRequest_def
  kSshMsgChannelSuccess_def kSshMsgChannelFailure_def

section \<open>Reading\<close>

datatype mux_error =
    ReadFailed                      \<comment> \<open>\<open>io.EOF\<close> or \<open>io.ErrUnexpectedEOF\<close>\<close>
  | PacketTooLong nat
  | MessageTooShort
  | MissingPadding
  | BadPadding byte
  | WriteFailed
  | ShortWrite
  | HelloExpected u32
  | HelloNoVersion
  | BadVersion u32
  | ProxyExpected u32
  | ProxyNoRid

text \<open>\<open>io.ReadFull\<close> of \<open>n\<close> bytes: the bytes and the rest of the stream.\<close>

definition ReadFull :: "nat \<Rightarrow> bytes \<Rightarrow> (bytes \<times> bytes) option" where
  "ReadFull n s = (if n \<le> length s then Some (take n s, drop n s) else None)"

definition muxReadPacket :: "bytes \<Rightarrow> mux_error + bytes \<times> bytes" where
  "muxReadPacket r =
     (case ReadFull 4 r of None \<Rightarrow> Inl ReadFailed
      | Some (head, r1) \<Rightarrow>
          let len = unat (Uint32 head) in
          if len > kMuxMaxPacket then Inl (PacketTooLong len)
          else (case ReadFull len r1 of None \<Rightarrow> Inl ReadFailed
                | Some (body, r2) \<Rightarrow> Inr (body, r2)))"

text \<open>\<open>muxReadUint32\<close> and \<open>muxReadString\<close> take the slice behind the pointer and give the value
  read, if any, with the slice left behind the pointer.\<close>

definition muxReadUint32 :: "bytes \<Rightarrow> u32 option \<times> bytes" where
  "muxReadUint32 b = (if length b < 4 then (None, b) else (Some (Uint32 b), drop 4 b))"

definition muxReadString :: "bytes \<Rightarrow> string option \<times> bytes" where
  "muxReadString b =
     (case muxReadUint32 b of (None, b1) \<Rightarrow> (None, b1)
      | (Some len, b1) \<Rightarrow>
          if unat len > length b1 then (None, b1)
          else (Some (string_of_bytes (take (unat len) b1)), drop (unat len) b1))"

definition muxReadMessage :: "bytes \<Rightarrow> mux_error + (u32 \<times> bytes) \<times> bytes" where
  "muxReadMessage r =
     (case muxReadPacket r of Inl e \<Rightarrow> Inl e
      | Inr (body, r1) \<Rightarrow>
          (case muxReadUint32 body of (None, _) \<Rightarrow> Inl MessageTooShort
           | (Some msgType, body1) \<Rightarrow> Inr ((msgType, body1), r1)))"

definition muxReadSshPacket :: "bytes \<Rightarrow> mux_error + bytes \<times> bytes" where
  "muxReadSshPacket r =
     (case muxReadPacket r of Inl e \<Rightarrow> Inl e
      | Inr (body, r1) \<Rightarrow>
          (case body of [] \<Rightarrow> Inl MissingPadding
           | p # payload \<Rightarrow> if p \<noteq> 0 then Inl (BadPadding p) else Inr (payload, r1)))"

section \<open>Writing\<close>

text \<open>
  A writer is a function from the slice it is given to the number of bytes it takes, or an
  error.  \<open>writeAll\<close> retries with what is left, so a byte is handed over at most once.
\<close>

type_synonym 'w writer = "'w \<Rightarrow> bytes \<Rightarrow> (mux_error + nat) \<times> 'w"

function writeAll :: "'w writer \<Rightarrow> 'w \<Rightarrow> bytes \<Rightarrow> (mux_error + unit) \<times> 'w" where
  "writeAll wr w data =
     (if data = [] then (Inr (), w)
      else (case wr w data of
              (Inl e, w1) \<Rightarrow> (Inl e, w1)
            | (Inr n, w1) \<Rightarrow>
                if n = 0 then (Inl ShortWrite, w1) else writeAll wr w1 (drop n data)))"
  by pat_completeness auto
termination
  by (relation "measure (\<lambda>(wr, w, data). length data)") auto

declare writeAll.simps [simp del]

text \<open>The single buffer that \<open>muxWritePacket\<close> hands to \<open>writeAll\<close>.\<close>

definition muxPacketBuf :: "bytes \<Rightarrow> bytes" where
  "muxPacketBuf body = AppendUint32 [] (of_nat (length body)) @ body"

definition muxWritePacket :: "'w writer \<Rightarrow> 'w \<Rightarrow> bytes \<Rightarrow> (mux_error + unit) \<times> 'w" where
  "muxWritePacket wr w body = writeAll wr w (muxPacketBuf body)"

text \<open>The variadic fields of a mux message: the type switch has these two cases.\<close>

datatype mux_field = FUint32 u32 | FString string

fun appendField :: "bytes \<Rightarrow> mux_field \<Rightarrow> bytes" where
  "appendField buf (FUint32 v) = AppendUint32 buf v"
| "appendField buf (FString v) = AppendUint32 buf (of_nat (length v)) @ bytes_of_string v"

definition muxBuildMessage :: "u32 \<Rightarrow> mux_field list \<Rightarrow> bytes" where
  "muxBuildMessage msgType fields = foldl appendField (AppendUint32 [] msgType) fields"

definition muxWriteMessage ::
  "'w writer \<Rightarrow> 'w \<Rightarrow> u32 \<Rightarrow> mux_field list \<Rightarrow> (mux_error + unit) \<times> 'w" where
  "muxWriteMessage wr w msgType fields = muxWritePacket wr w (muxBuildMessage msgType fields)"

text \<open>\<open>writeSshPacket\<close>: one \<open>Write\<close> call whose count is ignored, under the writer's lock.\<close>

definition sshPacketBuf :: "bytes \<Rightarrow> bytes" where
  "sshPacketBuf payload = AppendUint32 [] (of_nat (1 + length payload)) @ [0] @ payload"

definition writeSshPacket :: "'w writer \<Rightarrow> 'w \<Rightarrow> bytes \<Rightarrow> (mux_error + unit) \<times> 'w" where
  "writeSshPacket wr w payload =
     (if length payload + 1 > kMuxMaxPacket then (Inl (PacketTooLong (length payload + 1)), w)
      else (case wr w (sshPacketBuf payload) of
              (Inl e, w1) \<Rightarrow> (Inl e, w1)
            | (Inr _, w1) \<Rightarrow> (Inr (), w1)))"

section \<open>The connection\<close>

text \<open>
  A control connection as the code sees it: the bytes still to be read, the bytes written so
  far, and how many more bytes \<open>Write\<close> takes before it fails (\<^term>\<open>None\<close>: it never fails).
\<close>

record sock =
  sk_in :: bytes
  sk_out :: bytes
  sk_quota :: "nat option"
  sk_closed :: bool

definition sock_write :: "sock writer" where
  "sock_write s d =
     (if sk_closed s then (Inl WriteFailed, s)
      else case sk_quota s of
        None \<Rightarrow> (Inr (length d), s\<lparr>sk_out := sk_out s @ d\<rparr>)
      | Some q \<Rightarrow>
          if length d \<le> q
          then (Inr (length d), s\<lparr>sk_out := sk_out s @ d, sk_quota := Some (q - length d)\<rparr>)
          else (Inl WriteFailed, s\<lparr>sk_out := sk_out s @ take q d, sk_quota := Some 0\<rparr>))"

definition sock_close :: "sock \<Rightarrow> sock" where
  "sock_close s = s\<lparr>sk_closed := True\<rparr>"

section \<open>Terminal modes\<close>

text \<open>The Go map from opcode to argument; a repeated opcode overwrites the earlier entry.\<close>

fun parseTerminalModesAux :: "(byte \<rightharpoonup> u32) \<Rightarrow> bytes \<Rightarrow> (byte \<rightharpoonup> u32)" where
  "parseTerminalModesAux modes (opcode # a # b # c # d # rest) =
     (if opcode = kSshTerminalModeEnd then modes
      else parseTerminalModesAux (modes(opcode \<mapsto> Uint32 [a, b, c, d])) rest)"
| "parseTerminalModesAux modes _ = modes"

definition parseTerminalModes :: "bytes \<Rightarrow> (byte \<rightharpoonup> u32)" where
  "parseTerminalModes modelist = parseTerminalModesAux Map.empty modelist"

section \<open>Round trips and error branches\<close>

lemma kMuxMaxPacket_less [simp]: "n \<le> kMuxMaxPacket \<Longrightarrow> n < 4294967296"
  by (simp add: kMuxMaxPacket_def)

lemma muxReadPacket_muxPacketBuf [wire_simps]:
  assumes "length body \<le> kMuxMaxPacket"
  shows "muxReadPacket (muxPacketBuf body @ rest) = Inr (body, rest)"
proof -
  have "unat (of_nat (length body) :: u32) = length body"
    using assms by (simp add: unat_of_nat_u32)
  with assms show ?thesis
    by (simp add: muxReadPacket_def muxPacketBuf_def ReadFull_def)
qed

lemma muxReadUint32_cons [wire_simps]: "muxReadUint32 (AppendUint32 [] v @ rest) = (Some v, rest)"
  by (simp add: muxReadUint32_def)

lemma muxReadUint32_append [wire_simps]: "muxReadUint32 (AppendUint32 [] v) = (Some v, [])"
  using muxReadUint32_cons [of v "[]"] by simp

lemma muxReadString_append [wire_simps]:
  assumes "length s < 4294967296"
  shows "muxReadString (AppendUint32 [] (of_nat (length s)) @ bytes_of_string s @ rest)
         = (Some s, rest)"
  using assms by (simp add: muxReadString_def wire_simps unat_of_nat_u32)

definition encodeField :: "mux_field \<Rightarrow> bytes" where
  "encodeField f = appendField [] f"

lemma appendField_append: "appendField buf f = buf @ encodeField f"
  by (cases f) (simp_all add: encodeField_def AppendUint32_append [of buf])

lemma foldl_appendField: "foldl appendField buf fs = buf @ concat (map encodeField fs)"
  by (induction fs arbitrary: buf) (simp_all add: appendField_append)

lemma muxBuildMessage_eq [wire_simps]:
  "muxBuildMessage t fs = AppendUint32 [] t @ concat (map encodeField fs)"
  by (simp add: muxBuildMessage_def foldl_appendField)

lemma muxReadMessage_muxBuildMessage [wire_simps]:
  assumes "length (muxBuildMessage t fs) \<le> kMuxMaxPacket"
  shows "muxReadMessage (muxPacketBuf (muxBuildMessage t fs) @ rest)
         = Inr ((t, concat (map encodeField fs)), rest)"
  unfolding muxReadMessage_def muxReadPacket_muxPacketBuf [OF assms]
  by (simp add: muxBuildMessage_eq muxReadUint32_cons)

text \<open>The decoder of a whole field list, in the order the fields were written.\<close>

fun readFields :: "mux_field list \<Rightarrow> bytes \<Rightarrow> (mux_field list \<times> bytes) option" where
  "readFields [] b = Some ([], b)"
| "readFields (FUint32 _ # fs) b =
     (case muxReadUint32 b of (None, _) \<Rightarrow> None
      | (Some v, b1) \<Rightarrow> map_option (\<lambda>(vs, r). (FUint32 v # vs, r)) (readFields fs b1))"
| "readFields (FString _ # fs) b =
     (case muxReadString b of (None, _) \<Rightarrow> None
      | (Some v, b1) \<Rightarrow> map_option (\<lambda>(vs, r). (FString v # vs, r)) (readFields fs b1))"

lemma readFields_encode:
  assumes "\<forall>s. FString s \<in> set fs \<longrightarrow> length s < 4294967296"
  shows "readFields fs (concat (map encodeField fs) @ rest) = Some (fs, rest)"
  using assms
proof (induction fs)
  case (Cons f fs)
  then show ?case
    by (cases f) (simp_all add: encodeField_def wire_simps)
qed simp

lemma concat_encode_bound: "FString s \<in> set fs \<Longrightarrow> length s \<le> length (concat (map encodeField fs))"
proof (induction fs)
  case (Cons f fs)
  then show ?case by (auto simp: encodeField_def)
qed simp

section \<open>Writers\<close>

text \<open>
  What the framing code relies on in an \<open>io.Writer\<close>: a successful \<open>Write\<close> has taken a prefix of
  the slice of the length it reports, a failed one some prefix.
\<close>

locale io_writer =
  fixes wr :: "'w writer" and written :: "'w \<Rightarrow> bytes"
  assumes write_ok: "wr w d = (Inr n, w') \<Longrightarrow> n \<le> length d \<and> written w' = written w @ take n d"
    and write_err: "wr w d = (Inl e, w') \<Longrightarrow> \<exists>n\<le>length d. written w' = written w @ take n d"
begin

lemma writeAll_prefix:
  "writeAll wr w d = (r, w') \<Longrightarrow>
     \<exists>n\<le>length d. written w' = written w @ take n d \<and> (r = Inr () \<longrightarrow> n = length d)"
proof (induction "length d" arbitrary: w d rule: less_induct)
  case less
  show ?case
  proof (cases "d = []")
    case True
    with less.prems show ?thesis by (simp add: writeAll.simps)
  next
    case False
    obtain q w1 where q: "wr w d = (q, w1)" by fastforce
    show ?thesis
    proof (cases q)
      case (Inl e)
      with q False less.prems write_err [of w d e w1] show ?thesis
        by (auto simp: writeAll.simps [of wr w d])
    next
      case (Inr n)
      with q have n: "n \<le> length d" "written w1 = written w @ take n d"
        using write_ok by auto
      show ?thesis
      proof (cases "n = 0")
        case True
        with q Inr False less.prems n show ?thesis
          by (intro exI [of _ 0]) (auto simp: writeAll.simps [of wr w d])
      next
        case n0: False
        with q Inr False less.prems have "writeAll wr w1 (drop n d) = (r, w')"
          by (simp add: writeAll.simps [of wr w d])
        moreover have "length (drop n d) < length d" using n0 False by simp
        ultimately obtain k where k: "k \<le> length (drop n d)"
          "written w' = written w1 @ take k (drop n d)" "r = Inr () \<longrightarrow> k = length (drop n d)"
          using less.hyps by blast
        then show ?thesis
          using n by (intro exI [of _ "n + k"]) (auto simp: take_add)
      qed
    qed
  qed
qed

lemma writeAll_ok: "writeAll wr w d = (Inr (), w') \<Longrightarrow> written w' = written w @ d"
  using writeAll_prefix by fastforce

lemma muxWritePacket_ok:
  "muxWritePacket wr w body = (Inr (), w') \<Longrightarrow> written w' = written w @ muxPacketBuf body"
  by (simp add: muxWritePacket_def writeAll_ok)

end

text \<open>A writer that takes whole slices as long as it works, as a blocking socket does.\<close>

locale full_writer = io_writer wr written for wr :: "'w writer" and written +
  fixes room :: "'w \<Rightarrow> nat \<Rightarrow> bool"
  assumes write_full: "room w (length d) \<Longrightarrow> \<exists>w'. wr w d = (Inr (length d), w')"
    and write_fail: "\<not> room w (length d) \<Longrightarrow> \<exists>w'. wr w d = (Inl WriteFailed, w')"
begin

lemma writeAll_full:
  assumes "room w (length d)"
  shows "\<exists>w'. writeAll wr w d = (Inr (), w') \<and> written w' = written w @ d"
proof (cases "d = []")
  case True
  then show ?thesis by (simp add: writeAll.simps)
next
  case False
  obtain w' where w': "wr w d = (Inr (length d), w')" using write_full [OF assms] by auto
  with False have "writeAll wr w d = (Inr (), w')"
    by (simp add: writeAll.simps [of wr w d] writeAll.simps [of wr w' "[]"])
  then show ?thesis using writeAll_ok by blast
qed

lemma writeSshPacket_full:
  assumes "length payload + 1 \<le> kMuxMaxPacket" and "room w (length (sshPacketBuf payload))"
  shows "\<exists>w'. writeSshPacket wr w payload = (Inr (), w') \<and>
           written w' = written w @ sshPacketBuf payload"
proof -
  obtain w' where w': "wr w (sshPacketBuf payload) = (Inr (length (sshPacketBuf payload)), w')"
    using write_full [OF assms(2)] by auto
  moreover have "written w' = written w @ sshPacketBuf payload"
    using write_ok [OF w'] by simp
  ultimately show ?thesis using assms(1) by (simp add: writeSshPacket_def)
qed

end

definition sock_room :: "sock \<Rightarrow> nat \<Rightarrow> bool" where
  "sock_room s n \<longleftrightarrow> \<not> sk_closed s \<and> (case sk_quota s of None \<Rightarrow> True | Some q \<Rightarrow> n \<le> q)"

interpretation sock: full_writer sock_write sk_out sock_room
proof
  fix w w' :: sock and d :: bytes and n
  assume "sock_write w d = (Inr n, w')"
  then show "n \<le> length d \<and> sk_out w' = sk_out w @ take n d"
    by (auto simp: sock_write_def split: if_splits option.splits)
next
  fix w w' :: sock and d :: bytes and e
  assume "sock_write w d = (Inl e, w')"
  then show "\<exists>n\<le>length d. sk_out w' = sk_out w @ take n d"
    by (auto simp: sock_write_def split: if_splits option.splits intro: exI [of _ 0]
        intro: exI [of _ "the (sk_quota w)"])
next
  fix w :: sock and d :: bytes
  show "sock_room w (length d) \<Longrightarrow> \<exists>w'. sock_write w d = (Inr (length d), w')"
    and "\<not> sock_room w (length d) \<Longrightarrow> \<exists>w'. sock_write w d = (Inl WriteFailed, w')"
    by (auto simp: sock_room_def sock_write_def split: option.splits if_splits)
qed

text \<open>On an open connection whose writes never fail, everything is written.\<close>

definition sock_good :: "sock \<Rightarrow> bool" where
  "sock_good s \<longleftrightarrow> \<not> sk_closed s \<and> sk_quota s = None"

lemma sock_good_room [simp]: "sock_good s \<Longrightarrow> sock_room s n"
  by (simp add: sock_good_def sock_room_def)

lemma writeAll_sock_good [simp]:
  "sock_good s \<Longrightarrow> writeAll sock_write s d = (Inr (), s\<lparr>sk_out := sk_out s @ d\<rparr>)"
  by (cases "d = []")
    (simp_all add: writeAll.simps [of sock_write s d] writeAll.simps [of sock_write _ "[]"]
      sock_write_def sock_good_def)

lemma muxWriteMessage_sock_good [simp]:
  "sock_good s \<Longrightarrow> muxWriteMessage sock_write s t fs =
     (Inr (), s\<lparr>sk_out := sk_out s @ muxPacketBuf (muxBuildMessage t fs)\<rparr>)"
  by (simp add: muxWriteMessage_def muxWritePacket_def)

lemma sock_good_update [simp]:
  "sock_good (s\<lparr>sk_in := i\<rparr>) = sock_good s" "sock_good (s\<lparr>sk_out := p\<rparr>) = sock_good s"
  by (simp_all add: sock_good_def)

section \<open>Properties\<close>

text \<open>C20: every mux message that fits the packet limit is read back exactly: the type, then every
  field with the reader of its kind, in order, and nothing of the following stream is touched.\<close>

theorem mux_message_roundtrip:
  assumes "length (muxBuildMessage t fs) \<le> kMuxMaxPacket"
  shows "\<exists>b. muxReadMessage (muxPacketBuf (muxBuildMessage t fs) @ rest) = Inr ((t, b), rest) \<and>
    readFields fs b = Some (fs, [])"
proof -
  have "\<forall>s. FString s \<in> set fs \<longrightarrow> length s < 4294967296"
    using assms concat_encode_bound [of _ fs]
    by (fastforce simp: muxBuildMessage_eq kMuxMaxPacket_def)
  then have "readFields fs (concat (map encodeField fs)) = Some (fs, [])"
    using readFields_encode [of fs "[]"] by simp
  then show ?thesis using muxReadMessage_muxBuildMessage [OF assms] by blast
qed

theorem mux_message_roundtrip_witness:
  "\<exists>b. muxReadMessage (muxPacketBuf (muxBuildMessage kMuxSFailure [FUint32 7, FString ''no'']) @ [1])
     = Inr ((kMuxSFailure, b), [1]) \<and>
     readFields [FUint32 7, FString ''no''] b = Some ([FUint32 7, FString ''no''], [])"
  by (rule mux_message_roundtrip) (simp add: wire_simps encodeField_def kMuxMaxPacket_def)

fun readSshPackets :: "nat \<Rightarrow> bytes \<Rightarrow> mux_error + bytes list \<times> bytes" where
  "readSshPackets 0 r = Inr ([], r)"
| "readSshPackets (Suc n) r =
     (case muxReadSshPacket r of Inl e \<Rightarrow> Inl e
      | Inr (p, r1) \<Rightarrow> (case readSshPackets n r1 of Inl e \<Rightarrow> Inl e
                       | Inr (ps, r2) \<Rightarrow> Inr (p # ps, r2)))"

fun writeSshPackets :: "sock \<Rightarrow> bytes list \<Rightarrow> (mux_error + unit) \<times> sock" where
  "writeSshPackets w [] = (Inr (), w)"
| "writeSshPackets w (p # ps) =
     (case writeSshPacket sock_write w p of (Inl e, w1) \<Rightarrow> (Inl e, w1)
      | (Inr _, w1) \<Rightarrow> writeSshPackets w1 ps)"

lemma muxReadSshPacket_sshPacketBuf [wire_simps]:
  assumes "length p + 1 \<le> kMuxMaxPacket"
  shows "muxReadSshPacket (sshPacketBuf p @ rest) = Inr (p, rest)"
proof -
  have "sshPacketBuf p = muxPacketBuf (0 # p)"
    by (simp add: sshPacketBuf_def muxPacketBuf_def)
  then show ?thesis
    using assms muxReadPacket_muxPacketBuf [of "0 # p" rest] by (simp add: muxReadSshPacket_def)
qed

lemma readSshPackets_concat:
  "\<forall>p\<in>set ps. length p + 1 \<le> kMuxMaxPacket \<Longrightarrow>
     readSshPackets (length ps) (concat (map sshPacketBuf ps) @ rest) = Inr (ps, rest)"
  by (induction ps) (simp_all add: muxReadSshPacket_sshPacketBuf)

lemma writeSshPackets_ok:
  "writeSshPackets w ps = (Inr (), w') \<Longrightarrow>
     sk_out w' = sk_out w @ concat (map sshPacketBuf ps) \<and>
     (\<forall>p\<in>set ps. length p + 1 \<le> kMuxMaxPacket)"
proof (induction ps arbitrary: w)
  case (Cons p ps)
  obtain r w1 where r: "writeSshPacket sock_write w p = (r, w1)" by fastforce
  with Cons.prems have "r = Inr ()" and rest: "writeSshPackets w1 ps = (Inr (), w')"
    by (cases r; simp)+
  with r obtain n where "sock_write w (sshPacketBuf p) = (Inr n, w1)"
    and len: "length p + 1 \<le> kMuxMaxPacket"
    by (auto simp: writeSshPacket_def split: if_splits prod.splits sum.splits)
  then have "sk_out w1 = sk_out w @ sshPacketBuf p"
    by (auto simp: sock_write_def split: if_splits option.splits)
  with Cons.IH [OF rest] len show ?case by simp
qed simp

text \<open>A run of ssh packets that was written without an error is read back by the peer
  packet by packet, in order, with the stream after it left in place.\<close>

theorem ssh_packet_stream_roundtrip:
  assumes "writeSshPackets w ps = (Inr (), w')" and "sk_out w = []"
  shows "readSshPackets (length ps) (sk_out w' @ rest) = Inr (ps, rest)"
  using writeSshPackets_ok [OF assms(1)] assms(2) by (simp add: readSshPackets_concat)

theorem ssh_packet_stream_roundtrip_witness:
  "readSshPackets (length [[98, 0], [97 :: byte]])
     (sk_out (snd (writeSshPackets \<lparr>sk_in = [], sk_out = [], sk_quota = None, sk_closed = False\<rparr>
        [[98, 0], [97]])) @ [9]) = Inr ([[98, 0], [97]], [9])"
  by (rule ssh_packet_stream_roundtrip [of
        "\<lparr>sk_in = [], sk_out = [], sk_quota = None, sk_closed = False\<rparr>"])
    (simp_all add: writeSshPacket_def sock_write_def kMuxMaxPacket_def sshPacketBuf_def)

text \<open>The exact error behaviour of the packet reader on any stream: a header that announces
  more than the limit is refused whatever follows, and a stream that ends inside the header or
  the body is a read error, never a shorter packet.\<close>

theorem muxReadPacket_total:
  "muxReadPacket r =
     (if length r < 4 then Inl ReadFailed
      else if unat (Uint32 r) > kMuxMaxPacket then Inl (PacketTooLong (unat (Uint32 r)))
      else if length r < 4 + unat (Uint32 r) then Inl ReadFailed
      else Inr (take (unat (Uint32 r)) (drop 4 r), drop (4 + unat (Uint32 r)) r))"
proof (cases "length r < 4")
  case False
  then have "Uint32 (take 4 r) = Uint32 r"
    by (simp add: Uint32_def)
  with False show ?thesis
    by (auto simp: muxReadPacket_def ReadFull_def Let_def add.commute)
qed (simp add: muxReadPacket_def ReadFull_def)

end
