(* ===== verification/MuxHandshake.thy ===== *)
theory MuxHandshake
  imports MuxProto GoStrings
begin

text \<open>
  The mux handshakes and control commands: \<open>muxServerHello\<close> and \<open>muxAcceptProxyHandshake\<close> of
  \<open>tssh/mux_proxy.go\<close>, and \<open>tssh/mux_ctrl.go\<close>.  Both ends work on a \<^typ>\<open>sock\<close>: reading takes
  bytes off \<open>sk_in\<close>, writing appends to \<open>sk_out\<close>.  A failed read leaves the connection in a
  state the code never uses again, so it is returned unchanged.
\<close>

section \<open>The HELLO exchange\<close>

definition recvMessage :: "sock \<Rightarrow> (mux_error + u32 \<times> bytes) \<times> sock" where
  "recvMessage s =
     (if sk_closed s then (Inl ReadFailed, s)
      else case muxReadMessage (sk_in s) of
        Inl e \<Rightarrow> (Inl e, s)
      | Inr (m, r) \<Rightarrow> (Inr m, s\<lparr>sk_in := r\<rparr>))"

definition checkHello :: "u32 \<times> bytes \<Rightarrow> mux_error + unit" where
  "checkHello m =
     (case m of (msgType, body) \<Rightarrow>
        if msgType \<noteq> kMuxMsgHello then Inl (HelloExpected msgType)
        else case muxReadUint32 body of
          (None, _) \<Rightarrow> Inl HelloNoVersion
        | (Some version, _) \<Rightarrow>
            if version \<noteq> kMuxProtocolVersion then Inl (BadVersion version) else Inr ())"

definition muxServerHello :: "sock \<Rightarrow> (mux_error + unit) \<times> sock" where
  "muxServerHello s =
     (case recvMessage s of
        (Inl e, s1) \<Rightarrow> (Inl e, s1)
      | (Inr m, s1) \<Rightarrow>
          (case checkHello m of
             Inl e \<Rightarrow> (Inl e, s1)
           | Inr _ \<Rightarrow> muxWriteMessage sock_write s1 kMuxMsgHello [FUint32 kMuxProtocolVersion]))"

definition muxClientHello :: "sock \<Rightarrow> (mux_error + unit) \<times> sock" where
  "muxClientHello s =
     (case muxWriteMessage sock_write s kMuxMsgHello [FUint32 kMuxProtocolVersion] of
        (Inl e, s1) \<Rightarrow> (Inl e, s1)
      | (Inr _, s1) \<Rightarrow>
          (case recvMessage s1 of
             (Inl e, s2) \<Rightarrow> (Inl e, s2)
           | (Inr m, s2) \<Rightarrow> (checkHello m, s2)))"

definition muxAcceptProxyHandshake :: "sock \<Rightarrow> (mux_error + unit) \<times> sock" where
  "muxAcceptProxyHandshake s =
     (case muxServerHello s of
        (Inl e, s1) \<Rightarrow> (Inl e, s1)
      | (Inr _, s1) \<Rightarrow>
          (case recvMessage s1 of
             (Inl e, s2) \<Rightarrow> (Inl e, s2)
           | (Inr (msgType, body), s2) \<Rightarrow>
               if msgType \<noteq> kMuxCProxy then (Inl (ProxyExpected msgType), s2)
               else case muxReadUint32 body of
                 (None, _) \<Rightarrow> (Inl ProxyNoRid, s2)
               | (Some rid, _) \<Rightarrow> muxWriteMessage sock_write s2 kMuxSProxy [FUint32 rid]))"

section \<open>Control commands\<close>

definition kExitCodeToolsError :: int where
  "kExitCodeToolsError = 101"

text \<open>What \<open>muxControlCommand\<close> prints on stderr.\<close>

datatype ctl_output =
    ConnectFailed
  | SocketError mux_error
  | InvalidCommand string
  | CtlWriteFailed mux_error
  | CtlReadFailed mux_error
  | UnexpectedRid
  | MasterRunning u32
  | CtlDone string
  | RequestFailed string
  | UnexpectedReply u32

definition ctlRequest :: "string \<Rightarrow> (u32 \<times> u32 \<times> string) option" where
  "ctlRequest ctlCmd =
     (let c = ToLower ctlCmd in
      if c = ''check'' then Some (kMuxCAliveCheck, kMuxSAlive, '''')
      else if c = ''exit'' then Some (kMuxCTerminate, kMuxSOk, ''Exit request sent.'')
      else if c = ''stop'' then Some (kMuxCStopListening, kMuxSOk, ''Stop listening request sent.'')
      else None)"

definition ctlReply :: "u32 \<Rightarrow> string \<Rightarrow> u32 \<times> bytes \<Rightarrow> int \<times> ctl_output" where
  "ctlReply expct okMessage m =
     (case m of (msgType, body) \<Rightarrow>
        (case muxReadUint32 body of
           (None, _) \<Rightarrow> (kExitCodeToolsError, UnexpectedRid)
         | (Some gotRid, body1) \<Rightarrow>
             if gotRid \<noteq> 1 then (kExitCodeToolsError, UnexpectedRid)
             else if msgType = expct then
               (if msgType = kMuxSAlive
                then (0, MasterRunning (case fst (muxReadUint32 body1) of
                                          None \<Rightarrow> 0 | Some pid \<Rightarrow> pid))
                else (0, CtlDone okMessage))
             else if msgType = kMuxSPermissionDenied \<or> msgType = kMuxSFailure
             then (kExitCodeToolsError, RequestFailed (case fst (muxReadString body1) of
                                          None \<Rightarrow> '''' | Some reason \<Rightarrow> reason))
             else (kExitCodeToolsError, UnexpectedReply msgType)))"

text \<open>\<open>net.DialTimeout\<close> gives the connection or fails (\<^term>\<open>None\<close>).\<close>

definition muxControlCommand ::
  "sock option \<Rightarrow> string \<Rightarrow> (int \<times> ctl_output) \<times> sock option" where
  "muxControlCommand dial ctlCmd =
     (case dial of None \<Rightarrow> ((kExitCodeToolsError, ConnectFailed), None)
      | Some conn \<Rightarrow>
          (case muxClientHello conn of
             (Inl e, s1) \<Rightarrow> ((kExitCodeToolsError, SocketError e), Some (sock_close s1))
           | (Inr _, s1) \<Rightarrow>
               (case ctlRequest ctlCmd of
                  None \<Rightarrow> ((kExitCodeToolsError, InvalidCommand ctlCmd), Some (sock_close s1))
                | Some (request, expct, okMessage) \<Rightarrow>
                    (case muxWriteMessage sock_write s1 request [FUint32 1] of
                       (Inl e, s2) \<Rightarrow>
                         ((kExitCodeToolsError, CtlWriteFailed e), Some (sock_close s2))
                     | (Inr _, s2) \<Rightarrow>
                         (case recvMessage s2 of
                            (Inl e, s3) \<Rightarrow>
                              ((kExitCodeToolsError, CtlReadFailed e), Some (sock_close s3))
                          | (Inr m, s3) \<Rightarrow>
                              (ctlReply expct okMessage m, Some (sock_close s3)))))))"

section \<open>ControlPath and ControlMaster\<close>

text \<open>
  \<open>getOptionConfig\<close> is the configuration lookup; the functions below take the value it gives
  for the option they ask for.
\<close>

definition resolveControlPath :: "string \<Rightarrow> (string \<Rightarrow> string) \<Rightarrow> string" where
  "resolveControlPath argsControlPath getOption =
     (let ctrlPath = (if argsControlPath = '''' then getOption ''ControlPath'' else argsControlPath)
      in if EqualFold ctrlPath ''none'' then '''' else ctrlPath)"

definition getControlMasterMode :: "bool \<Rightarrow> (string \<Rightarrow> string) \<Rightarrow> bool \<times> bool" where
  "getControlMasterMode argsControlMaster getOption =
     (if argsControlMaster then (True, False)
      else let v = ToLower (getOption ''ControlMaster'') in
        if v = ''yes'' \<or> v = ''ask'' \<or> v = ''true'' then (True, False)
        else if v = ''auto'' \<or> v = ''autoask'' then (False, True)
        else (False, False))"

section \<open>Lemmas\<close>

abbreviation helloPacket :: bytes where
  "helloPacket \<equiv> muxPacketBuf (muxBuildMessage kMuxMsgHello [FUint32 kMuxProtocolVersion])"

lemma encodeField_simps [wire_simps]:
  "encodeField (FUint32 v) = AppendUint32 [] v"
  "encodeField (FString s) = AppendUint32 [] (of_nat (length s)) @ bytes_of_string s"
  by (simp_all add: encodeField_def)

lemma recvMessage_build:
  assumes "length (muxBuildMessage t fs) \<le> kMuxMaxPacket"
    and "sk_in s = muxPacketBuf (muxBuildMessage t fs) @ rest" and "\<not> sk_closed s"
  shows "recvMessage s = (Inr (t, concat (map encodeField fs)), s\<lparr>sk_in := rest\<rparr>)"
  using assms by (simp add: recvMessage_def muxReadMessage_muxBuildMessage)

lemma recvMessage_u32:
  assumes "sk_in s = muxPacketBuf (muxBuildMessage t [FUint32 v]) @ rest" and "\<not> sk_closed s"
  shows "recvMessage s = (Inr (t, AppendUint32 [] v), s\<lparr>sk_in := rest\<rparr>)"
  using assms recvMessage_build [of t "[FUint32 v]" s rest]
  by (simp add: wire_simps kMuxMaxPacket_def)

lemma muxServerHello_good:
  assumes "sock_good s" and "sk_in s = helloPacket @ rest"
  shows "muxServerHello s = (Inr (), s\<lparr>sk_in := rest, sk_out := sk_out s @ helloPacket\<rparr>)"
proof -
  have "recvMessage s = (Inr (kMuxMsgHello, AppendUint32 [] kMuxProtocolVersion), s\<lparr>sk_in := rest\<rparr>)"
    using assms by (simp add: recvMessage_u32 sock_good_def)
  then show ?thesis
    using assms(1) by (simp add: muxServerHello_def checkHello_def wire_simps)
qed

lemma muxClientHello_good:
  assumes "sock_good s" and "sk_in s = helloPacket @ rest"
  shows "muxClientHello s = (Inr (), s\<lparr>sk_in := rest, sk_out := sk_out s @ helloPacket\<rparr>)"
proof -
  let ?s1 = "s\<lparr>sk_out := sk_out s @ helloPacket\<rparr>"
  have "recvMessage ?s1 =
      (Inr (kMuxMsgHello, AppendUint32 [] kMuxProtocolVersion), ?s1\<lparr>sk_in := rest\<rparr>)"
    using assms recvMessage_u32 [of ?s1 kMuxMsgHello kMuxProtocolVersion rest]
    by (simp add: sock_good_def)
  then show ?thesis
    using assms(1) by (simp add: muxClientHello_def checkHello_def wire_simps)
qed

section \<open>Properties\<close>

text \<open>The two sides of the HELLO exchange fit together: what the client writes makes the
  master accept and answer, and what the master answers makes the client accept; each side
  consumes exactly the peer's message, so whatever follows it stays in the stream.\<close>

theorem mux_hello_exchange:
  assumes "sock_good c" "sock_good m" "sk_out c = []" "sk_out m = []"
    and "sk_in m = helloPacket @ reqs" and "sk_in c = helloPacket @ reps"
  shows "\<exists>c' m'. muxClientHello c = (Inr (), c') \<and> muxServerHello m = (Inr (), m') \<and>
    sk_out c' = helloPacket \<and> sk_out m' = helloPacket \<and> sk_in m' = reqs \<and> sk_in c' = reps"
  using assms by (simp add: muxClientHello_good muxServerHello_good)

theorem mux_hello_exchange_witness:
  "\<exists>c' m'. muxClientHello \<lparr>sk_in = helloPacket @ [], sk_out = [], sk_quota = None, sk_closed = False\<rparr>
      = (Inr (), c') \<and>
    muxServerHello \<lparr>sk_in = helloPacket @ [5], sk_out = [], sk_quota = None, sk_closed = False\<rparr>
      = (Inr (), m') \<and>
    sk_out c' = helloPacket \<and> sk_out m' = helloPacket \<and> sk_in m' = [5] \<and> sk_in c' = []"
  by (rule mux_hello_exchange) (simp_all add: sock_good_def)

definition startsWithHello :: "bytes \<Rightarrow> bool" where
  "startsWithHello r \<longleftrightarrow>
     (case muxReadMessage r of
        Inr ((t, body), _) \<Rightarrow>
          t = kMuxMsgHello \<and> fst (muxReadUint32 body) = Some kMuxProtocolVersion
      | Inl _ \<Rightarrow> False)"

lemma recvMessage_out: "recvMessage s = (q, s1) \<Longrightarrow> sk_out s1 = sk_out s"
  by (auto simp: recvMessage_def split: if_splits sum.splits prod.splits)

lemma recvMessage_hello:
  "recvMessage s = (Inr m, s1) \<Longrightarrow> checkHello m = Inr () \<Longrightarrow> startsWithHello (sk_in s)"
  by (cases m)
    (auto simp: recvMessage_def checkHello_def startsWithHello_def
      split: if_splits sum.splits prod.splits option.splits)

text \<open>The master writes nothing at all unless the client's first message is a HELLO of
  protocol version 4, and it accepts the client only when it has also answered with the
  complete HELLO of its own.\<close>

theorem muxServerHello_strict:
  assumes "muxServerHello s = (r, s')"
  shows "(sk_out s' \<noteq> sk_out s \<longrightarrow> startsWithHello (sk_in s)) \<and>
         (r = Inr () \<longrightarrow> startsWithHello (sk_in s) \<and> sk_out s' = sk_out s @ helloPacket)"
proof -
  obtain q s1 where q: "recvMessage s = (q, s1)" by fastforce
  note out = recvMessage_out [OF q]
  show ?thesis
  proof (cases q)
    case (Inl e)
    with assms q out show ?thesis by (auto simp: muxServerHello_def)
  next
    case (Inr m)
    show ?thesis
    proof (cases "checkHello m")
      case (Inl e)
      with assms q Inr out show ?thesis by (auto simp: muxServerHello_def)
    next
      case c: (Inr u)
      then have hello: "startsWithHello (sk_in s)"
        using q Inr recvMessage_hello by auto
      from assms q Inr c
      have "muxWriteMessage sock_write s1 kMuxMsgHello [FUint32 kMuxProtocolVersion] = (r, s')"
        by (simp add: muxServerHello_def)
      then have "r = Inr () \<Longrightarrow> sk_out s' = sk_out s @ helloPacket"
        using sock.writeAll_ok out by (fastforce simp: muxWriteMessage_def muxWritePacket_def)
      with hello show ?thesis by blast
    qed
  qed
qed

theorem muxServerHello_strict_witness:
  "case muxServerHello \<lparr>sk_in = helloPacket, sk_out = [7], sk_quota = None, sk_closed = False\<rparr> of
     (r, s') \<Rightarrow> r = Inr () \<and> startsWithHello helloPacket \<and> sk_out s' = [7] @ helloPacket"
proof -
  let ?s = "\<lparr>sk_in = helloPacket, sk_out = [7], sk_quota = None, sk_closed = False\<rparr>"
  have e: "muxServerHello ?s = (Inr (), ?s\<lparr>sk_in := [], sk_out := sk_out ?s @ helloPacket\<rparr>)"
    by (rule muxServerHello_good) (simp_all add: sock_good_def)
  show ?thesis
    using muxServerHello_strict [OF e] e by simp
qed

end
