(* ===== verification/MuxMaster.thy ===== *)
theory MuxMaster
  imports MuxHandshake GoHash
begin

text \<open>
  \<open>tssh/mux_master.go\<close>, with \<open>newFileUnlinker\<close> of \<open>tssh/comm.go\<close>: the control master that
  listens on the ControlPath socket.  \<open>handleConn\<close> is the request loop of one client; the
  table of proxy clients and the shutdown are also given as a step relation, one rule per
  atomic action, so that the concurrent goroutines may interleave in any order.
\<close>

section \<open>Unlinking the control socket\<close>

text \<open>The file system, as far as the unlinker sees it: the identity (inode) of each path.\<close>

type_synonym fs = "string \<rightharpoonup> nat"

record unlinker =
  ul_path :: string
  ul_created :: "nat option"     \<comment> \<open>\<open>createdInfo\<close>\<close>
  ul_hasCloser :: bool
  ul_once :: bool                \<comment> \<open>\<open>once\<close> has run\<close>
  ul_closerClosed :: bool
  ul_removed :: bool

definition newFileUnlinker :: "fs \<Rightarrow> string \<Rightarrow> bool \<Rightarrow> unlinker" where
  "newFileUnlinker f path hasCloser =
     \<lparr>ul_path = path, ul_created = f path, ul_hasCloser = hasCloser, ul_once = False,
      ul_closerClosed = False, ul_removed = False\<rparr>"

text \<open>The returned cleanup function; \<open>removeOk\<close> says whether \<open>os.Remove\<close> succeeds.\<close>

definition cleanup :: "bool \<Rightarrow> unlinker \<Rightarrow> fs \<Rightarrow> bool \<times> unlinker \<times> fs" where
  "cleanup removeOk u f =
     (if ul_once u then (ul_removed u, u, f)
      else let u1 = u\<lparr>ul_once := True, ul_closerClosed := ul_closerClosed u \<or> ul_hasCloser u\<rparr> in
        case ul_created u of
          None \<Rightarrow> (False, u1, f)
        | Some created \<Rightarrow>
            (case f (ul_path u) of
               None \<Rightarrow> (False, u1, f)
             | Some current \<Rightarrow>
                 if created \<noteq> current then (False, u1, f)
                 else if \<not> removeOk then (False, u1, f)
                 else (True, u1\<lparr>ul_removed := True\<rparr>, f(ul_path u := None))))"

text \<open>\<open>removeStaleMuxSocket\<close>: the dial either connects or fails with an error.\<close>

datatype dial_result = DialOk | DialRefused | DialNoEnt | DialOther

definition removeStaleMuxSocket ::
  "(string \<Rightarrow> bool) \<Rightarrow> dial_result \<Rightarrow> bool \<Rightarrow> string \<Rightarrow> fs \<Rightarrow> bool \<times> fs" where
  "removeStaleMuxSocket isDir dial removeOk path f =
     (if f path = None \<or> isDir path then (False, f)
      else let u = newFileUnlinker f path False in
        if dial = DialOk then (False, f)
        else if dial \<noteq> DialRefused \<and> dial \<noteq> DialNoEnt then (False, f)
        else case cleanup removeOk u f of (removed, _, f1) \<Rightarrow> (removed, f1))"

section \<open>The master\<close>

record master =
  mm_unlinker :: unlinker
  mm_conns :: "nat set"          \<comment> \<open>the proxy connections, by identity\<close>
  mm_listening :: bool
  mm_closed :: bool
  mm_fs :: fs

definition stopListening :: "master \<Rightarrow> master" where
  "stopListening m =
     (if \<not> mm_listening m then m
      else case cleanup True (mm_unlinker m) (mm_fs m) of
        (_, u, f) \<Rightarrow> m\<lparr>mm_listening := False, mm_unlinker := u, mm_fs := f\<rparr>)"

definition removeConn :: "nat \<Rightarrow> master \<Rightarrow> master" where
  "removeConn pc m = m\<lparr>mm_conns := mm_conns m - {pc}\<rparr>"

definition clientCount :: "master \<Rightarrow> nat" where
  "clientCount m = card (mm_conns m)"

text \<open>\<open>serveProxy\<close> up to the call of \<open>pc.serve()\<close>: \<open>True\<close> if the client is served.\<close>

definition serveProxy :: "nat \<Rightarrow> master \<Rightarrow> sock \<Rightarrow> bool \<times> master \<times> sock" where
  "serveProxy pc m conn =
     (if mm_closed m then (False, m, sock_close conn)
      else (True, m\<lparr>mm_conns := insert pc (mm_conns m)\<rparr>, conn))"

text \<open>\<open>waitClients\<close> returns in exactly the states where its wait condition fails.\<close>

definition waitClients :: "master \<Rightarrow> unit blocking" where
  "waitClients m = (if mm_conns m \<noteq> {} \<and> \<not> mm_closed m then Blocked else Done ())"

fun muxMastersClientCount :: "master list \<Rightarrow> nat" where
  "muxMastersClientCount [] = 0"
| "muxMastersClientCount (m # ms) = clientCount m + muxMastersClientCount ms"

definition waitMuxMasterClients :: "bool \<Rightarrow> master list \<Rightarrow> unit blocking" where
  "waitMuxMasterClients exited ms =
     (if exited then Done ()
      else if muxMastersClientCount ms = 0 then Done ()
      else if \<exists>m\<in>set ms. waitClients m = Blocked then Blocked else Done ())"

section \<open>The request loop of one client\<close>

definition hex8 :: "u32 \<Rightarrow> string" where
  "hex8 w = map (\<lambda>i. hex_digit (unat w div 16 ^ i mod 16)) [7, 6, 5, 4, 3, 2, 1, 0]"

definition kPassengerUnsupported :: string where
  "kPassengerUnsupported =
     ''tssh udp control master only supports proxy mode clients, please use tssh instead of ssh''"

datatype hc_end =
    HcHandshakeFailed | HcReadFailed | HcNoRid | HcTerminated | HcProxy | HcProxyWriteFailed
  | HcWriteFailed

datatype hc_step = Continue | Stop hc_end

text \<open>One pass of the \<open>switch\<close>: the reply is written, the master may stop listening.\<close>

definition handleMuxRequest ::
  "u32 \<Rightarrow> u32 \<Rightarrow> u32 \<Rightarrow> sock \<Rightarrow> master \<Rightarrow> hc_step \<times> sock \<times> master" where
  "handleMuxRequest pid msgType rid s m =
     (let wr = (\<lambda>s t fs. muxWriteMessage sock_write s t fs);
          fin = (\<lambda>m' (r, s'). case r of Inl _ \<Rightarrow> (Stop HcWriteFailed, sock_close s', m')
                                        | Inr _ \<Rightarrow> (Continue, s', m')) in
      if msgType = kMuxCAliveCheck then fin m (wr s kMuxSAlive [FUint32 rid, FUint32 pid])
      else if msgType = kMuxCTerminate then
        (Stop HcTerminated, sock_close (snd (wr s kMuxSOk [FUint32 rid])), m)
      else if msgType = kMuxCStopListening then
        fin (stopListening m) (wr s kMuxSOk [FUint32 rid])
      else if msgType = kMuxCProxy then
        (case wr s kMuxSProxy [FUint32 rid] of
           (Inl _, s') \<Rightarrow> (Stop HcProxyWriteFailed, sock_close s', m)
         | (Inr _, s') \<Rightarrow> (Stop HcProxy, s', m))
      else if msgType \<in> {kMuxCNewSession, kMuxCNewStdioFwd, kMuxCOpenFwd, kMuxCCloseFwd} then
        fin m (wr s kMuxSFailure [FUint32 rid, FString kPassengerUnsupported])
      else fin m (wr s kMuxSFailure
             [FUint32 rid, FString (''unsupported mux request type 0x'' @ hex8 msgType)]))"

lemma muxReadPacket_shorter: "muxReadPacket r = Inr (b, r') \<Longrightarrow> length r' < length r"
  by (auto simp: muxReadPacket_def ReadFull_def Let_def split: if_splits option.splits)

lemma recvMessage_shorter:
  "recvMessage s = (Inr mb, s') \<Longrightarrow> length (sk_in s') < length (sk_in s)"
  by (auto simp: recvMessage_def muxReadMessage_def dest: muxReadPacket_shorter
      split: if_splits sum.splits prod.splits option.splits)

lemma writeAll_sock_in: "writeAll sock_write s d = (r, s') \<Longrightarrow> sk_in s' = sk_in s"
proof (induction "length d" arbitrary: s d rule: less_induct)
  case less
  show ?case
  proof (cases "d = []")
    case False
    obtain q s1 where q: "sock_write s d = (q, s1)" by fastforce
    then have s1: "sk_in s1 = sk_in s"
      by (auto simp: sock_write_def split: if_splits option.splits)
    show ?thesis
    proof (cases q)
      case (Inr n)
      then show ?thesis
        using less.prems less.hyps [of "drop n d" s1] q s1 False
        by (cases "n = 0") (auto simp: writeAll.simps [of sock_write s d])
    qed (use less.prems q s1 False in \<open>simp add: writeAll.simps [of sock_write s d]\<close>)
  qed (use less.prems in \<open>simp add: writeAll.simps\<close>)
qed

lemma muxWriteMessage_sock_in: "sk_in (snd (muxWriteMessage sock_write s t fs)) = sk_in s"
  unfolding muxWriteMessage_def muxWritePacket_def
  by (rule writeAll_sock_in [OF prod.collapse [symmetric]])

lemma handleMuxRequest_in:
  "handleMuxRequest pid t rid s m = (st, s', m') \<Longrightarrow> sk_in s' = sk_in s"
  using muxWriteMessage_sock_in [of s]
  by (auto simp: handleMuxRequest_def Let_def sock_close_def
      split: if_splits prod.splits sum.splits) (metis snd_conv)+

function handleRequests :: "u32 \<Rightarrow> sock \<Rightarrow> master \<Rightarrow> hc_end \<times> sock \<times> master" where
  "handleRequests pid s m =
     (case recvMessage s of
        (Inl _, s1) \<Rightarrow> (HcReadFailed, sock_close s1, m)
      | (Inr (msgType, body), s1) \<Rightarrow>
          (case muxReadUint32 body of
             (None, _) \<Rightarrow> (HcNoRid, sock_close s1, m)
           | (Some rid, _) \<Rightarrow>
               (case handleMuxRequest pid msgType rid s1 m of
                  (Stop e, s2, m2) \<Rightarrow> (e, s2, m2)
                | (Continue, s2, m2) \<Rightarrow> handleRequests pid s2 m2)))"
  by pat_completeness auto
termination
  by (relation "measure (\<lambda>(pid, s, m). length (sk_in s))")
    (auto dest!: sym [of "(_, _)" "recvMessage _"] sym [of "(_, _)" "handleMuxRequest _ _ _ _ _"]
      recvMessage_shorter handleMuxRequest_in)

declare handleRequests.simps [simp del]

definition handleConn :: "u32 \<Rightarrow> sock \<Rightarrow> master \<Rightarrow> hc_end \<times> sock \<times> master" where
  "handleConn pid s m =
     (case muxServerHello s of
        (Inl _, s1) \<Rightarrow> (HcHandshakeFailed, sock_close s1, m)
      | (Inr _, s1) \<Rightarrow> handleRequests pid s1 m)"

section \<open>Concurrent clients and shutdown\<close>

text \<open>
  \<open>close\<close> runs in several atomic actions: it flips \<open>closed\<close>, stops listening, takes a snapshot of
  the table under \<open>connMu\<close> and then closes the connections of the snapshot, whose \<open>onClose\<close>
  removes them.  Meanwhile other goroutines register and remove clients.
\<close>

datatype close_phase = NotClosing | FlagSet | Stopped | Snapshot "nat set"

record master_run =
  mr_master :: master
  mr_phase :: close_phase

definition close_flag :: "master_run \<Rightarrow> master_run" where
  "close_flag r = r\<lparr>mr_master := (mr_master r)\<lparr>mm_closed := True\<rparr>, mr_phase := FlagSet\<rparr>"

definition close_stop :: "master_run \<Rightarrow> master_run" where
  "close_stop r = r\<lparr>mr_master := stopListening (mr_master r), mr_phase := Stopped\<rparr>"

definition close_snapshot :: "master_run \<Rightarrow> master_run" where
  "close_snapshot r = r\<lparr>mr_phase := Snapshot (mm_conns (mr_master r))\<rparr>"

inductive master_step :: "master_run \<Rightarrow> master_run \<Rightarrow> bool" where
  register: "serveProxy pc (mr_master r) conn = (ok, m', conn') \<Longrightarrow>
     master_step r (r\<lparr>mr_master := m'\<rparr>)"
| disconnect: "master_step r (r\<lparr>mr_master := removeConn pc (mr_master r)\<rparr>)"
| stop: "master_step r (r\<lparr>mr_master := stopListening (mr_master r)\<rparr>)"
| close_begin: "\<not> mm_closed (mr_master r) \<Longrightarrow> master_step r (close_flag r)"
| close_unlisten: "mr_phase r = FlagSet \<Longrightarrow> master_step r (close_stop r)"
| close_collect: "mr_phase r = Stopped \<Longrightarrow> master_step r (close_snapshot r)"

inductive_cases master_step_cases: "master_step r r'"

definition master_init :: "fs \<Rightarrow> string \<Rightarrow> master_run" where
  "master_init f path =
     \<lparr>mr_master = \<lparr>mm_unlinker = newFileUnlinker f path True, mm_conns = {}, mm_listening = True,
                   mm_closed = False, mm_fs = f\<rparr>, mr_phase = NotClosing\<rparr>"

inductive master_reach :: "master_run \<Rightarrow> bool" where
  init: "master_reach (master_init f path)"
| step: "master_reach r \<Longrightarrow> master_step r r' \<Longrightarrow> master_reach r'"

definition master_inv :: "master_run \<Rightarrow> bool" where
  "master_inv r \<longleftrightarrow>
     (mm_closed (mr_master r) \<longleftrightarrow> mr_phase r \<noteq> NotClosing) \<and>
     (mr_phase r \<notin> {NotClosing, FlagSet} \<longrightarrow> \<not> mm_listening (mr_master r)) \<and>
     (case mr_phase r of Snapshot S \<Rightarrow> mm_conns (mr_master r) \<subseteq> S | _ \<Rightarrow> True)"

lemma stopListening_simps [simp]:
  "mm_conns (stopListening m) = mm_conns m" "mm_closed (stopListening m) = mm_closed m"
  "\<not> mm_listening (stopListening m)"
  by (auto simp: stopListening_def split: prod.splits)

lemma master_step_inv: "master_step r r' \<Longrightarrow> master_inv r \<Longrightarrow> master_inv r'"
  by (induction rule: master_step.induct)
    (auto simp: master_inv_def serveProxy_def removeConn_def close_flag_def close_stop_def
      close_snapshot_def split: close_phase.splits if_splits)

lemma master_reach_inv: "master_reach r \<Longrightarrow> master_inv r"
proof (induction rule: master_reach.induct)
  case (init f path)
  show ?case by (simp add: master_inv_def master_init_def)
next
  case (step r r')
  then show ?case by (blast intro: master_step_inv)
qed

section \<open>Lemmas\<close>

lemma cleanup_removes_only_own:
  assumes "cleanup ok u f = (b, u', f')"
  shows "f' = f \<or> (f' = f(ul_path u := None) \<and> f (ul_path u) = ul_created u \<and> b)"
  using assms by (auto simp: cleanup_def Let_def split: if_splits option.splits)

lemma cleanup_once:
  assumes "cleanup ok u f = (b, u', f')"
  shows "cleanup ok' u' g = (ul_removed u', u', g)"
  using assms by (auto simp: cleanup_def Let_def split: if_splits option.splits)

lemma muxReadUint32_fields: "muxReadUint32 (encodeField (FUint32 v) @ rest) = (Some v, rest)"
  by (simp add: wire_simps)

abbreviation request :: "u32 \<Rightarrow> u32 \<Rightarrow> bytes" where
  "request t rid \<equiv> muxPacketBuf (muxBuildMessage t [FUint32 rid])"

lemma handleRequests_unfold:
  assumes "sock_good s" and "sk_in s = request t rid @ rest"
  shows "handleRequests pid s m =
    (case handleMuxRequest pid t rid (s\<lparr>sk_in := rest\<rparr>) m of
       (Stop e, s2, m2) \<Rightarrow> (e, s2, m2) | (Continue, s2, m2) \<Rightarrow> handleRequests pid s2 m2)"
proof -
  have "recvMessage s = (Inr (t, AppendUint32 [] rid), s\<lparr>sk_in := rest\<rparr>)"
    using assms by (intro recvMessage_u32) (auto simp: sock_good_def)
  then show ?thesis
    by (subst handleRequests.simps) (simp add: muxReadUint32_append)
qed

lemma handleRequests_eof: "sk_in s = [] \<Longrightarrow> handleRequests pid s m = (HcReadFailed, sock_close s, m)"
  by (subst handleRequests.simps)
    (simp add: recvMessage_def muxReadMessage_def muxReadPacket_def ReadFull_def)

lemma handleMuxRequest_good:
  assumes "sock_good s"
  shows "handleMuxRequest pid kMuxCAliveCheck rid s m =
      (Continue, s\<lparr>sk_out := sk_out s @
         muxPacketBuf (muxBuildMessage kMuxSAlive [FUint32 rid, FUint32 pid])\<rparr>, m)"
    and "handleMuxRequest pid kMuxCStopListening rid s m =
      (Continue, s\<lparr>sk_out := sk_out s @ request kMuxSOk rid\<rparr>, stopListening m)"
    and "handleMuxRequest pid kMuxCTerminate rid s m =
      (Stop HcTerminated, sock_close (s\<lparr>sk_out := sk_out s @ request kMuxSOk rid\<rparr>), m)"
    and "handleMuxRequest pid kMuxCProxy rid s m =
      (Stop HcProxy, s\<lparr>sk_out := sk_out s @ request kMuxSProxy rid\<rparr>, m)"
  using assms by (simp_all add: handleMuxRequest_def Let_def mux_type_defs)

lemma handleConn_good:
  assumes "sock_good s" and "sk_in s = helloPacket @ rest"
  shows "handleConn pid s m =
    handleRequests pid (s\<lparr>sk_in := rest, sk_out := sk_out s @ helloPacket\<rparr>) m"
  using assms by (simp add: handleConn_def muxServerHello_good)

lemma handleConn_control:
  assumes "sock_good s" and "sk_in s = helloPacket @ request t 1" and "sk_out s = []"
  shows "t = kMuxCAliveCheck \<Longrightarrow> \<exists>s'. handleConn pid s m = (HcReadFailed, s', m) \<and>
      sk_out s' = helloPacket @ muxPacketBuf (muxBuildMessage kMuxSAlive [FUint32 1, FUint32 pid])"
    and "t = kMuxCStopListening \<Longrightarrow> \<exists>s'. handleConn pid s m = (HcReadFailed, s', stopListening m) \<and>
      sk_out s' = helloPacket @ request kMuxSOk 1"
    and "t = kMuxCTerminate \<Longrightarrow> \<exists>s'. handleConn pid s m = (HcTerminated, s', m) \<and>
      sk_out s' = helloPacket @ request kMuxSOk 1"
  using assms handleConn_good [OF assms(1,2), of pid m]
    handleRequests_unfold [of "s\<lparr>sk_in := request t 1, sk_out := helloPacket\<rparr>" t 1 "[]" pid m]
  by (auto simp: handleMuxRequest_good handleRequests_eof sock_close_def)

lemma muxControlCommand_good:
  assumes "sock_good c" and "sk_out c = []" and "ctlRequest cmd = Some (req, ex, msg)"
    and "sk_in c = helloPacket @ muxPacketBuf (muxBuildMessage t fs)"
    and "length (muxBuildMessage t fs) \<le> kMuxMaxPacket"
  shows "\<exists>c'. muxControlCommand (Some c) cmd =
      (ctlReply ex msg (t, concat (map encodeField fs)), Some c') \<and>
    sk_out c' = helloPacket @ request req 1"
proof -
  let ?s = "c\<lparr>sk_in := muxPacketBuf (muxBuildMessage t fs), sk_out := helloPacket @ request req 1\<rparr>"
  have "recvMessage ?s = (Inr (t, concat (map encodeField fs)), ?s\<lparr>sk_in := []\<rparr>)"
    using assms(1,5) by (intro recvMessage_build) (auto simp: sock_good_def)
  then show ?thesis
    using assms muxClientHello_good [of c "muxPacketBuf (muxBuildMessage t fs)"]
    by (simp add: muxControlCommand_def sock_close_def)
qed

lemma ctlReply_good:
  "ctlReply kMuxSAlive msg (kMuxSAlive, AppendUint32 [] 1 @ AppendUint32 [] pid) = (0, MasterRunning pid)"
  "ctlReply kMuxSOk msg (kMuxSOk, AppendUint32 [] 1) = (0, CtlDone msg)"
  by (simp_all add: ctlReply_def wire_simps mux_type_defs)

lemma ctl_requests_distinct [simp]:
  "kMuxCAliveCheck \<noteq> kMuxCTerminate" "kMuxCAliveCheck \<noteq> kMuxCStopListening"
  "kMuxCTerminate \<noteq> kMuxCAliveCheck" "kMuxCTerminate \<noteq> kMuxCStopListening"
  "kMuxCStopListening \<noteq> kMuxCAliveCheck" "kMuxCStopListening \<noteq> kMuxCTerminate"
  by (simp_all add: mux_type_defs)

lemma ctlRequest_cases:
  assumes "ctlRequest cmd = Some (req, ex, msg)"
  obtains "req = kMuxCAliveCheck" "ex = kMuxSAlive"
    | "req = kMuxCTerminate" "ex = kMuxSOk"
    | "req = kMuxCStopListening" "ex = kMuxSOk"
  using assms by (auto simp: ctlRequest_def Let_def split: if_splits)

section \<open>Properties\<close>

text \<open>C21: no client survives the shutdown of the master.  However registrations, disconnects and
  the steps of \<open>close\<close> interleave, once \<open>close\<close> has taken its snapshot every connected client is
  in it, a new client is refused and its connection closed, and when the connections of the
  snapshot have been closed, in any order, the table is empty.\<close>

theorem master_close_no_leak:
  assumes "master_reach r" and "mr_phase r = Snapshot S"
  shows "mm_conns (mr_master r) \<subseteq> S \<and> \<not> mm_listening (mr_master r) \<and>
    serveProxy pc (mr_master r) conn = (False, mr_master r, sock_close conn) \<and>
    (S \<subseteq> set xs \<longrightarrow> mm_conns (fold removeConn xs (mr_master r)) = {})"
proof -
  have fold: "mm_conns (fold removeConn xs m) = mm_conns m - set xs" for xs m
    by (induction xs arbitrary: m) (auto simp: removeConn_def)
  from master_reach_inv [OF assms(1)] assms(2)
  show ?thesis by (auto simp: master_inv_def serveProxy_def fold)
qed

theorem master_close_no_leak_witness:
  "\<exists>r :: master_run. mr_phase r = Snapshot {3} \<and> mm_conns (mr_master r) = {3} \<and>
     mm_conns (fold removeConn [3] (mr_master r)) = {}"
proof -
  let ?s = "\<lparr>sk_in = [], sk_out = [], sk_quota = None, sk_closed = False\<rparr>"
  let ?r0 = "master_init Map.empty ''s''"
  let ?r1 = "?r0\<lparr>mr_master := (mr_master ?r0)\<lparr>mm_conns := {3}\<rparr>\<rparr>"
  let ?r4 = "close_snapshot (close_stop (close_flag ?r1))"
  have "master_step ?r0 ?r1"
    by (rule master_step.register [where pc = 3 and conn = ?s and conn' = ?s and ok = True])
      (simp add: serveProxy_def master_init_def)
  then have "master_reach ?r1" using master_reach.init master_reach.step by blast
  then have "master_reach (close_flag ?r1)"
    by (rule master_reach.step) (rule master_step.close_begin, simp add: master_init_def)
  then have "master_reach (close_stop (close_flag ?r1))"
    by (rule master_reach.step) (rule master_step.close_unlisten, simp add: close_flag_def)
  then have "master_reach ?r4"
    by (rule master_reach.step) (rule master_step.close_collect, simp add: close_stop_def)
  moreover have "mr_phase ?r4 = Snapshot {3}" "mm_conns (mr_master ?r4) = {3}"
    by (simp_all add: close_snapshot_def close_stop_def close_flag_def)
  ultimately have "mr_phase ?r4 = Snapshot {3} \<and> mm_conns (mr_master ?r4) = {3} \<and>
      mm_conns (fold removeConn [3] (mr_master ?r4)) = {}"
    using master_close_no_leak [of ?r4 "{3}" 0 ?s "[3]"] by simp
  then show ?thesis by blast
qed

text \<open>The cleanup of the control socket only ever removes the file it was created for.  The
  file system may change in any way between the creation and the cleanup: the path is unlinked
  exactly when the file found there is the one seen at creation (and the removal works), no
  other path is touched, and further calls do nothing and report the same answer.\<close>

theorem unlinker_safe:
  assumes "cleanup ok (newFileUnlinker f0 path h) f = (b, u, f')"
  shows "(b \<longleftrightarrow> f path \<noteq> None \<and> f path = f0 path \<and> ok) \<and>
    f' = (if b then f(path := None) else f) \<and> ul_closerClosed u = h \<and>
    cleanup ok' u g = (b, u, g)"
  using assms
  by (auto simp: cleanup_def newFileUnlinker_def Let_def split: if_splits option.splits)

theorem unlinker_safe_witness:
  "cleanup True (newFileUnlinker [''s'' \<mapsto> 1] ''s'' True) [''s'' \<mapsto> 2] =
     (False, (newFileUnlinker [''s'' \<mapsto> 1] ''s'' True)\<lparr>ul_once := True, ul_closerClosed := True\<rparr>,
      [''s'' \<mapsto> 2]) \<and>
   cleanup True ((newFileUnlinker [''s'' \<mapsto> 1] ''s'' True)\<lparr>ul_once := True, ul_closerClosed := True\<rparr>)
     [''s'' \<mapsto> 1] = (False,
      (newFileUnlinker [''s'' \<mapsto> 1] ''s'' True)\<lparr>ul_once := True, ul_closerClosed := True\<rparr>, [''s'' \<mapsto> 1])"
proof -
  have e: "cleanup True (newFileUnlinker [''s'' \<mapsto> 1] ''s'' True) [''s'' \<mapsto> 2] =
     (False, (newFileUnlinker [''s'' \<mapsto> 1] ''s'' True)\<lparr>ul_once := True, ul_closerClosed := True\<rparr>,
      [''s'' \<mapsto> 2])"
    by (simp add: cleanup_def newFileUnlinker_def)
  show ?thesis using unlinker_safe [OF e] e by blast
qed

text \<open>A control command works end to end.  When a \<open>check\<close>, \<open>exit\<close> or \<open>stop\<close> command is sent
  to a master over a working connection, the bytes the client writes are the ones the master
  serves, the master's answer makes the command report success (\<open>check\<close> prints the master's
  pid), and the only effect on the master is that \<open>stop\<close> stops the listening; \<open>exit\<close> ends in the
  termination of the master.\<close>

theorem control_command_served:
  assumes "ctlRequest cmd = Some (req, ex, msg)"
    and "sock_good s" "sk_out s = []" "sk_in s = helloPacket @ request req 1"
    and "sock_good c" "sk_out c = []" "sk_in c = sk_out (fst (snd (handleConn pid s m)))"
  shows "fst (muxControlCommand (Some c) cmd)
           = (0, if req = kMuxCAliveCheck then MasterRunning pid else CtlDone msg) \<and>
    map_option sk_out (snd (muxControlCommand (Some c) cmd)) = Some (sk_in s) \<and>
    snd (snd (handleConn pid s m)) = (if req = kMuxCStopListening then stopListening m else m) \<and>
    (fst (handleConn pid s m) = HcTerminated \<longleftrightarrow> req = kMuxCTerminate)"
proof -
  note hc = handleConn_control [OF assms(2,4,3), of pid m]
  have fit: "length (muxBuildMessage t [FUint32 1]) \<le> kMuxMaxPacket"
    "length (muxBuildMessage t [FUint32 1, FUint32 pid]) \<le> kMuxMaxPacket" for t
    by (simp_all add: wire_simps kMuxMaxPacket_def)
  from assms(1) show ?thesis
  proof (cases rule: ctlRequest_cases)
    case 1
    with hc(1) obtain s' where h: "handleConn pid s m = (HcReadFailed, s', m)"
      and o: "sk_out s' = helloPacket @ muxPacketBuf (muxBuildMessage kMuxSAlive [FUint32 1, FUint32 pid])"
      by auto
    with 1 assms muxControlCommand_good [OF assms(5,6,1) _ fit(2), of kMuxSAlive]
    show ?thesis by (auto simp: encodeField_simps ctlReply_good)
  next
    case 2
    with hc(3) obtain s' where h: "handleConn pid s m = (HcTerminated, s', m)"
      and o: "sk_out s' = helloPacket @ request kMuxSOk 1"
      by auto
    with 2 assms muxControlCommand_good [OF assms(5,6,1) _ fit(1), of kMuxSOk]
    show ?thesis by (auto simp: encodeField_simps ctlReply_good)
  next
    case 3
    with hc(2) obtain s' where h: "handleConn pid s m = (HcReadFailed, s', stopListening m)"
      and o: "sk_out s' = helloPacket @ request kMuxSOk 1"
      by auto
    with 3 assms muxControlCommand_good [OF assms(5,6,1) _ fit(1), of kMuxSOk]
    show ?thesis by (auto simp: encodeField_simps ctlReply_good)
  qed
qed

theorem control_command_served_witness:
  "\<exists>c. fst (muxControlCommand (Some c) ''STOP'') = (0, CtlDone ''Stop listening request sent.'')"
proof -
  let ?s = "\<lparr>sk_in = helloPacket @ request kMuxCStopListening 1, sk_out = [], sk_quota = None,
      sk_closed = False\<rparr>"
  let ?m = "mr_master (master_init Map.empty ''s'')"
  let ?c = "\<lparr>sk_in = sk_out (fst (snd (handleConn 42 ?s ?m))), sk_out = [], sk_quota = None,
      sk_closed = False\<rparr>"
  have "ToLower ''STOP'' = ''stop''" by code_simp
  then have "ctlRequest ''STOP'' = Some (kMuxCStopListening, kMuxSOk, ''Stop listening request sent.'')"
    by (simp add: ctlRequest_def)
  then have "fst (muxControlCommand (Some ?c) ''STOP'') =
      (0, if kMuxCStopListening = kMuxCAliveCheck then MasterRunning 42
          else CtlDone ''Stop listening request sent.'')"
    by (rule control_command_served [THEN conjunct1, of _ _ _ _ ?s _ _ ?m])
      (simp_all add: sock_good_def)
  then show ?thesis by auto
qed

end
