(* ===== verification/MuxMsg.thy ===== *)
theory MuxMsg
  imports MuxProto
begin

text \<open>
  The ssh connection protocol messages and payloads that \<open>tssh/mux_proto.go\<close> declares.
  \<open>ssh.Marshal\<close> and \<open>ssh.Unmarshal\<close> belong to golang.org/x/crypto/ssh; they are the fields of a
  \<open>ssh_codec\<close>, a parameter of every definition that encodes or decodes a message, one field per
  struct type (a failed \<open>Unmarshal\<close> is \<^term>\<open>None\<close>).  No theorem of the proxy assumes anything
  about them unless it says so.
\<close>

section \<open>Messages\<close>

record sshGlobalRequestMsg =
  gr_Type :: string
  gr_WantReply :: bool
  gr_Data :: bytes

record sshChannelOpenMsg =
  co_ChanType :: string
  co_PeersID :: u32
  co_PeersWindow :: u32
  co_MaxPacketSize :: u32
  co_TypeSpecificData :: bytes

record sshChannelOpenConfirmMsg =
  cc_PeersID :: u32
  cc_MyID :: u32
  cc_MyWindow :: u32
  cc_MaxPacketSize :: u32
  cc_TypeSpecificData :: bytes

record sshChannelOpenFailureMsg =
  cf_PeersID :: u32
  cf_Reason :: u32
  cf_Message :: string
  cf_Language :: string

record sshWindowAdjustMsg =
  wa_PeersID :: u32
  wa_AdditionalBytes :: u32

record sshChannelDataMsg =
  cd_PeersID :: u32
  cd_Length :: u32
  cd_Rest :: bytes

record sshChannelExtendedDataMsg =
  ce_PeersID :: u32
  ce_Datatype :: u32
  ce_Length :: u32
  ce_Rest :: bytes

record sshChannelRequestMsg =
  cr_PeersID :: u32
  cr_Request :: string
  cr_WantReply :: bool
  cr_RequestSpecificData :: bytes

datatype ssh_msg =
    RequestSuccess bytes
  | RequestFailure bytes
  | ChannelOpen sshChannelOpenMsg
  | ChannelOpenConfirm sshChannelOpenConfirmMsg
  | ChannelOpenFailure sshChannelOpenFailureMsg
  | WindowAdjust sshWindowAdjustMsg
  | ChannelData sshChannelDataMsg
  | ChannelExtendedData sshChannelExtendedDataMsg
  | ChannelEOF u32
  | ChannelClose u32
  | ChannelRequest sshChannelRequestMsg
  | ChannelSuccess u32
  | ChannelFailure u32

section \<open>Payloads\<close>

record sshPtyRequestPayload =
  pty_Term :: string
  pty_Columns :: u32
  pty_Rows :: u32
  pty_Width :: u32
  pty_Height :: u32
  pty_Modelist :: bytes

record sshEnvPayload =
  env_Name :: string
  env_Value :: string

record sshWindowChangePayload =
  wc_Columns :: u32
  wc_Rows :: u32
  wc_Width :: u32
  wc_Height :: u32

record sshDirectTcpipPayload =
  dt_RAddr :: string
  dt_RPort :: u32
  dt_LAddr :: string
  dt_LPort :: u32

record sshTcpipForwardPayload =
  tf_Addr :: string
  tf_Port :: u32

record sshForwardedTcpipPayload =
  ft_Addr :: string
  ft_Port :: u32
  ft_OriginAddr :: string
  ft_OriginPort :: u32

section \<open>The codec parameter\<close>

record ssh_codec =
  m_msg :: "ssh_msg \<Rightarrow> bytes"
  m_forwardedTcpip :: "sshForwardedTcpipPayload \<Rightarrow> bytes"
  m_forwardedStreamLocal :: "string \<Rightarrow> bytes"
  m_exitStatus :: "u32 \<Rightarrow> bytes"
  m_port :: "u32 \<Rightarrow> bytes"
  u_globalRequest :: "bytes \<Rightarrow> sshGlobalRequestMsg option"
  u_channelOpen :: "bytes \<Rightarrow> sshChannelOpenMsg option"
  u_openConfirm :: "bytes \<Rightarrow> sshChannelOpenConfirmMsg option"
  u_openFailure :: "bytes \<Rightarrow> sshChannelOpenFailureMsg option"
  u_windowAdjust :: "bytes \<Rightarrow> sshWindowAdjustMsg option"
  u_channelData :: "bytes \<Rightarrow> sshChannelDataMsg option"
  u_extendedData :: "bytes \<Rightarrow> sshChannelExtendedDataMsg option"
  u_channelRequest :: "bytes \<Rightarrow> sshChannelRequestMsg option"
  u_tcpipForward :: "bytes \<Rightarrow> sshTcpipForwardPayload option"
  u_streamLocalForward :: "bytes \<Rightarrow> string option"
  u_directTcpip :: "bytes \<Rightarrow> sshDirectTcpipPayload option"
  u_directStreamLocal :: "bytes \<Rightarrow> string option"
  u_ptyRequest :: "bytes \<Rightarrow> sshPtyRequestPayload option"
  u_env :: "bytes \<Rightarrow> sshEnvPayload option"
  u_exec :: "bytes \<Rightarrow> string option"
  u_subsystem :: "bytes \<Rightarrow> string option"
  u_windowChange :: "bytes \<Rightarrow> sshWindowChangePayload option"

end
