(* ===== verification/MuxFlow.thy ===== *)
theory MuxFlow
  imports MuxProto
begin

text \<open>
  The two flow-control structures of \<open>tssh/mux_proxy.go\<close>: \<open>muxWindow\<close>, the bytes the peer
  allows us to send, and \<open>muxByteQueue\<close>, the inbound data that waits for the backend.  Both are
  guarded by a mutex in the code, so an operation is one atomic function here; an operation
  that waits on the condition variable is \<^const>\<open>Blocked\<close> in the states where it waits.  Each
  structure is given to its clients through a locale.
\<close>

section \<open>The send window\<close>

record muxWindow =
  win_avail :: u32
  win_closed :: bool

definition newMuxWindow :: "u32 \<Rightarrow> muxWindow" where
  "newMuxWindow initial = \<lparr>win_avail = initial, win_closed = False\<rparr>"

definition muxWindow_add :: "u32 \<Rightarrow> muxWindow \<Rightarrow> muxWindow result" where
  "muxWindow_add n w =
     (if unat (win_avail w) + unat n > 4294967295 then Inl ''channel window overflow''
      else Inr (w\<lparr>win_avail := win_avail w + n\<rparr>))"

definition errMuxConnClosed :: go_error where
  "errMuxConnClosed = ''mux connection closed''"

definition muxWindow_reserve :: "u32 \<Rightarrow> muxWindow \<Rightarrow> (u32 \<times> muxWindow) result blocking" where
  "muxWindow_reserve want w =
     (if win_avail w = 0 \<and> \<not> win_closed w then Blocked
      else if win_closed w then Done (Inl errMuxConnClosed)
      else let got = min want (win_avail w) in
        Done (Inr (got, w\<lparr>win_avail := win_avail w - got\<rparr>)))"

definition muxWindow_close :: "muxWindow \<Rightarrow> muxWindow" where
  "muxWindow_close w = w\<lparr>win_closed := True\<rparr>"

text \<open>
  A run of operations on a window, peer grants (\<open>Inl\<close>) and reservations (\<open>Inr\<close>): the bytes
  granted, the bytes reserved, and the window left.
\<close>

fun window_run ::
  "(u32 \<Rightarrow> 'w \<Rightarrow> 'w result) \<Rightarrow> (u32 \<Rightarrow> 'w \<Rightarrow> (u32 \<times> 'w) result blocking) \<Rightarrow>
   (u32 + u32) list \<Rightarrow> 'w \<Rightarrow> nat \<times> nat \<times> 'w" where
  "window_run add reserve [] w = (0, 0, w)"
| "window_run add reserve (Inl n # ops) w =
     (case add n w of
        Inl _ \<Rightarrow> window_run add reserve ops w
      | Inr w1 \<Rightarrow> (case window_run add reserve ops w1 of (g, s, w2) \<Rightarrow> (g + unat n, s, w2)))"
| "window_run add reserve (Inr want # ops) w =
     (case reserve want w of
        Done (Inr (n, w1)) \<Rightarrow>
          (case window_run add reserve ops w1 of (g, s, w2) \<Rightarrow> (g, s + unat n, w2))
      | _ \<Rightarrow> window_run add reserve ops w)"

text \<open>
  The contract of a send window, over its credit: what \<open>reserve\<close> hands out is paid for, at
  least one byte when one is wanted, and \<open>add\<close> is exact or refused.
\<close>

locale send_window =
  fixes add :: "u32 \<Rightarrow> 'w \<Rightarrow> 'w result"
    and reserve :: "u32 \<Rightarrow> 'w \<Rightarrow> (u32 \<times> 'w) result blocking"
    and credit :: "'w \<Rightarrow> nat"
  assumes add_credit: "add n w = Inr w' \<Longrightarrow> credit w' = credit w + unat n"
    and add_refused: "add n w = Inl e \<Longrightarrow> credit w + unat n \<ge> 2 ^ 32"
    and reserve_credit: "reserve want w = Done (Inr (n, w')) \<Longrightarrow>
      unat n \<le> unat want \<and> credit w = credit w' + unat n"
    and reserve_progress: "reserve want w = Done (Inr (n, w')) \<Longrightarrow> want \<noteq> 0 \<Longrightarrow> n \<noteq> 0"
    and reserve_blocks: "reserve want w = Blocked \<Longrightarrow> credit w = 0"
begin

lemma window_run_conserves:
  "window_run add reserve ops w = (g, s, w') \<Longrightarrow> credit w + g = s + credit w'"
proof (induction ops arbitrary: w g s w')
  case (Cons op ops)
  then show ?case
    by (cases op)
      (fastforce split: sum.splits prod.splits blocking.splits dest: add_credit reserve_credit)+
qed simp

end

lemma muxWindow_add_Inr:
  "muxWindow_add n w = Inr w' \<longleftrightarrow>
     unat (win_avail w) + unat n < 4294967296 \<and> w' = w\<lparr>win_avail := win_avail w + n\<rparr>"
  by (auto simp: muxWindow_add_def split: if_splits)

lemma muxWindow_reserve_Inr:
  "muxWindow_reserve want w = Done (Inr (n, w')) \<longleftrightarrow>
     win_avail w \<noteq> 0 \<and> \<not> win_closed w \<and> n = min want (win_avail w) \<and>
     w' = w\<lparr>win_avail := win_avail w - n\<rparr>"
  by (auto simp: muxWindow_reserve_def Let_def split: if_splits)

interpretation muxWin: send_window muxWindow_add muxWindow_reserve "\<lambda>w. unat (win_avail w)"
proof
  fix n want :: u32 and w w' :: muxWindow and e
  show "muxWindow_add n w = Inr w' \<Longrightarrow> unat (win_avail w') = unat (win_avail w) + unat n"
    by (auto simp: muxWindow_add_Inr flow_simps)
  show "muxWindow_add n w = Inl e \<Longrightarrow> 2 ^ 32 \<le> unat (win_avail w) + unat n"
    by (auto simp: muxWindow_add_def split: if_splits)
  show "muxWindow_reserve want w = Done (Inr (n, w')) \<Longrightarrow>
      unat n \<le> unat want \<and> unat (win_avail w) = unat (win_avail w') + unat n"
    by (auto simp: muxWindow_reserve_Inr flow_simps)
  show "muxWindow_reserve want w = Done (Inr (n, w')) \<Longrightarrow> want \<noteq> 0 \<Longrightarrow> n \<noteq> 0"
    by (auto simp: muxWindow_reserve_Inr min_def)
  show "muxWindow_reserve want w = Blocked \<Longrightarrow> unat (win_avail w) = 0"
    by (auto simp: muxWindow_reserve_def Let_def split: if_splits)
qed

section \<open>The inbound queue\<close>

record muxByteQueue =
  q_items :: "bytes list"
  q_eof :: bool
  q_closed :: bool

definition newMuxByteQueue :: muxByteQueue where
  "newMuxByteQueue = \<lparr>q_items = [], q_eof = False, q_closed = False\<rparr>"

definition muxByteQueue_push :: "bytes \<Rightarrow> muxByteQueue \<Rightarrow> muxByteQueue" where
  "muxByteQueue_push data q =
     (if \<not> q_closed q \<and> \<not> q_eof q then q\<lparr>q_items := q_items q @ [data]\<rparr> else q)"

definition muxByteQueue_markEOF :: "muxByteQueue \<Rightarrow> muxByteQueue" where
  "muxByteQueue_markEOF q = q\<lparr>q_eof := True\<rparr>"

definition muxByteQueue_abort :: "muxByteQueue \<Rightarrow> muxByteQueue" where
  "muxByteQueue_abort q = q\<lparr>q_closed := True, q_items := []\<rparr>"

definition muxByteQueue_pop :: "muxByteQueue \<Rightarrow> ((bytes \<times> muxByteQueue) option) blocking" where
  "muxByteQueue_pop q =
     (if q_items q = [] \<and> \<not> q_eof q \<and> \<not> q_closed q then Blocked
      else if q_closed q then Done None
      else case q_items q of [] \<Rightarrow> Done None
        | d # ds \<Rightarrow> Done (Some (d, q\<lparr>q_items := ds\<rparr>)))"

text \<open>
  A run of pushes (\<open>Some\<close>) and pops (\<open>None\<close>, skipped where \<open>pop\<close> would wait): the items
  delivered and the queue left.  \<open>drain\<close> pops until the queue reports its end.
\<close>

fun queue_run ::
  "(bytes \<Rightarrow> 'q \<Rightarrow> 'q) \<Rightarrow> ('q \<Rightarrow> ((bytes \<times> 'q) option) blocking) \<Rightarrow>
   bytes option list \<Rightarrow> 'q \<Rightarrow> bytes list \<times> 'q" where
  "queue_run push pop [] q = ([], q)"
| "queue_run push pop (Some d # ops) q = queue_run push pop ops (push d q)"
| "queue_run push pop (None # ops) q =
     (case pop q of
        Done (Some (d, q1)) \<Rightarrow> (case queue_run push pop ops q1 of (ds, q2) \<Rightarrow> (d # ds, q2))
      | _ \<Rightarrow> queue_run push pop ops q)"

definition pushed :: "bytes option list \<Rightarrow> bytes list" where
  "pushed ops = map the (filter (\<lambda>op. op \<noteq> None) ops)"

lemma pushed_simps [simp]:
  "pushed [] = []" "pushed (Some d # ops) = d # pushed ops" "pushed (None # ops) = pushed ops"
  by (simp_all add: pushed_def)

fun drain :: "('q \<Rightarrow> ((bytes \<times> 'q) option) blocking) \<Rightarrow> nat \<Rightarrow> 'q \<Rightarrow> bytes list" where
  "drain pop 0 q = []"
| "drain pop (Suc n) q =
     (case pop q of Done (Some (d, q1)) \<Rightarrow> d # drain pop n q1 | _ \<Rightarrow> [])"

text \<open>
  The contract of the inbound queue: first in, first out; after \<open>markEOF\<close> nothing more is
  accepted but everything pending is still delivered; after \<open>abort\<close> nothing is.  \<open>pop\<close> waits
  only while something may still come.
\<close>

locale inbound_queue =
  fixes push :: "bytes \<Rightarrow> 'q \<Rightarrow> 'q" and markEOF abort :: "'q \<Rightarrow> 'q"
    and pop :: "'q \<Rightarrow> ((bytes \<times> 'q) option) blocking"
    and pending :: "'q \<Rightarrow> bytes list" and accepting aborted :: "'q \<Rightarrow> bool"
  assumes push_pending: "pending (push d q) = pending q @ (if accepting q then [d] else [])"
    and push_accepting: "accepting (push d q) = accepting q"
    and push_aborted: "aborted (push d q) = aborted q"
    and mark_pending: "pending (markEOF q) = pending q"
    and mark_accepting: "\<not> accepting (markEOF q)"
    and mark_aborted: "aborted (markEOF q) = aborted q"
    and abort_pending: "pending (abort q) = []"
    and abort_accepting: "\<not> accepting (abort q)"
    and abort_aborted: "aborted (abort q)"
    and pop_Some: "pop q = Done (Some (d, q')) \<Longrightarrow>
      pending q = d # pending q' \<and> accepting q' = accepting q \<and> aborted q' = aborted q"
    and pop_None: "pop q = Done None \<Longrightarrow> \<not> accepting q \<and> (pending q = [] \<or> aborted q)"
    and pop_Blocked: "pop q = Blocked \<longleftrightarrow> accepting q \<and> pending q = []"
begin

lemma queue_run_fifo:
  "queue_run push pop ops q = (ds, q') \<Longrightarrow> accepting q \<Longrightarrow>
     ds @ pending q' = pending q @ pushed ops \<and> accepting q'"
proof (induction ops arbitrary: q ds)
  case (Cons op ops)
  show ?case
  proof (cases op)
    case None
    with Cons show ?thesis
      by (fastforce split: blocking.splits option.splits prod.splits dest: pop_Some)
  next
    case (Some d)
    with Cons.prems Cons.IH [of "push d q" ds] show ?thesis
      by (simp add: push_pending push_accepting)
  qed
qed simp

lemma drain_pending:
  assumes "\<not> accepting q" "\<not> aborted q" "length (pending q) \<le> n"
  shows "drain pop n q = pending q"
  using assms
proof (induction n arbitrary: q)
  case (Suc n)
  show ?case
  proof (cases "pop q")
    case Blocked
    with Suc.prems show ?thesis using pop_Blocked by blast
  next
    case (Done r)
    show ?thesis
    proof (cases r)
      case None
      with Done Suc.prems pop_None [of q] show ?thesis by auto
    next
      case (Some dq)
      with Done obtain d q1 where p: "pop q = Done (Some (d, q1))" by (cases dq) auto
      from pop_Some [OF p] Suc p show ?thesis by auto
    qed
  qed
qed simp

end

definition q_accepting :: "muxByteQueue \<Rightarrow> bool" where
  "q_accepting q \<longleftrightarrow> \<not> q_closed q \<and> \<not> q_eof q"

text \<open>In a queue of the code an abort has emptied the items, which \<open>pop\<close> relies on.\<close>

interpretation muxQ: inbound_queue muxByteQueue_push muxByteQueue_markEOF muxByteQueue_abort
  muxByteQueue_pop q_items q_accepting q_closed
proof
  fix q q' :: muxByteQueue and d
  show "muxByteQueue_pop q = Done (Some (d, q')) \<Longrightarrow>
      q_items q = d # q_items q' \<and> q_accepting q' = q_accepting q \<and> q_closed q' = q_closed q"
    by (auto simp: muxByteQueue_pop_def q_accepting_def split: if_splits list.splits)
  show "muxByteQueue_pop q = Done None \<Longrightarrow> \<not> q_accepting q \<and> (q_items q = [] \<or> q_closed q)"
    by (auto simp: muxByteQueue_pop_def q_accepting_def split: if_splits list.splits)
  show "(muxByteQueue_pop q = Blocked) = (q_accepting q \<and> q_items q = [])"
    by (auto simp: muxByteQueue_pop_def q_accepting_def split: if_splits list.splits)
qed (auto simp: muxByteQueue_push_def muxByteQueue_markEOF_def muxByteQueue_abort_def q_accepting_def)

section \<open>Properties\<close>

text \<open>C7: the send window conserves credit.  Over any sequence of window adjusts and
  reservations, refused and blocked ones included, the bytes handed out plus the bytes left are
  exactly the initial window plus the bytes granted: nothing is sent that was not granted, and
  the 32-bit counter never wraps.\<close>

theorem muxWindow_conserves:
  "case window_run muxWindow_add muxWindow_reserve ops (newMuxWindow initial) of
     (granted, reserved, w) \<Rightarrow> reserved + unat (win_avail w) = unat initial + granted"
  using muxWin.window_run_conserves [of ops "newMuxWindow initial"]
  by (auto simp: newMuxWindow_def split: prod.splits)


end
