(* ===== verification/MuxChannel.thy ===== *)
theory MuxChannel
  imports MuxMsg MuxFlow GoStrings
begin

text \<open>
  \<open>muxChannel\<close> of \<open>tssh/mux_proxy.go\<close>: one ssh channel of a proxy connection, mapped onto a
  backend session or stream.  The connection is a \<open>conn_io\<close>: the socket, the \<open>closed\<close> flag, the
  log of the messages written to the peer and the log of the calls made on the backend.  The
  backend's answers are a parameter (\<open>backend\<close>).  A pointer that may be nil is a flag or an
  option.  \<open>teardown\<close> is composed of its two halves, before and after \<open>closed\<close> is stored,
  because other goroutines may run between them.
\<close>

section \<open>The connection side\<close>

datatype start_kind = StartShell | StartExec string | StartSubsystem string
datatype start_result = StartOk | StartEOF | StartErr

datatype fx =
    FxRequestPty string int int "byte \<rightharpoonup> u32"
  | FxSetenv string string
  | FxStart start_kind
  | FxWindowChange int int
  | FxSendRequest string bool bytes
  | FxWrite bytes
  | FxStdinClose
  | FxCloseWrite
  | FxSessionClose
  | FxStreamClose

record backend =
  be_requestPty :: "string \<Rightarrow> int \<Rightarrow> int \<Rightarrow> (byte \<rightharpoonup> u32) \<Rightarrow> bool"
  be_setenv :: "string \<Rightarrow> string \<Rightarrow> bool"
  be_stderrPipe :: bool
  be_start :: "start_kind \<Rightarrow> start_result"
  be_windowChange :: "int \<Rightarrow> int \<Rightarrow> bool"
  be_sendRequest :: "string \<Rightarrow> bool \<Rightarrow> bytes \<Rightarrow> bool option"

record conn_io =
  cn_sock :: sock
  cn_closed :: bool
  cn_out :: "ssh_msg list"
  cn_fx :: "fx list"

definition muxErrorText :: "mux_error \<Rightarrow> go_error" where
  "muxErrorText e =
     (case e of PacketTooLong n \<Rightarrow>
        ''ssh packet length '' @ utoa n @ '' exceeds maximum '' @ utoa kMuxMaxPacket
      | _ \<Rightarrow> ''write failed'')"

definition conn_send :: "ssh_codec \<Rightarrow> ssh_msg \<Rightarrow> conn_io \<Rightarrow> unit result \<times> conn_io" where
  "conn_send cd msg cn =
     (if cn_closed cn then (Inl errMuxConnClosed, cn)
      else case writeSshPacket sock_write (cn_sock cn) (m_msg cd msg) of
        (Inl e, s) \<Rightarrow> (Inl (muxErrorText e), cn\<lparr>cn_sock := s\<rparr>)
      | (Inr _, s) \<Rightarrow> (Inr (), cn\<lparr>cn_sock := s, cn_out := cn_out cn @ [msg]\<rparr>))"

definition emit :: "fx list \<Rightarrow> conn_io \<Rightarrow> conn_io" where
  "emit es cn = cn\<lparr>cn_fx := cn_fx cn @ es\<rparr>"

section \<open>The channel\<close>

record muxChannel =
  ch_localID :: u32
  ch_remoteID :: u32
  ch_chanType :: string
  ch_remoteWin :: "muxWindow option"
  ch_remoteMax :: u32
  ch_myWindow :: u32
  ch_consumed :: u32
  ch_inQueue :: muxByteQueue
  ch_session :: bool
  ch_stdinOnce :: bool
  ch_started :: bool
  ch_stream :: bool
  ch_openReply :: "ssh_msg option"
  ch_outDone :: bool
  ch_gotEOF :: bool
  ch_sentEOF :: bool
  ch_sentClose :: bool
  ch_closed :: bool
  ch_closeOnce :: bool

definition newChannel :: "u32 \<Rightarrow> string \<Rightarrow> muxChannel" where
  "newChannel lid chanType =
     \<lparr>ch_localID = lid, ch_remoteID = 0, ch_chanType = chanType, ch_remoteWin = None,
      ch_remoteMax = 0, ch_myWindow = kMuxChannelWindowSize, ch_consumed = 0,
      ch_inQueue = newMuxByteQueue, ch_session = False, ch_stdinOnce = False, ch_started = False,
      ch_stream = False, ch_openReply = None, ch_outDone = False, ch_gotEOF = False,
      ch_sentEOF = False, ch_sentClose = False, ch_closed = False, ch_closeOnce = False\<rparr>"

subsection \<open>Closing\<close>

definition sendEOF :: "ssh_codec \<Rightarrow> muxChannel \<Rightarrow> conn_io \<Rightarrow> muxChannel \<times> conn_io" where
  "sendEOF cd ch cn =
     (if ch_closed ch \<or> ch_sentEOF ch then (ch, cn)
      else (ch\<lparr>ch_sentEOF := True\<rparr>, snd (conn_send cd (ChannelEOF (ch_remoteID ch)) cn)))"

definition sendClose :: "ssh_codec \<Rightarrow> muxChannel \<Rightarrow> conn_io \<Rightarrow> muxChannel \<times> conn_io" where
  "sendClose cd ch cn =
     (if ch_sentClose ch then (ch, cn)
      else (ch\<lparr>ch_sentClose := True\<rparr>, snd (conn_send cd (ChannelClose (ch_remoteID ch)) cn)))"

definition closeStdin :: "muxChannel \<Rightarrow> conn_io \<Rightarrow> muxChannel \<times> conn_io" where
  "closeStdin ch cn =
     (if ch_stdinOnce ch then (ch, cn)
      else (ch\<lparr>ch_stdinOnce := True\<rparr>, if ch_session ch then emit [FxStdinClose] cn else cn))"

definition teardownBegin :: "ssh_codec \<Rightarrow> muxChannel \<Rightarrow> conn_io \<Rightarrow> muxChannel \<times> conn_io" where
  "teardownBegin cd ch cn =
     (let ch1 = ch\<lparr>ch_closeOnce := True\<rparr> in
      if ch_remoteWin ch1 \<noteq> None then sendClose cd ch1 cn else (ch1, cn))"

definition teardownEnd :: "muxChannel \<Rightarrow> conn_io \<Rightarrow> muxChannel \<times> conn_io" where
  "teardownEnd ch cn =
     (let ch1 = ch\<lparr>ch_closed := True, ch_inQueue := muxByteQueue_abort (ch_inQueue ch),
                    ch_remoteWin := map_option muxWindow_close (ch_remoteWin ch)\<rparr>;
          (ch2, cn2) = (if ch_session ch1
             then (let (c, n) = closeStdin ch1 cn in (c, emit [FxSessionClose] n)) else (ch1, cn))
      in (ch2, if ch_stream ch2 then emit [FxStreamClose] cn2 else cn2))"

definition teardown :: "ssh_codec \<Rightarrow> muxChannel \<Rightarrow> conn_io \<Rightarrow> muxChannel \<times> conn_io" where
  "teardown cd ch cn =
     (if ch_closeOnce ch then (ch, cn)
      else let (ch1, cn1) = teardownBegin cd ch cn in teardownEnd ch1 cn1)"

subsection \<open>Inbound data\<close>

definition consumeWindow :: "u32 \<Rightarrow> muxChannel \<Rightarrow> muxChannel result" where
  "consumeWindow n ch =
     (if n > ch_myWindow ch
      then Inl (''channel data exceeds window: '' @ utoa (unat n) @ '' > '' @
                utoa (unat (ch_myWindow ch)))
      else Inr (ch\<lparr>ch_myWindow := ch_myWindow ch - n\<rparr>))"

definition replenishWindow ::
  "ssh_codec \<Rightarrow> u32 \<Rightarrow> muxChannel \<Rightarrow> conn_io \<Rightarrow> unit result \<times> muxChannel \<times> conn_io" where
  "replenishWindow cd n ch cn =
     (let ch1 = ch\<lparr>ch_consumed := ch_consumed ch + n\<rparr> in
      if ch_consumed ch1 < kMuxChannelWindowSize div 2 then (Inr (), ch1, cn)
      else let adjust = ch_consumed ch1;
               ch2 = ch1\<lparr>ch_consumed := 0, ch_myWindow := ch_myWindow ch1 + adjust\<rparr> in
        if ch_closed ch2 then (Inr (), ch2, cn)
        else (case conn_send cd (WindowAdjust \<lparr>wa_PeersID = ch_remoteID ch2,
                      wa_AdditionalBytes = adjust\<rparr>) cn of (r, cn1) \<Rightarrow> (r, ch2, cn1)))"

definition handleData :: "bytes \<Rightarrow> muxChannel \<Rightarrow> muxChannel result" where
  "handleData data ch =
     (case consumeWindow (of_nat (length data)) ch of
        Inl e \<Rightarrow> Inl e
      | Inr ch1 \<Rightarrow>
          if data = [] \<or> ch_closed ch1 then Inr ch1
          else Inr (ch1\<lparr>ch_inQueue := muxByteQueue_push data (ch_inQueue ch1)\<rparr>))"

subsection \<open>Channel requests\<close>

definition ch_reply ::
  "ssh_codec \<Rightarrow> sshChannelRequestMsg \<Rightarrow> bool \<Rightarrow> muxChannel \<Rightarrow> conn_io \<Rightarrow> unit result \<times> conn_io" where
  "ch_reply cd msg ok ch cn =
     (if \<not> cr_WantReply msg then (Inr (), cn)
      else if ok then conn_send cd (ChannelSuccess (ch_remoteID ch)) cn
      else conn_send cd (ChannelFailure (ch_remoteID ch)) cn)"

text \<open>\<open>startSession\<close> also starts the pumps; here it reports whether it did.\<close>

definition startSession ::
  "backend \<Rightarrow> start_kind \<Rightarrow> muxChannel \<Rightarrow> conn_io \<Rightarrow> bool \<times> muxChannel \<times> conn_io" where
  "startSession be kind ch cn =
     (if ch_started ch then (False, ch, cn)
      else let ch1 = ch\<lparr>ch_started := True\<rparr> in
        if \<not> be_stderrPipe be then (False, ch1, cn)
        else (be_start be kind \<noteq> StartErr, ch1, emit [FxStart kind] cn))"

definition startAndReply ::
  "ssh_codec \<Rightarrow> backend \<Rightarrow> sshChannelRequestMsg \<Rightarrow> start_kind \<Rightarrow> muxChannel \<Rightarrow> conn_io \<Rightarrow>
   unit result \<times> muxChannel \<times> conn_io" where
  "startAndReply cd be msg kind ch cn =
     (let (ok, ch1, cn1) = startSession be kind ch cn; (r, cn2) = ch_reply cd msg ok ch1 cn1
      in (r, ch1, cn2))"

definition handleRequest ::
  "ssh_codec \<Rightarrow> backend \<Rightarrow> sshChannelRequestMsg \<Rightarrow> muxChannel \<Rightarrow> conn_io \<Rightarrow>
   unit result \<times> muxChannel \<times> conn_io" where
  "handleRequest cd be msg ch cn =
     (let answer = (\<lambda>ok cn'. case ch_reply cd msg ok ch cn' of (r, cn'') \<Rightarrow> (r, ch, cn''));
          data = cr_RequestSpecificData msg; req = cr_Request msg in
      if \<not> ch_session ch then answer False cn
      else if req = ''pty-req'' then
        (case u_ptyRequest cd data of None \<Rightarrow> (Inl ''parse pty-req failed'', ch, cn)
         | Some p \<Rightarrow>
             if ch_started ch then answer False cn
             else let modes = parseTerminalModes (pty_Modelist p);
                      ok = be_requestPty be (pty_Term p) (int (unat (pty_Rows p)))
                             (int (unat (pty_Columns p))) modes in
               answer ok (emit [FxRequestPty (pty_Term p) (int (unat (pty_Rows p)))
                             (int (unat (pty_Columns p))) modes] cn))
      else if req = ''env'' then
        (case u_env cd data of None \<Rightarrow> (Inl ''parse env failed'', ch, cn)
         | Some p \<Rightarrow> answer (be_setenv be (env_Name p) (env_Value p))
                      (emit [FxSetenv (env_Name p) (env_Value p)] cn))
      else if req = ''shell'' then startAndReply cd be msg StartShell ch cn
      else if req = ''exec'' then
        (case u_exec cd data of None \<Rightarrow> (Inl ''parse exec failed'', ch, cn)
         | Some c \<Rightarrow> startAndReply cd be msg (StartExec c) ch cn)
      else if req = ''subsystem'' then
        (case u_subsystem cd data of None \<Rightarrow> (Inl ''parse subsystem failed'', ch, cn)
         | Some c \<Rightarrow> startAndReply cd be msg (StartSubsystem c) ch cn)
      else if req = ''window-change'' then
        (case u_windowChange cd data of None \<Rightarrow> (Inl ''parse window-change failed'', ch, cn)
         | Some p \<Rightarrow>
             answer (be_windowChange be (int (unat (wc_Rows p))) (int (unat (wc_Columns p))))
               (emit [FxWindowChange (int (unat (wc_Rows p))) (int (unat (wc_Columns p)))] cn))
      else if req = ''x11-req'' \<or> req = ''auth-agent-req@openssh.com'' then answer False cn
      else answer (be_sendRequest be req (cr_WantReply msg) data = Some True)
             (emit [FxSendRequest req (cr_WantReply msg) data] cn))"

subsection \<open>Packets for the channel\<close>

text \<open>
  \<open>handlePacket\<close> of a channel; the caller has checked that the packet holds a message number
  and a channel id.  The last component says that the channel leaves the connection's table.
\<close>

definition ch_handlePacket ::
  "ssh_codec \<Rightarrow> backend \<Rightarrow> bytes \<Rightarrow> muxChannel \<Rightarrow> conn_io \<Rightarrow>
   unit result \<times> muxChannel \<times> conn_io \<times> bool" where
  "ch_handlePacket cd be pkt ch cn =
     (let t = hd pkt in
      if t = kSshMsgChannelWindowAdjust then
        (case u_windowAdjust cd pkt of None \<Rightarrow> (Inl ''parse window adjust failed'', ch, cn, False)
         | Some m \<Rightarrow>
             (case ch_remoteWin ch of
                None \<Rightarrow> (Inl ''window adjust before channel open confirmation'', ch, cn, False)
              | Some w \<Rightarrow>
                  (case muxWindow_add (wa_AdditionalBytes m) w of
                     Inl e \<Rightarrow> (Inl e, ch, cn, False)
                   | Inr w1 \<Rightarrow> (Inr (), ch\<lparr>ch_remoteWin := Some w1\<rparr>, cn, False))))
      else if t = kSshMsgChannelData then
        (case u_channelData cd pkt of None \<Rightarrow> (Inl ''parse channel data failed'', ch, cn, False)
         | Some m \<Rightarrow>
             if unat (cd_Length m) > length (cd_Rest m)
             then (Inl ''channel data length exceeds packet'', ch, cn, False)
             else (case handleData (take (unat (cd_Length m)) (cd_Rest m)) ch of
                     Inl e \<Rightarrow> (Inl e, ch, cn, False)
                   | Inr ch1 \<Rightarrow> (Inr (), ch1, cn, False)))
      else if t = kSshMsgChannelExtendedData then
        (case u_extendedData cd pkt of
           None \<Rightarrow> (Inl ''parse channel extended data failed'', ch, cn, False)
         | Some m \<Rightarrow>
             if unat (ce_Length m) > length (ce_Rest m)
             then (Inl ''channel extended data length exceeds packet'', ch, cn, False)
             else (case consumeWindow (ce_Length m) ch of
                     Inl e \<Rightarrow> (Inl e, ch, cn, False)
                   | Inr ch1 \<Rightarrow> (case replenishWindow cd (ce_Length m) ch1 cn of
                                   (r, ch2, cn2) \<Rightarrow> (r, ch2, cn2, False))))
      else if t = kSshMsgChannelEOF then
        (let ch1 = ch\<lparr>ch_gotEOF := True, ch_inQueue := muxByteQueue_markEOF (ch_inQueue ch)\<rparr> in
         if ch_stream ch1 \<and> ch_outDone ch1
         then (case teardown cd ch1 cn of (ch2, cn2) \<Rightarrow> (Inr (), ch2, cn2, False))
         else (Inr (), ch1, cn, False))
      else if t = kSshMsgChannelClose then
        (case teardown cd ch cn of (ch1, cn1) \<Rightarrow> (Inr (), ch1, cn1, True))
      else if t = kSshMsgChannelRequest then
        (case u_channelRequest cd pkt of
           None \<Rightarrow> (Inl ''parse channel request failed'', ch, cn, False)
         | Some m \<Rightarrow> (case handleRequest cd be m ch cn of (r, ch1, cn1) \<Rightarrow> (r, ch1, cn1, False)))
      else if t = kSshMsgChannelSuccess \<or> t = kSshMsgChannelFailure then (Inr (), ch, cn, False)
      else (Inl ''unexpected channel message type'', ch, cn, False))"

subsection \<open>Pumps\<close>

text \<open>
  \<open>pumpIn\<close> delivers queued data to the backend writer.  \<open>writeOk\<close> says whether the backend takes
  a piece of data, \<open>canCloseWrite\<close> whether the writer has a \<open>CloseWrite\<close> method.  One pass of the
  loop is \<open>pumpInWrite\<close>; the result tells whether the goroutine waits, goes on or has ended.
\<close>

definition pumpInWrite ::
  "ssh_codec \<Rightarrow> bool \<Rightarrow> bytes \<Rightarrow> muxChannel \<Rightarrow> conn_io \<Rightarrow> bool \<times> muxChannel \<times> conn_io" where
  "pumpInWrite cd writeOk data ch cn =
     (if \<not> writeOk then
        (let ch1 = ch\<lparr>ch_inQueue := muxByteQueue_abort (ch_inQueue ch)\<rparr> in
         if ch_stream ch1 then (case teardown cd ch1 cn of (ch2, cn2) \<Rightarrow> (False, ch2, cn2))
         else (False, ch1, cn))
      else (case replenishWindow cd (of_nat (length data)) ch (emit [FxWrite data] cn) of
              (_, ch1, cn1) \<Rightarrow> (True, ch1, cn1)))"

definition pumpInEnd :: "bool \<Rightarrow> muxChannel \<Rightarrow> conn_io \<Rightarrow> muxChannel \<times> conn_io" where
  "pumpInEnd canCloseWrite ch cn =
     (if ch_closed ch then (ch, cn)
      else if ch_stream ch then (ch, if canCloseWrite then emit [FxCloseWrite] cn else cn)
      else closeStdin ch cn)"

lemma pop_shorter:
  "muxByteQueue_pop q = Done (Some (d, q')) \<Longrightarrow> length (q_items q) = Suc (length (q_items q'))"
  using muxQ.pop_Some by fastforce

lemma replenishWindow_queue:
  "replenishWindow cd n ch cn = (r, ch', cn') \<Longrightarrow>
     ch_inQueue ch' = ch_inQueue ch \<and> ch_closed ch' = ch_closed ch \<and> ch_stream ch' = ch_stream ch"
  by (auto simp: replenishWindow_def Let_def split: if_splits prod.splits)

lemma pumpInWrite_queue:
  "pumpInWrite cd ok d ch cn = (True, ch', cn') \<Longrightarrow> ch_inQueue ch' = ch_inQueue ch"
  by (auto simp: pumpInWrite_def Let_def split: if_splits prod.splits dest: replenishWindow_queue)

function pumpIn ::
  "ssh_codec \<Rightarrow> (bytes \<Rightarrow> bool) \<Rightarrow> bool \<Rightarrow> muxChannel \<Rightarrow> conn_io \<Rightarrow> (muxChannel \<times> conn_io) blocking \<times>
   muxChannel \<times> conn_io" where
  "pumpIn cd writeOk canCloseWrite ch cn =
     (case muxByteQueue_pop (ch_inQueue ch) of
        Blocked \<Rightarrow> (Blocked, ch, cn)
      | Done None \<Rightarrow> (let r = pumpInEnd canCloseWrite ch cn in (Done r, r))
      | Done (Some (data, q)) \<Rightarrow>
          (case pumpInWrite cd (writeOk data) data (ch\<lparr>ch_inQueue := q\<rparr>) cn of
             (False, ch1, cn1) \<Rightarrow> (Done (ch1, cn1), ch1, cn1)
           | (True, ch1, cn1) \<Rightarrow> pumpIn cd writeOk canCloseWrite ch1 cn1))"
  by pat_completeness auto
termination
  by (relation "measure (\<lambda>(cd, wo, cw, ch, cn). length (q_items (ch_inQueue ch)))")
    (auto dest!: sym [of "(_, _)" "pumpInWrite _ _ _ _ _"] pumpInWrite_queue pop_shorter)

declare pumpIn.simps [simp del]

text \<open>
  \<open>writeData\<close> sends a piece of backend output within the peer's window.  While it waits for
  credit the read loop may add some: \<open>grants\<close> are the window adjusts that arrive while it waits,
  in order.  \<open>WdSpin\<close> is the infinite loop the code would enter if a reservation gave no byte.
\<close>

datatype wd_result = WdOk | WdErr go_error | WdWait bytes | WdNil | WdSpin

definition dataMsg :: "u32 \<Rightarrow> muxChannel \<Rightarrow> u32 \<Rightarrow> bytes \<Rightarrow> ssh_msg" where
  "dataMsg ext ch n chunk =
     (if ext = 0
      then ChannelData \<lparr>cd_PeersID = ch_remoteID ch, cd_Length = n, cd_Rest = chunk\<rparr>
      else ChannelExtendedData \<lparr>ce_PeersID = ch_remoteID ch, ce_Datatype = ext, ce_Length = n,
             ce_Rest = chunk\<rparr>)"

function writeData ::
  "ssh_codec \<Rightarrow> u32 \<Rightarrow> bytes \<Rightarrow> u32 list \<Rightarrow> muxChannel \<Rightarrow> conn_io \<Rightarrow>
   wd_result \<times> u32 list \<times> muxChannel \<times> conn_io" where
  "writeData cd ext data grants ch cn =
     (if data = [] then (WdOk, grants, ch, cn)
      else if ch_closed ch then (WdErr errMuxConnClosed, grants, ch, cn)
      else case ch_remoteWin ch of None \<Rightarrow> (WdNil, grants, ch, cn)
      | Some w \<Rightarrow>
          (case muxWindow_reserve (of_nat (length data)) w of
             Blocked \<Rightarrow>
               (case grants of [] \<Rightarrow> (WdWait data, [], ch, cn)
                | g # gs \<Rightarrow>
                    (case muxWindow_add g w of
                       Inl e \<Rightarrow> writeData cd ext data gs ch cn
                     | Inr w1 \<Rightarrow> writeData cd ext data gs (ch\<lparr>ch_remoteWin := Some w1\<rparr>) cn))
           | Done (Inl e) \<Rightarrow> (WdErr e, grants, ch, cn)
           | Done (Inr (n, w1)) \<Rightarrow>
               let ch1 = ch\<lparr>ch_remoteWin := Some w1\<rparr>; k = unat n in
               if k = 0 then (WdSpin, grants, ch1, cn)
               else (case conn_send cd (dataMsg ext ch n (take k data)) cn of
                       (Inl e, cn1) \<Rightarrow> (WdErr e, grants, ch1, cn1)
                     | (Inr _, cn1) \<Rightarrow> writeData cd ext (drop k data) grants ch1 cn1)))"
  by pat_completeness auto
termination
  by (relation "measures [\<lambda>(cd, ext, data, gs, ch, cn). length data,
        \<lambda>(cd, ext, data, gs, ch, cn). length gs]") auto

declare writeData.simps [simp del]

text \<open>
  \<open>pumpOut\<close> over the pieces the backend reader returns, each filling at most the buffer of
  \<open>remoteMax\<close> bytes, followed by the reader's error; \<open>waitSession\<close> once \<open>Wait\<close> has returned and
  the output is drained; and the end of the output side of a stream channel.
\<close>

fun pumpOut ::
  "ssh_codec \<Rightarrow> u32 \<Rightarrow> bytes list \<Rightarrow> u32 list \<Rightarrow> muxChannel \<Rightarrow> conn_io \<Rightarrow>
   wd_result \<times> u32 list \<times> muxChannel \<times> conn_io" where
  "pumpOut cd ext [] grants ch cn = (WdOk, grants, ch, cn)"
| "pumpOut cd ext (data # reads) grants ch cn =
     (if data = [] then pumpOut cd ext reads grants ch cn
      else case writeData cd ext data grants ch cn of
        (WdOk, gs, ch1, cn1) \<Rightarrow> pumpOut cd ext reads gs ch1 cn1
      | r \<Rightarrow> r)"

definition waitSession :: "ssh_codec \<Rightarrow> u32 \<Rightarrow> muxChannel \<Rightarrow> conn_io \<Rightarrow> muxChannel \<times> conn_io" where
  "waitSession cd exitCode ch cn =
     (let cn1 = (if ch_closed ch then cn
                 else snd (conn_send cd (ChannelRequest \<lparr>cr_PeersID = ch_remoteID ch,
                   cr_Request = ''exit-status'', cr_WantReply = False,
                   cr_RequestSpecificData = m_exitStatus cd exitCode\<rparr>) cn));
          (ch2, cn2) = sendEOF cd ch cn1
      in teardown cd ch2 cn2)"

definition streamOutDone :: "ssh_codec \<Rightarrow> muxChannel \<Rightarrow> conn_io \<Rightarrow> muxChannel \<times> conn_io" where
  "streamOutDone cd ch cn =
     (let (ch1, cn1) = sendEOF cd (ch\<lparr>ch_outDone := True\<rparr>) cn
      in if ch_gotEOF ch1 then teardown cd ch1 cn1 else (ch1, cn1))"

end
