(* ===== verification/MuxChannelProps.thy ===== *)
theory MuxChannelProps
  imports MuxChannel
begin

text \<open>
  Correctness of the proxy channel: the inbound flow control under every interleaving of the
  read loop, the pumps and the teardown; the outbound data path; and what is sent at most once.
\<close>

section \<open>Window accounting of the single operations\<close>

abbreviation kWindow :: nat where "kWindow \<equiv> 2097152"

lemma kMuxChannelWindowSize_unat [simp]: "unat kMuxChannelWindowSize = kWindow"
  by (simp add: kMuxChannelWindowSize_def)

lemma half_window_unat [simp]: "unat (kMuxChannelWindowSize div 2) = 1048576"
  by (simp add: kMuxChannelWindowSize_def)

definition queued :: "muxChannel \<Rightarrow> nat" where
  "queued ch = length (concat (q_items (ch_inQueue ch)))"

text \<open>The bytes charged to the peer's window: still granted, consumed but not yet given back,
  queued, and in the hands of the pump.\<close>

definition charged :: "nat \<Rightarrow> muxChannel \<Rightarrow> nat" where
  "charged inflight ch = unat (ch_myWindow ch) + unat (ch_consumed ch) + queued ch + inflight"

lemma consumeWindow_Inr:
  assumes "consumeWindow n ch = Inr ch'"
  shows "ch' = ch\<lparr>ch_myWindow := ch_myWindow ch - n\<rparr>"
    and "unat (ch_myWindow ch) = unat (ch_myWindow ch') + unat n"
proof -
  show e: "ch' = ch\<lparr>ch_myWindow := ch_myWindow ch - n\<rparr>"
    using assms by (auto simp: consumeWindow_def split: if_splits)
  have "n \<le> ch_myWindow ch"
    using assms by (auto simp: consumeWindow_def split: if_splits)
  then show "unat (ch_myWindow ch) = unat (ch_myWindow ch') + unat n"
    by (simp add: e unat_sub_u32 word_le_nat_alt)
qed

text \<open>
  The invariant: never more than the window is charged, less than half of it is held back, and
  as long as the channel is open and takes data, all of it is accounted for.
\<close>

definition takes_data :: "muxChannel \<Rightarrow> bool" where
  "takes_data ch \<longleftrightarrow> \<not> ch_closed ch \<and> q_accepting (ch_inQueue ch)"

definition flow_inv :: "nat \<Rightarrow> muxChannel \<Rightarrow> bool" where
  "flow_inv k ch \<longleftrightarrow> charged k ch \<le> kWindow \<and> unat (ch_consumed ch) < kWindow div 2 \<and>
     (takes_data ch \<longrightarrow> charged k ch = kWindow)"

lemma replenishWindow_account:
  assumes "replenishWindow cd n ch cn = (r, ch', cn')"
    and "unat (ch_myWindow ch) + unat (ch_consumed ch) + unat n \<le> kWindow"
  shows "unat (ch_myWindow ch') + unat (ch_consumed ch')
         = unat (ch_myWindow ch) + unat (ch_consumed ch) + unat n"
    and "unat (ch_consumed ch') < kWindow div 2"
proof -
  have c: "unat (ch_consumed ch + n) = unat (ch_consumed ch) + unat n"
    using assms(2) by (intro unat_add_u32) linarith
  then have w: "unat (ch_myWindow ch + (ch_consumed ch + n))
      = unat (ch_myWindow ch) + unat (ch_consumed ch + n)"
    using assms(2) by (intro unat_add_u32) linarith
  show "unat (ch_myWindow ch') + unat (ch_consumed ch')
         = unat (ch_myWindow ch) + unat (ch_consumed ch) + unat n"
    using assms(1) c w
    by (auto simp: replenishWindow_def Let_def split: if_splits prod.splits)
  show "unat (ch_consumed ch') < kWindow div 2"
    using assms(1) by (auto simp: replenishWindow_def Let_def word_less_nat_alt
        split: if_splits prod.splits)
qed

lemma flow_replenish:
  assumes "replenishWindow cd n ch cn = (r, ch', cn')" and "flow_inv (unat n + k) ch"
  shows "flow_inv k ch'"
proof -
  have "unat (ch_myWindow ch) + unat (ch_consumed ch) + unat n \<le> kWindow"
    using assms(2) by (simp add: flow_inv_def charged_def)
  note acc = replenishWindow_account [OF assms(1) this]
  then have "charged k ch' = charged (unat n + k) ch"
    using replenishWindow_queue [OF assms(1)] by (simp add: charged_def queued_def)
  then show ?thesis
    using acc replenishWindow_queue [OF assms(1)] assms(2) by (simp add: flow_inv_def takes_data_def)
qed

lemma queued_push: "length (concat (q_items (muxByteQueue_push d q))) =
    length (concat (q_items q)) + (if q_accepting q then length d else 0)"
  by (simp add: muxByteQueue_push_def q_accepting_def)

lemma flow_handleData:
  assumes "handleData d ch = Inr ch'" and "length d < 2 ^ 32" and "flow_inv k ch"
  shows "flow_inv k ch'"
proof -
  obtain ch1 where c: "consumeWindow (of_nat (length d)) ch = Inr ch1"
    using assms(1) by (auto simp: handleData_def split: sum.splits)
  note w = consumeWindow_Inr [OF c]
  have l: "unat (of_nat (length d) :: u32) = length d"
    using assms(2) by (simp add: unat_of_nat_u32)
  have ch': "ch' = (if d = [] \<or> ch_closed ch then ch1
      else ch1\<lparr>ch_inQueue := muxByteQueue_push d (ch_inQueue ch)\<rparr>)"
    using assms(1) c w(1) by (auto simp: handleData_def)
  have t: "takes_data ch' = takes_data ch"
    using w(1) by (auto simp: ch' takes_data_def muxQ.push_accepting)
  have my: "unat (ch_myWindow ch) = unat (ch_myWindow ch') + length d"
    using w(2) l by (simp add: ch')
  have "queued ch' = queued ch + (if takes_data ch then length d else 0)
      \<or> queued ch' \<le> queued ch + length d \<and> \<not> takes_data ch"
    using w(1) by (simp add: ch' queued_def takes_data_def queued_push)
  then have "charged k ch' \<le> charged k ch" "takes_data ch \<Longrightarrow> charged k ch' = charged k ch"
    using my w(1) by (auto simp: ch' charged_def)
  moreover have "ch_consumed ch' = ch_consumed ch"
    using w(1) by (simp add: ch')
  ultimately show ?thesis
    using assms(3) t by (auto simp: flow_inv_def)
qed

text \<open>Operations that leave the inbound accounting alone, or only give data up.\<close>

definition same_flow :: "muxChannel \<Rightarrow> muxChannel \<Rightarrow> bool" where
  "same_flow ch ch' \<longleftrightarrow> ch_myWindow ch' = ch_myWindow ch \<and> ch_consumed ch' = ch_consumed ch \<and>
     queued ch' \<le> queued ch \<and> (takes_data ch' \<longrightarrow> takes_data ch \<and> queued ch' = queued ch)"

lemma same_flow_inv: "same_flow ch ch' \<Longrightarrow> flow_inv k ch \<Longrightarrow> flow_inv k ch'"
  by (auto simp: same_flow_def flow_inv_def charged_def)

lemma same_flow_refl [simp]: "same_flow ch ch"
  by (simp add: same_flow_def)

lemma same_flow_trans: "same_flow a b \<Longrightarrow> same_flow b c \<Longrightarrow> same_flow a c"
  by (auto simp: same_flow_def)

lemma same_flow_fields:
  "ch_myWindow ch' = ch_myWindow ch \<Longrightarrow> ch_consumed ch' = ch_consumed ch \<Longrightarrow>
   ch_inQueue ch' = ch_inQueue ch \<Longrightarrow> (ch_closed ch \<longrightarrow> ch_closed ch') \<Longrightarrow> same_flow ch ch'"
  by (auto simp: same_flow_def queued_def takes_data_def)

lemma same_flow_update [simp]:
  "same_flow ch (ch\<lparr>ch_remoteWin := w\<rparr>)" "same_flow ch (ch\<lparr>ch_outDone := b\<rparr>)"
  by (simp_all add: same_flow_fields)

lemma same_flow_dead:
  "ch_myWindow ch' = ch_myWindow ch \<Longrightarrow> ch_consumed ch' = ch_consumed ch \<Longrightarrow>
   queued ch' \<le> queued ch \<Longrightarrow> \<not> takes_data ch' \<Longrightarrow> same_flow ch ch'"
  by (simp add: same_flow_def)

lemma sendClose_flow: "sendClose cd ch cn = (ch', cn') \<Longrightarrow> same_flow ch ch'"
  and sendEOF_flow: "sendEOF cd ch cn = (ch', cn') \<Longrightarrow> same_flow ch ch'"
  and closeStdin_flow: "closeStdin ch cn = (ch', cn') \<Longrightarrow> same_flow ch ch'"
  by (auto simp: sendClose_def sendEOF_def closeStdin_def intro!: same_flow_fields split: if_splits)

lemma teardownBegin_flow: "teardownBegin cd ch cn = (ch', cn') \<Longrightarrow> same_flow ch ch'"
  by (auto simp: teardownBegin_def Let_def sendClose_def intro!: same_flow_fields split: if_splits)

lemma teardownEnd_flow: "teardownEnd ch cn = (ch', cn') \<Longrightarrow> same_flow ch ch'"
  by (auto simp: teardownEnd_def Let_def closeStdin_def queued_def takes_data_def
      muxByteQueue_abort_def intro!: same_flow_dead split: if_splits prod.splits)

lemma teardown_flow: "teardown cd ch cn = (ch', cn') \<Longrightarrow> same_flow ch ch'"
  by (auto simp: teardown_def split: if_splits prod.splits
      dest: teardownBegin_flow teardownEnd_flow intro: same_flow_trans)

lemma startSession_flow: "startSession be kind ch cn = (ok, ch', cn') \<Longrightarrow> same_flow ch ch'"
  by (auto simp: startSession_def Let_def intro!: same_flow_fields split: if_splits)

lemma startAndReply_flow: "startAndReply cd be msg kind ch cn = (r, ch', cn') \<Longrightarrow> same_flow ch ch'"
  by (auto simp: startAndReply_def Let_def split: prod.splits dest: startSession_flow)

lemma handleRequest_flow: "handleRequest cd be msg ch cn = (r, ch', cn') \<Longrightarrow> same_flow ch ch'"
  by (auto simp: handleRequest_def Let_def split: if_splits option.splits prod.splits
      dest: startAndReply_flow)

lemma pumpInEnd_flow: "pumpInEnd b ch cn = (ch', cn') \<Longrightarrow> same_flow ch ch'"
  by (auto simp: pumpInEnd_def dest: closeStdin_flow split: if_splits)

lemma markEOF_flow:
  "same_flow ch (ch\<lparr>ch_gotEOF := True, ch_inQueue := muxByteQueue_markEOF (ch_inQueue ch)\<rparr>)"
  by (rule same_flow_dead) (simp_all add: queued_def takes_data_def muxQ.mark_pending muxQ.mark_accepting)

lemma abort_flow: "same_flow ch (ch\<lparr>ch_inQueue := muxByteQueue_abort (ch_inQueue ch)\<rparr>)"
  by (rule same_flow_dead)
    (simp_all add: queued_def takes_data_def muxQ.abort_pending muxQ.abort_accepting)

lemma packet_data:
  assumes "ch_handlePacket cd be pkt ch cn = (r, ch', cn', rm)" and "hd pkt = kSshMsgChannelData"
    and "ch' \<noteq> ch"
  obtains m :: sshChannelDataMsg where
    "handleData (take (unat (cd_Length m)) (cd_Rest m)) ch = Inr ch'"
  using assms by (auto simp: ch_handlePacket_def ssh_type_defs Let_def
      split: option.splits if_splits sum.splits)

lemma packet_extended:
  assumes "ch_handlePacket cd be pkt ch cn = (r, ch', cn', rm)"
    and "hd pkt = kSshMsgChannelExtendedData" and "ch' \<noteq> ch"
  obtains m :: sshChannelExtendedDataMsg and ch1 where
    "consumeWindow (ce_Length m) ch = Inr ch1"
    "replenishWindow cd (ce_Length m) ch1 cn = (r, ch', cn')"
  using assms by (auto simp: ch_handlePacket_def ssh_type_defs Let_def
      split: option.splits if_splits sum.splits prod.splits)

lemma packet_other:
  assumes "ch_handlePacket cd be pkt ch cn = (r, ch', cn', rm)"
    and "hd pkt \<noteq> kSshMsgChannelData" "hd pkt \<noteq> kSshMsgChannelExtendedData"
  shows "same_flow ch ch'"
proof -
  consider (adjust) "hd pkt = kSshMsgChannelWindowAdjust" | (eof) "hd pkt = kSshMsgChannelEOF"
    | (rest) "hd pkt \<noteq> kSshMsgChannelWindowAdjust" "hd pkt \<noteq> kSshMsgChannelEOF"
    by blast
  then show ?thesis
  proof cases
    case adjust
    with assms(1) show ?thesis
      by (auto simp: ch_handlePacket_def Let_def intro!: same_flow_fields
          split: option.splits sum.splits)
  next
    case eof
    let ?ch1 = "ch\<lparr>ch_gotEOF := True, ch_inQueue := muxByteQueue_markEOF (ch_inQueue ch)\<rparr>"
    have "same_flow ?ch1 ch'"
      using eof assms(1)
      by (auto simp: ch_handlePacket_def ssh_type_defs Let_def split: if_splits prod.splits
          dest: teardown_flow)
    then show ?thesis using markEOF_flow same_flow_trans by blast
  next
    case rest
    with assms show ?thesis
      by (auto simp: ch_handlePacket_def Let_def split: if_splits option.splits prod.splits
          dest: teardown_flow handleRequest_flow)
  qed
qed

lemma flow_packet:
  assumes p: "ch_handlePacket cd be pkt ch cn = (r, ch', cn', rm)" and inv: "flow_inv k ch"
  shows "flow_inv k ch'"
proof (cases "ch' = ch")
  case changed: False
  consider "hd pkt = kSshMsgChannelData" | "hd pkt = kSshMsgChannelExtendedData"
    | "hd pkt \<noteq> kSshMsgChannelData" "hd pkt \<noteq> kSshMsgChannelExtendedData"
    by blast
  then show ?thesis
  proof cases
    case 1
    obtain m :: sshChannelDataMsg
      where h: "handleData (take (unat (cd_Length m)) (cd_Rest m)) ch = Inr ch'"
      using packet_data [OF p 1 changed] by blast
    have "length (take (unat (cd_Length m)) (cd_Rest m)) < 2 ^ 32"
      using unat_u32_less [of "cd_Length m"] by simp
    then show ?thesis using flow_handleData [OF h] inv by blast
  next
    case 2
    obtain m :: sshChannelExtendedDataMsg and ch1
      where c: "consumeWindow (ce_Length m) ch = Inr ch1"
      and q: "replenishWindow cd (ce_Length m) ch1 cn = (r, ch', cn')"
      using packet_extended [OF p 2 changed] by blast
    have "charged (unat (ce_Length m) + k) ch1 = charged k ch" "takes_data ch1 = takes_data ch"
      "ch_consumed ch1 = ch_consumed ch"
      using consumeWindow_Inr [OF c] by (simp_all add: charged_def queued_def takes_data_def)
    with inv have "flow_inv (unat (ce_Length m) + k) ch1" by (simp add: flow_inv_def)
    with q show ?thesis by (rule flow_replenish)
  next
    case 3
    with p have "same_flow ch ch'" by (rule packet_other)
    then show ?thesis using inv by (rule same_flow_inv)
  qed
qed (use inv in simp)

section \<open>The goroutines of a channel\<close>

datatype pump_in = PiWait | PiWriting bytes | PiStopped

datatype pump_out =
    PoRead u32                       \<comment> \<open>about to read backend output\<close>
  | PoLoop u32 bytes                 \<comment> \<open>at the top of the loop of \<open>writeData\<close>\<close>
  | PoChecked u32 bytes              \<comment> \<open>\<open>closed\<close> was false\<close>
  | PoReserved u32 u32 bytes bytes   \<comment> \<open>chunk reserved, about to send it\<close>
  | PoStopped

record chan_run =
  r_ch :: muxChannel
  r_cn :: conn_io
  r_in :: pump_in
  r_outs :: "pump_out list"
  r_tearing :: bool

text \<open>
  One rule per atomic action.  A packet is handled by the read loop; the actions of the pumps,
  of \<open>waitSession\<close> and of \<open>teardown\<close> may come at any time.
\<close>

inductive chan_step :: "ssh_codec \<Rightarrow> backend \<Rightarrow> chan_run \<Rightarrow> chan_run \<Rightarrow> bool"
  for cd be where
  packet: "ch_handlePacket cd be pkt (r_ch s) (r_cn s) = (r, ch, cn, rm) \<Longrightarrow>
    chan_step cd be s (s\<lparr>r_ch := ch, r_cn := cn\<rparr>)"
| eof_mark: "chan_step cd be s (s\<lparr>r_ch := (r_ch s)\<lparr>ch_gotEOF := True,
    ch_inQueue := muxByteQueue_markEOF (ch_inQueue (r_ch s))\<rparr>\<rparr>)"
| pop: "r_in s = PiWait \<Longrightarrow> muxByteQueue_pop (ch_inQueue (r_ch s)) = Done (Some (d, q)) \<Longrightarrow>
    chan_step cd be s (s\<lparr>r_in := PiWriting d, r_ch := (r_ch s)\<lparr>ch_inQueue := q\<rparr>\<rparr>)"
| pop_end: "r_in s = PiWait \<Longrightarrow> muxByteQueue_pop (ch_inQueue (r_ch s)) = Done None \<Longrightarrow>
    pumpInEnd cw (r_ch s) (r_cn s) = (ch, cn) \<Longrightarrow>
    chan_step cd be s (s\<lparr>r_in := PiStopped, r_ch := ch, r_cn := cn\<rparr>)"
| write_in: "r_in s = PiWriting d \<Longrightarrow> pumpInWrite cd ok d (r_ch s) (r_cn s) = (go, ch, cn) \<Longrightarrow>
    chan_step cd be s (s\<lparr>r_in := if go then PiWait else PiStopped, r_ch := ch, r_cn := cn\<rparr>)"
| read_out: "i < length (r_outs s) \<Longrightarrow> r_outs s ! i = PoRead ext \<Longrightarrow>
    length d \<le> unat (ch_remoteMax (r_ch s)) \<Longrightarrow>
    chan_step cd be s (s\<lparr>r_outs := (r_outs s)[i := PoLoop ext d]\<rparr>)"
| loop_done: "i < length (r_outs s) \<Longrightarrow> r_outs s ! i = PoLoop ext [] \<Longrightarrow>
    chan_step cd be s (s\<lparr>r_outs := (r_outs s)[i := PoRead ext]\<rparr>)"
| loop_check: "i < length (r_outs s) \<Longrightarrow> r_outs s ! i = PoLoop ext d \<Longrightarrow> d \<noteq> [] \<Longrightarrow>
    chan_step cd be s (s\<lparr>r_outs := (r_outs s)[i :=
      if ch_closed (r_ch s) then PoStopped else PoChecked ext d]\<rparr>)"
| reserve: "i < length (r_outs s) \<Longrightarrow> r_outs s ! i = PoChecked ext d \<Longrightarrow>
    ch_remoteWin (r_ch s) = Some w \<Longrightarrow>
    muxWindow_reserve (of_nat (length d)) w = Done (Inr (n, w1)) \<Longrightarrow>
    chan_step cd be s (s\<lparr>r_ch := (r_ch s)\<lparr>ch_remoteWin := Some w1\<rparr>,
      r_outs := (r_outs s)[i := PoReserved ext n (take (unat n) d) (drop (unat n) d)]\<rparr>)"
| reserve_closed: "i < length (r_outs s) \<Longrightarrow> r_outs s ! i = PoChecked ext d \<Longrightarrow>
    ch_remoteWin (r_ch s) = Some w \<Longrightarrow>
    muxWindow_reserve (of_nat (length d)) w = Done (Inl e) \<Longrightarrow>
    chan_step cd be s (s\<lparr>r_outs := (r_outs s)[i := PoStopped]\<rparr>)"
| send_out: "i < length (r_outs s) \<Longrightarrow> r_outs s ! i = PoReserved ext n chunk rest \<Longrightarrow>
    conn_send cd (dataMsg ext (r_ch s) n chunk) (r_cn s) = (r, cn) \<Longrightarrow>
    chan_step cd be s (s\<lparr>r_cn := cn,
      r_outs := (r_outs s)[i := if r = Inr () then PoLoop ext rest else PoStopped]\<rparr>)"
| out_done: "chan_step cd be s (s\<lparr>r_ch := (r_ch s)\<lparr>ch_outDone := True\<rparr>\<rparr>)"
| send_status: "\<not> ch_closed (r_ch s) \<Longrightarrow>
    conn_send cd (ChannelRequest \<lparr>cr_PeersID = ch_remoteID (r_ch s), cr_Request = ''exit-status'',
      cr_WantReply = False, cr_RequestSpecificData = m_exitStatus cd code\<rparr>) (r_cn s) = (r, cn) \<Longrightarrow>
    chan_step cd be s (s\<lparr>r_cn := cn\<rparr>)"
| send_eof: "sendEOF cd (r_ch s) (r_cn s) = (ch, cn) \<Longrightarrow>
    chan_step cd be s (s\<lparr>r_ch := ch, r_cn := cn\<rparr>)"
| tear_begin: "\<not> ch_closeOnce (r_ch s) \<Longrightarrow> teardownBegin cd (r_ch s) (r_cn s) = (ch, cn) \<Longrightarrow>
    chan_step cd be s (s\<lparr>r_ch := ch, r_cn := cn, r_tearing := True\<rparr>)"
| tear_end: "r_tearing s \<Longrightarrow> teardownEnd (r_ch s) (r_cn s) = (ch, cn) \<Longrightarrow>
    chan_step cd be s (s\<lparr>r_ch := ch, r_cn := cn, r_tearing := False\<rparr>)"

inductive_cases chan_step_cases: "chan_step cd be s s'"

text \<open>A channel right after \<open>bindChannel\<close>: bound to the peer, its pumps about to start.\<close>

definition chan_start :: "muxChannel \<Rightarrow> conn_io \<Rightarrow> u32 list \<Rightarrow> chan_run" where
  "chan_start ch cn exts =
     \<lparr>r_ch = ch, r_cn = cn, r_in = PiWait, r_outs = map PoRead exts, r_tearing = False\<rparr>"

definition fresh_channel :: "muxChannel \<Rightarrow> bool" where
  "fresh_channel ch \<longleftrightarrow> ch_myWindow ch = kMuxChannelWindowSize \<and> ch_consumed ch = 0 \<and>
     ch_inQueue ch = newMuxByteQueue \<and> \<not> ch_sentEOF ch \<and> \<not> ch_sentClose ch \<and> \<not> ch_closeOnce ch \<and>
     \<not> ch_closed ch"

inductive chan_reach :: "ssh_codec \<Rightarrow> backend \<Rightarrow> chan_run \<Rightarrow> bool"
  for cd be where
  start: "fresh_channel ch \<Longrightarrow> cn_out cn = [] \<Longrightarrow> chan_reach cd be (chan_start ch cn exts)"
| step: "chan_reach cd be s \<Longrightarrow> chan_step cd be s s' \<Longrightarrow> chan_reach cd be s'"

fun inflight :: "pump_in \<Rightarrow> nat" where
  "inflight (PiWriting d) = length d"
| "inflight _ = 0"

definition flow_ok :: "chan_run \<Rightarrow> bool" where
  "flow_ok s \<longleftrightarrow> flow_inv (inflight (r_in s)) (r_ch s)"

lemma flow_pumpInWrite:
  assumes "pumpInWrite cd ok d ch cn = (go, ch', cn')" and "flow_inv (length d) ch"
  shows "flow_inv 0 ch'"
proof (cases ok)
  case True
  with assms(1) obtain r where r: "replenishWindow cd (of_nat (length d)) ch (emit [FxWrite d] cn)
      = (r, ch', cn')"
    by (auto simp: pumpInWrite_def split: prod.splits)
  have "unat (of_nat (length d) :: u32) = length d"
    using assms(2) by (intro unat_of_nat_u32) (simp add: flow_inv_def charged_def)
  with assms(2) show ?thesis by (intro flow_replenish [OF r]) simp
next
  case False
  let ?ch1 = "ch\<lparr>ch_inQueue := muxByteQueue_abort (ch_inQueue ch)\<rparr>"
  have "flow_inv 0 ?ch1"
    using assms(2) by (simp add: flow_inv_def charged_def queued_def takes_data_def
        muxQ.abort_pending muxQ.abort_accepting)
  moreover have "same_flow ?ch1 ch'"
    using False assms(1)
    by (auto simp: pumpInWrite_def Let_def split: if_splits prod.splits dest: teardown_flow)
  ultimately show ?thesis using same_flow_inv by blast
qed

lemma same_flow_step:
  "flow_ok s \<Longrightarrow> same_flow (r_ch s) (r_ch s') \<Longrightarrow> inflight (r_in s') = inflight (r_in s) \<Longrightarrow> flow_ok s'"
  unfolding flow_ok_def by (simp add: same_flow_inv)

lemma chan_step_flow: "chan_step cd be s s' \<Longrightarrow> flow_ok s \<Longrightarrow> flow_ok s'"
proof (induction rule: chan_step.induct)
  case (packet pkt s r ch cn rm)
  then show ?case using flow_packet by (simp add: flow_ok_def)
next
  case (eof_mark s)
  then show ?case using same_flow_step markEOF_flow by fastforce
next
  case (pop s d q)
  then show ?case using muxQ.pop_Some [OF pop(2)]
    by (auto simp: flow_ok_def flow_inv_def charged_def queued_def takes_data_def)
next
  case (write_in s d ok go ch cn)
  then show ?case using flow_pumpInWrite [OF write_in(2)] by (simp add: flow_ok_def)
qed (auto elim!: same_flow_step dest: pumpInEnd_flow sendEOF_flow teardownBegin_flow teardownEnd_flow)

lemma chan_reach_flow: "chan_reach cd be s \<Longrightarrow> flow_ok s"
proof (induction rule: chan_reach.induct)
  case (start ch cn exts)
  then show ?case
    by (simp add: flow_ok_def chan_start_def fresh_channel_def flow_inv_def charged_def queued_def
        newMuxByteQueue_def)
next
  case (step s s')
  then show ?case by (blast intro: chan_step_flow)
qed

end
