(* ===== verification/MuxWire.thy ===== *)
theory MuxWire
  imports MuxMsg
begin

text \<open>
  A concrete instance of the codec parameter, after the message formats of RFC 4254 with the data
  types of RFC 4251: strings and integers big-endian with their length, a boolean as one byte, a
  trailing \<open>rest\<close> field as it is.  It is not a model of golang.org/x/crypto/ssh; the witnesses use
  it to run the proxy on concrete packets.
\<close>

definition w_str :: "string \<Rightarrow> bytes" where
  "w_str s = AppendUint32 [] (of_nat (length s)) @ bytes_of_string s"

definition w_u32 :: "u32 \<Rightarrow> bytes" where
  "w_u32 v = AppendUint32 [] v"

definition w_bool :: "bool \<Rightarrow> bytes" where
  "w_bool b = [if b then 1 else 0]"

fun wire_msg :: "ssh_msg \<Rightarrow> bytes" where
  "wire_msg (RequestSuccess d) = 81 # d"
| "wire_msg (RequestFailure d) = 82 # d"
| "wire_msg (ChannelOpen m) = 90 # w_str (co_ChanType m) @ w_u32 (co_PeersID m) @
     w_u32 (co_PeersWindow m) @ w_u32 (co_MaxPacketSize m) @ co_TypeSpecificData m"
| "wire_msg (ChannelOpenConfirm m) = 91 # w_u32 (cc_PeersID m) @ w_u32 (cc_MyID m) @
     w_u32 (cc_MyWindow m) @ w_u32 (cc_MaxPacketSize m) @ cc_TypeSpecificData m"
| "wire_msg (ChannelOpenFailure m) = 92 # w_u32 (cf_PeersID m) @ w_u32 (cf_Reason m) @
     w_str (cf_Message m) @ w_str (cf_Language m)"
| "wire_msg (WindowAdjust m) = 93 # w_u32 (wa_PeersID m) @ w_u32 (wa_AdditionalBytes m)"
| "wire_msg (ChannelData m) = 94 # w_u32 (cd_PeersID m) @ w_u32 (cd_Length m) @ cd_Rest m"
| "wire_msg (ChannelExtendedData m) = 95 # w_u32 (ce_PeersID m) @ w_u32 (ce_Datatype m) @
     w_u32 (ce_Length m) @ ce_Rest m"
| "wire_msg (ChannelEOF i) = 96 # w_u32 i"
| "wire_msg (ChannelClose i) = 97 # w_u32 i"
| "wire_msg (ChannelRequest m) = 98 # w_u32 (cr_PeersID m) @ w_str (cr_Request m) @
     w_bool (cr_WantReply m) @ cr_RequestSpecificData m"
| "wire_msg (ChannelSuccess i) = 99 # w_u32 i"
| "wire_msg (ChannelFailure i) = 100 # w_u32 i"

definition r_u32 :: "bytes \<Rightarrow> (u32 \<times> bytes) option" where
  "r_u32 b = (case muxReadUint32 b of (None, _) \<Rightarrow> None | (Some v, r) \<Rightarrow> Some (v, r))"

definition r_str :: "bytes \<Rightarrow> (string \<times> bytes) option" where
  "r_str b = (case muxReadString b of (None, _) \<Rightarrow> None | (Some v, r) \<Rightarrow> Some (v, r))"

fun r_bool :: "bytes \<Rightarrow> (bool \<times> bytes) option" where
  "r_bool [] = None"
| "r_bool (x # r) = Some (x \<noteq> 0, r)"

fun r_tag :: "byte \<Rightarrow> bytes \<Rightarrow> bytes option" where
  "r_tag t [] = None"
| "r_tag t (x # r) = (if x = t then Some r else None)"

definition r_end :: "'a \<times> bytes \<Rightarrow> 'a option" where
  "r_end p = (if snd p = [] then Some (fst p) else None)"

definition wire_codec :: ssh_codec where
  "wire_codec =
    \<lparr>m_msg = wire_msg,
     m_forwardedTcpip = (\<lambda>p. w_str (ft_Addr p) @ w_u32 (ft_Port p) @ w_str (ft_OriginAddr p) @
       w_u32 (ft_OriginPort p)),
     m_forwardedStreamLocal = (\<lambda>p. w_str p @ w_str []),
     m_exitStatus = w_u32,
     m_port = w_u32,
     u_globalRequest = (\<lambda>b. Option.bind (r_tag 80 b) (\<lambda>b. Option.bind (r_str b) (\<lambda>(t, b).
       Option.bind (r_bool b) (\<lambda>(w, b). Some \<lparr>gr_Type = t, gr_WantReply = w, gr_Data = b\<rparr>)))),
     u_channelOpen = (\<lambda>b. Option.bind (r_tag 90 b) (\<lambda>b. Option.bind (r_str b) (\<lambda>(t, b).
       Option.bind (r_u32 b) (\<lambda>(i, b). Option.bind (r_u32 b) (\<lambda>(w, b).
       Option.bind (r_u32 b) (\<lambda>(m, b). Some \<lparr>co_ChanType = t, co_PeersID = i,
         co_PeersWindow = w, co_MaxPacketSize = m, co_TypeSpecificData = b\<rparr>)))))),
     u_openConfirm = (\<lambda>b. Option.bind (r_tag 91 b) (\<lambda>b. Option.bind (r_u32 b) (\<lambda>(p, b).
       Option.bind (r_u32 b) (\<lambda>(i, b). Option.bind (r_u32 b) (\<lambda>(w, b).
       Option.bind (r_u32 b) (\<lambda>(m, b). Some \<lparr>cc_PeersID = p, cc_MyID = i, cc_MyWindow = w,
         cc_MaxPacketSize = m, cc_TypeSpecificData = b\<rparr>)))))),
     u_openFailure = (\<lambda>b. Option.bind (r_tag 92 b) (\<lambda>b. Option.bind (r_u32 b) (\<lambda>(p, b).
       Option.bind (r_u32 b) (\<lambda>(r, b). Option.bind (r_str b) (\<lambda>(m, b).
       Option.bind (r_str b) (\<lambda>(l, b). r_end (\<lparr>cf_PeersID = p, cf_Reason = r, cf_Message = m,
         cf_Language = l\<rparr>, b))))))),
     u_windowAdjust = (\<lambda>b. Option.bind (r_tag 93 b) (\<lambda>b. Option.bind (r_u32 b) (\<lambda>(p, b).
       Option.bind (r_u32 b) (\<lambda>(n, b). r_end (\<lparr>wa_PeersID = p, wa_AdditionalBytes = n\<rparr>, b))))),
     u_channelData = (\<lambda>b. Option.bind (r_tag 94 b) (\<lambda>b. Option.bind (r_u32 b) (\<lambda>(p, b).
       Option.bind (r_u32 b) (\<lambda>(n, b). Some \<lparr>cd_PeersID = p, cd_Length = n, cd_Rest = b\<rparr>)))),
     u_extendedData = (\<lambda>b. Option.bind (r_tag 95 b) (\<lambda>b. Option.bind (r_u32 b) (\<lambda>(p, b).
       Option.bind (r_u32 b) (\<lambda>(d, b). Option.bind (r_u32 b) (\<lambda>(n, b). Some \<lparr>ce_PeersID = p,
         ce_Datatype = d, ce_Length = n, ce_Rest = b\<rparr>))))),
     u_channelRequest = (\<lambda>b. Option.bind (r_tag 98 b) (\<lambda>b. Option.bind (r_u32 b) (\<lambda>(p, b).
       Option.bind (r_str b) (\<lambda>(r, b). Option.bind (r_bool b) (\<lambda>(w, b). Some \<lparr>cr_PeersID = p,
         cr_Request = r, cr_WantReply = w, cr_RequestSpecificData = b\<rparr>))))),
     u_tcpipForward = (\<lambda>b. Option.bind (r_str b) (\<lambda>(a, b). Option.bind (r_u32 b) (\<lambda>(p, b).
       r_end (\<lparr>tf_Addr = a, tf_Port = p\<rparr>, b)))),
     u_streamLocalForward = (\<lambda>b. Option.bind (r_str b) r_end),
     u_directTcpip = (\<lambda>b. Option.bind (r_str b) (\<lambda>(ra, b). Option.bind (r_u32 b) (\<lambda>(rp, b).
       Option.bind (r_str b) (\<lambda>(la, b). Option.bind (r_u32 b) (\<lambda>(lp, b).
       r_end (\<lparr>dt_RAddr = ra, dt_RPort = rp, dt_LAddr = la, dt_LPort = lp\<rparr>, b)))))),
     u_directStreamLocal = (\<lambda>b. Option.bind (r_str b) (\<lambda>(p, b). Option.bind (r_str b) (\<lambda>(_, b).
       Option.bind (r_u32 b) (\<lambda>(_, b). r_end (p, b))))),
     u_ptyRequest = (\<lambda>b. Option.bind (r_str b) (\<lambda>(t, b). Option.bind (r_u32 b) (\<lambda>(c, b).
       Option.bind (r_u32 b) (\<lambda>(r, b). Option.bind (r_u32 b) (\<lambda>(w, b).
       Option.bind (r_u32 b) (\<lambda>(h, b). Option.bind (r_str b) (\<lambda>(m, b).
       r_end (\<lparr>pty_Term = t, pty_Columns = c, pty_Rows = r, pty_Width = w, pty_Height = h,
         pty_Modelist = bytes_of_string m\<rparr>, b)))))))),
     u_env = (\<lambda>b. Option.bind (r_str b) (\<lambda>(n, b). Option.bind (r_str b) (\<lambda>(v, b).
       r_end (\<lparr>env_Name = n, env_Value = v\<rparr>, b)))),
     u_exec = (\<lambda>b. Option.bind (r_str b) r_end),
     u_subsystem = (\<lambda>b. Option.bind (r_str b) r_end),
     u_windowChange = (\<lambda>b. Option.bind (r_u32 b) (\<lambda>(c, b). Option.bind (r_u32 b) (\<lambda>(r, b).
       Option.bind (r_u32 b) (\<lambda>(w, b). Option.bind (r_u32 b) (\<lambda>(h, b).
       r_end (\<lparr>wc_Columns = c, wc_Rows = r, wc_Width = w, wc_Height = h\<rparr>, b))))))\<rparr>"

lemma r_u32_w [wire_simps]: "r_u32 (w_u32 v @ r) = Some (v, r)" "r_u32 (w_u32 v) = Some (v, [])"
  by (simp_all add: r_u32_def w_u32_def wire_simps)

lemma r_str_w [wire_simps]:
  assumes "length s < 4294967296"
  shows "r_str (w_str s @ r) = Some (s, r)" "r_str (w_str s) = Some (s, [])"
  using muxReadString_append [OF assms, of r] muxReadString_append [OF assms, of "[]"]
  by (simp_all add: r_str_def w_str_def)

lemma length_w [simp]: "length (w_u32 v) = 4" "length (w_str s) = 4 + length s"
  by (simp_all add: w_u32_def w_str_def)

end
