(* ===== verification/MuxChannelSend.thy ===== *)
theory MuxChannelSend
  imports MuxChannelProps MuxWire
begin

text \<open>
  The outbound side of the proxy channel: what is logged as sent is what stands on the wire, EOF
  and CLOSE are sent at most once in every interleaving, \<open>writeData\<close> sends exactly its data
  within the peer's window, and \<open>pumpIn\<close> hands the backend exactly what was queued.
\<close>

section \<open>Sending\<close>

lemma conn_send_out:
  "conn_send cd msg cn = (r, cn') \<Longrightarrow>
     cn_out cn' = cn_out cn @ (if r = Inr () then [msg] else []) \<and> cn_fx cn' = cn_fx cn \<and>
     cn_closed cn' = cn_closed cn"
  by (auto simp: conn_send_def split: if_splits prod.splits sum.splits)

lemma emit_simps [simp]:
  "cn_out (emit es cn) = cn_out cn" "cn_sock (emit es cn) = cn_sock cn"
  "cn_closed (emit es cn) = cn_closed cn" "cn_fx (emit es cn) = cn_fx cn @ es"
  by (simp_all add: emit_def)

text \<open>The socket carries the packets of the logged messages and nothing else.\<close>

definition wire_ok :: "ssh_codec \<Rightarrow> conn_io \<Rightarrow> bool" where
  "wire_ok cd cn \<longleftrightarrow>
     (\<forall>m\<in>set (cn_out cn). length (m_msg cd m) + 1 \<le> kMuxMaxPacket) \<and>
     prefix (concat (map (\<lambda>m. sshPacketBuf (m_msg cd m)) (cn_out cn))) (sk_out (cn_sock cn)) \<and>
     (sock_room (cn_sock cn) 1 \<longrightarrow>
        sk_out (cn_sock cn) = concat (map (\<lambda>m. sshPacketBuf (m_msg cd m)) (cn_out cn)))"

lemma sock_write_ok_room:
  "sock_write s d = (Inr n, s') \<Longrightarrow> d \<noteq> [] \<Longrightarrow> sock_room s 1 \<and> sk_out s' = sk_out s @ d"
  by (cases d) (auto simp: sock_write_def sock_room_def split: if_splits option.splits)

lemma sock_write_err_room:
  "sock_write s d = (Inl e, s') \<Longrightarrow> \<not> sock_room s' 1 \<and> prefix (sk_out s) (sk_out s')"
  by (auto simp: sock_write_def sock_room_def split: if_splits option.splits)

lemma sshPacketBuf_ne [simp]: "sshPacketBuf p \<noteq> []"
  by (simp add: sshPacketBuf_def)

lemma conn_send_wire:
  assumes "conn_send cd msg cn = (r, cn')" and "wire_ok cd cn"
  shows "wire_ok cd cn'"
proof (cases "cn_closed cn \<or> length (m_msg cd msg) + 1 > kMuxMaxPacket")
  case True
  with assms show ?thesis by (auto simp: conn_send_def writeSshPacket_def split: if_splits)
next
  case False
  obtain q s' where q: "sock_write (cn_sock cn) (sshPacketBuf (m_msg cd msg)) = (q, s')"
    by fastforce
  show ?thesis
  proof (cases q)
    case (Inl e)
    then have "cn' = cn\<lparr>cn_sock := s'\<rparr>"
      using assms(1) False q by (simp add: conn_send_def writeSshPacket_def)
    with sock_write_err_room [of "cn_sock cn" _ e s'] q Inl assms(2) show ?thesis
      by (auto simp: wire_ok_def intro: prefix_order.trans)
  next
    case (Inr n)
    then have "cn' = cn\<lparr>cn_sock := s', cn_out := cn_out cn @ [msg]\<rparr>"
      using assms(1) False q by (simp add: conn_send_def writeSshPacket_def)
    with sock_write_ok_room [of "cn_sock cn" _ n s'] q Inr False assms(2) show ?thesis
      by (auto simp: wire_ok_def)
  qed
qed

section \<open>At most one EOF and one CLOSE\<close>

fun is_eof :: "ssh_msg \<Rightarrow> bool" where
  "is_eof (ChannelEOF _) = True" | "is_eof _ = False"

fun is_close :: "ssh_msg \<Rightarrow> bool" where
  "is_close (ChannelClose _) = True" | "is_close _ = False"

fun is_data :: "ssh_msg \<Rightarrow> bool" where
  "is_data (ChannelData _) = True" | "is_data (ChannelExtendedData _) = True" | "is_data _ = False"

definition count_msg :: "(ssh_msg \<Rightarrow> bool) \<Rightarrow> conn_io \<Rightarrow> nat" where
  "count_msg P cn = length (filter P (cn_out cn))"

definition sent_once :: "muxChannel \<Rightarrow> conn_io \<Rightarrow> bool" where
  "sent_once ch cn \<longleftrightarrow> count_msg is_eof cn \<le> of_bool (ch_sentEOF ch) \<and>
     count_msg is_close cn \<le> of_bool (ch_sentClose ch)"

lemma count_msg_send:
  "conn_send cd msg cn = (r, cn') \<Longrightarrow>
     count_msg P cn' \<le> count_msg P cn + of_bool (P msg)"
  using conn_send_out [of cd msg cn r cn'] by (auto simp: count_msg_def)

lemma count_msg_emit [simp]: "count_msg P (emit es cn) = count_msg P cn"
  by (simp add: count_msg_def)

lemma send_other_once:
  assumes "conn_send cd msg cn = (r, cn')" "\<not> is_eof msg" "\<not> is_close msg" "sent_once ch cn"
  shows "sent_once ch cn'"
  using count_msg_send [OF assms(1), of is_eof] count_msg_send [OF assms(1), of is_close] assms
  by (simp add: sent_once_def)

text \<open>Only \<open>sendEOF\<close> and \<open>sendClose\<close> touch the two flags.\<close>

lemma sent_once_cong:
  "ch_sentEOF ch' = ch_sentEOF ch \<Longrightarrow> ch_sentClose ch' = ch_sentClose ch \<Longrightarrow>
   sent_once ch' cn = sent_once ch cn"
  by (simp add: sent_once_def)

lemma sendEOF_once: "sendEOF cd ch cn = (ch', cn') \<Longrightarrow> sent_once ch cn \<Longrightarrow> sent_once ch' cn'"
  using count_msg_send [of cd "ChannelEOF (ch_remoteID ch)" cn _ cn' is_eof]
    count_msg_send [of cd "ChannelEOF (ch_remoteID ch)" cn _ cn' is_close]
  by (cases "conn_send cd (ChannelEOF (ch_remoteID ch)) cn")
    (auto simp: sendEOF_def sent_once_def split: if_splits)

lemma sendClose_once: "sendClose cd ch cn = (ch', cn') \<Longrightarrow> sent_once ch cn \<Longrightarrow> sent_once ch' cn'"
  using count_msg_send [of cd "ChannelClose (ch_remoteID ch)" cn _ cn' is_eof]
    count_msg_send [of cd "ChannelClose (ch_remoteID ch)" cn _ cn' is_close]
  by (cases "conn_send cd (ChannelClose (ch_remoteID ch)) cn")
    (auto simp: sendClose_def sent_once_def split: if_splits)

lemma closeStdin_once: "closeStdin ch cn = (ch', cn') \<Longrightarrow> sent_once ch cn \<Longrightarrow> sent_once ch' cn'"
  by (auto simp: closeStdin_def sent_once_def split: if_splits)

lemma teardownBegin_once:
  assumes "teardownBegin cd ch cn = (ch', cn')" and "sent_once ch cn"
  shows "sent_once ch' cn'"
proof -
  have "sent_once (ch\<lparr>ch_closeOnce := True\<rparr>) cn" using assms(2) by (simp add: sent_once_def)
  with assms(1) show ?thesis
    by (auto simp: teardownBegin_def Let_def split: if_splits dest: sendClose_once)
qed

lemma teardownEnd_once: "teardownEnd ch cn = (ch', cn') \<Longrightarrow> sent_once ch cn \<Longrightarrow> sent_once ch' cn'"
  by (auto simp: teardownEnd_def Let_def closeStdin_def sent_once_def split: if_splits prod.splits)

lemma teardown_once: "teardown cd ch cn = (ch', cn') \<Longrightarrow> sent_once ch cn \<Longrightarrow> sent_once ch' cn'"
  by (auto simp: teardown_def split: if_splits prod.splits
      dest!: teardownEnd_once dest: teardownBegin_once)

lemma replenishWindow_once:
  assumes "replenishWindow cd n ch cn = (r, ch', cn')" and "sent_once ch cn"
  shows "sent_once ch' cn'"
proof -
  have "cn' = cn \<or> (\<exists>m q. conn_send cd (WindowAdjust m) cn = (q, cn'))"
    and "sent_once ch' cn' = sent_once ch cn'"
    using assms(1)
    by (auto simp: replenishWindow_def Let_def sent_once_def split: if_splits prod.splits)
  then show ?thesis using assms(2) send_other_once by fastforce
qed

lemma handleData_flags:
  "handleData d ch = Inr ch' \<Longrightarrow> ch_sentEOF ch' = ch_sentEOF ch \<and> ch_sentClose ch' = ch_sentClose ch"
  by (auto simp: handleData_def consumeWindow_def split: if_splits sum.splits)

lemma ch_reply_once:
  "ch_reply cd msg ok ch cn = (r, cn') \<Longrightarrow> sent_once ch' cn \<Longrightarrow> sent_once ch' cn'"
  by (auto simp: ch_reply_def split: if_splits dest!: send_other_once)

lemma startAndReply_once:
  "startAndReply cd be msg kind ch cn = (r, ch', cn') \<Longrightarrow> sent_once ch cn \<Longrightarrow> sent_once ch' cn'"
  by (auto simp: startAndReply_def startSession_def Let_def split: if_splits prod.splits
      dest!: ch_reply_once [of _ _ _ _ _ _ _ ch'] simp: sent_once_def)

lemma handleRequest_once:
  assumes "handleRequest cd be msg ch cn = (r, ch', cn')" and "sent_once ch cn"
  shows "sent_once ch' cn'"
proof -
  have e: "sent_once ch (emit es cn)" for es using assms(2) by (simp add: sent_once_def)
  show ?thesis
    using assms e
    by (auto simp: handleRequest_def Let_def split: if_splits option.splits prod.splits
        dest: startAndReply_once ch_reply_once)
qed

lemma packet_once:
  assumes p: "ch_handlePacket cd be pkt ch cn = (r, ch', cn', rm)" and inv: "sent_once ch cn"
  shows "sent_once ch' cn'"
proof -
  let ?eof = "ch\<lparr>ch_gotEOF := True, ch_inQueue := muxByteQueue_markEOF (ch_inQueue ch)\<rparr>"
  have e: "sent_once ?eof cn" and c: "consumeWindow n ch = Inr ch1 \<Longrightarrow> sent_once ch1 cn" for n ch1
    using inv by (auto simp: sent_once_def consumeWindow_def split: if_splits)
  have h: "handleData d ch = Inr ch1 \<Longrightarrow> sent_once ch1 cn" for d ch1
    using inv by (auto simp: sent_once_def dest: handleData_flags)
  have w: "sent_once (ch\<lparr>ch_remoteWin := x\<rparr>) cn" for x
    using inv by (simp add: sent_once_def)
  show ?thesis
    using p inv e c h w
    by (auto simp: ch_handlePacket_def Let_def split: if_splits option.splits sum.splits prod.splits
        dest: teardown_once handleRequest_once replenishWindow_once)
qed

lemma pumpInWrite_once:
  assumes "pumpInWrite cd ok d ch cn = (go, ch', cn')" and "sent_once ch cn"
  shows "sent_once ch' cn'"
proof -
  have "sent_once (ch\<lparr>ch_inQueue := q\<rparr>) cn" "sent_once ch (emit es cn)" for q es
    using assms(2) by (simp_all add: sent_once_def)
  with assms show ?thesis
    by (auto simp: pumpInWrite_def Let_def split: if_splits prod.splits
        dest: teardown_once replenishWindow_once)
qed

lemma dataMsg_plain [simp]:
  "\<not> is_eof (dataMsg ext ch n c)" "\<not> is_close (dataMsg ext ch n c)" "is_data (dataMsg ext ch n c)"
  by (simp_all add: dataMsg_def)

lemma chan_step_once:
  "chan_step cd be s s' \<Longrightarrow> sent_once (r_ch s) (r_cn s) \<Longrightarrow> sent_once (r_ch s') (r_cn s')"
proof (induction rule: chan_step.induct)
  case (packet pkt s r ch cn rm)
  then show ?case using packet_once by simp
next
  case (pop_end s cw ch cn)
  then show ?case
    by (auto simp: pumpInEnd_def sent_once_def closeStdin_def split: if_splits)
next
  case (write_in s d ok go ch cn)
  then show ?case using pumpInWrite_once by simp
next
  case (send_out i s ext n chunk rest r cn)
  then show ?case using send_other_once by simp
next
  case (send_status s code r cn)
  then show ?case using send_other_once [OF send_status(2)] by simp
next
  case (send_eof s ch cn)
  then show ?case using sendEOF_once by simp
next
  case (tear_begin s ch cn)
  then show ?case using teardownBegin_once by simp
next
  case (tear_end s ch cn)
  then show ?case using teardownEnd_once by simp
qed (simp_all add: sent_once_def)

lemma chan_reach_once: "chan_reach cd be s \<Longrightarrow> sent_once (r_ch s) (r_cn s)"
proof (induction rule: chan_reach.induct)
  case (start ch cn exts)
  then show ?case by (simp add: sent_once_def count_msg_def chan_start_def)
next
  case (step s s')
  then show ?case by (blast intro: chan_step_once)
qed

section \<open>The outbound data path\<close>

definition send_credit :: "muxChannel \<Rightarrow> nat" where
  "send_credit ch = (case ch_remoteWin ch of None \<Rightarrow> 0 | Some w \<Rightarrow> unat (win_avail w))"

lemma send_credit_update [simp]:
  "send_credit (ch\<lparr>ch_remoteWin := Some w\<rparr>) = unat (win_avail w)"
  "dataMsg ext (ch\<lparr>ch_remoteWin := v\<rparr>) = dataMsg ext ch"
  by (simp_all add: send_credit_def dataMsg_def fun_eq_iff)

text \<open>What a call of \<open>writeData\<close> has put on the log: the chunks, how far they got, and what
  they cost.\<close>

definition wrote ::
  "u32 \<Rightarrow> bytes \<Rightarrow> u32 list \<Rightarrow> muxChannel \<Rightarrow> conn_io \<Rightarrow> wd_result \<Rightarrow> u32 list \<Rightarrow> muxChannel \<Rightarrow>
   conn_io \<Rightarrow> bytes list \<Rightarrow> bool" where
  "wrote ext data gs ch cn res gs' ch' cn' chunks \<longleftrightarrow>
     cn_out cn' = cn_out cn @ map (\<lambda>c. dataMsg ext ch (of_nat (length c)) c) chunks \<and>
     prefix (concat chunks) data \<and> (res = WdOk \<longrightarrow> concat chunks = data) \<and>
     [] \<notin> set chunks \<and> res \<noteq> WdSpin \<and>
     length (concat chunks) + send_credit ch' + sum_list (map unat gs')
       \<le> send_credit ch + sum_list (map unat gs)"

lemma wrote_cons:
  assumes "wrote ext (drop k data) gs (ch\<lparr>ch_remoteWin := Some w1\<rparr>) cn1 res gs' ch' cn' chunks"
    and "cn_out cn1 = cn_out cn @ [dataMsg ext ch n (take k data)]"
    and "k = unat n" "0 < k" "k \<le> length data" "send_credit ch = unat (win_avail w1) + k"
  shows "wrote ext data gs ch cn res gs' ch' cn' (take k data # chunks)"
proof -
  have "of_nat (length (take k data)) = n" using assms(3,5) by (simp add: min_absorb2)
  moreover have "take k data \<noteq> []" using assms(4,5) by auto
  moreover have "prefix (take k data @ concat chunks) data"
    using assms(1) by (metis append_take_drop_id same_prefix_prefix wrote_def)
  moreover have "length (take k data) = k" using assms(5) by simp
  moreover have "res = WdOk \<Longrightarrow> take k data @ concat chunks = data"
    using assms(1) by (simp add: wrote_def)
  ultimately show ?thesis using assms(1,2,6) by (auto simp: wrote_def)
qed

lemma wrote_grant:
  assumes "wrote ext data gs (ch\<lparr>ch_remoteWin := Some w1\<rparr>) cn res gs' ch' cn' chunks"
    and "unat (win_avail w1) = send_credit ch + unat g"
  shows "wrote ext data (g # gs) ch cn res gs' ch' cn' chunks"
  using assms by (simp add: wrote_def)

lemma wrote_stop:
  assumes "cn_out cn' = cn_out cn" "res \<noteq> WdSpin" "res = WdOk \<longrightarrow> data = []"
    and "send_credit ch' \<le> send_credit ch"
  shows "wrote ext data gs ch cn res gs ch' cn' []"
  using assms by (simp add: wrote_def)

lemma writeData_wrote:
  assumes "writeData cd ext data gs ch cn = (res, gs', ch', cn')" and "length data < 2 ^ 32"
  shows "\<exists>chunks. wrote ext data gs ch cn res gs' ch' cn' chunks"
  using assms
proof (induction cd ext data gs ch cn rule: writeData.induct)
  case (1 cd ext data gs ch cn)
  note eq = "1.prems"(1) [unfolded writeData.simps [of cd ext data gs ch cn]]
  show ?case
  proof (cases "data = [] \<or> ch_closed ch \<or> ch_remoteWin ch = None")
    case True
    with eq show ?thesis
      by (intro exI [of _ "[]"]) (auto intro!: wrote_stop split: if_splits)
  next
    case False
    then obtain w where w: "ch_remoteWin ch = Some w" and ne: "data \<noteq> []" "\<not> ch_closed ch" by auto
    have c: "send_credit ch = unat (win_avail w)" using w by (simp add: send_credit_def)
    show ?thesis
    proof (cases "muxWindow_reserve (of_nat (length data)) w")
      case Blocked
      show ?thesis
      proof (cases gs)
        case Nil
        with eq Blocked w ne show ?thesis
          by (intro exI [of _ "[]"]) (auto intro!: wrote_stop)
      next
        case (Cons g gs1)
        have "unat (win_avail w) = 0" using Blocked by (rule muxWin.reserve_blocks)
        then obtain w1 where a: "muxWindow_add g w = Inr w1"
          using unat_u32_less [of g] by (auto simp: muxWindow_add_def)
        then have "writeData cd ext data gs1 (ch\<lparr>ch_remoteWin := Some w1\<rparr>) cn = (res, gs', ch', cn')"
          using eq Blocked w ne Cons by simp
        then obtain chunks where
          "wrote ext data gs1 (ch\<lparr>ch_remoteWin := Some w1\<rparr>) cn res gs' ch' cn' chunks"
          using "1.IH"(2) [OF _ _ w Blocked Cons a] "1.prems"(2) ne by blast
        then show ?thesis
          using wrote_grant muxWin.add_credit [OF a] c Cons by metis
      qed
    next
      case (Done r)
      show ?thesis
      proof (cases r)
        case (Inl e)
        with eq Done w ne show ?thesis
          by (intro exI [of _ "[]"]) (auto intro!: wrote_stop)
      next
        case (Inr nw)
        then obtain n w1 where r: "muxWindow_reserve (of_nat (length data)) w = Done (Inr (n, w1))"
          using Done by (cases nw) auto
        have len: "unat (of_nat (length data) :: u32) = length data"
          using "1.prems"(2) by (simp add: unat_of_nat_u32)
        then have want: "(of_nat (length data) :: u32) \<noteq> 0"
          using ne by (metis length_0_conv unat_0)
        have n: "unat n \<noteq> 0" "unat n \<le> length data" "unat (win_avail w) = unat (win_avail w1) + unat n"
          using muxWin.reserve_progress [OF r want] muxWin.reserve_credit [OF r] len
          by (simp_all add: unat_eq_0)
        obtain q cn1 where q: "conn_send cd (dataMsg ext ch n (take (unat n) data)) cn = (q, cn1)"
          by fastforce
        show ?thesis
        proof (cases q)
          case (Inl e)
          with eq r w ne q n conn_send_out [OF q] c show ?thesis
            by (intro exI [of _ "[]"]) (auto simp: Let_def intro!: wrote_stop)
        next
          case (Inr u)
          with eq r w ne q n
          have rec: "writeData cd ext (drop (unat n) data) gs (ch\<lparr>ch_remoteWin := Some w1\<rparr>) cn1
              = (res, gs', ch', cn')"
            by (simp add: Let_def)
          have "length (drop (unat n) data) < 2 ^ 32" using "1.prems"(2) by simp
          then obtain chunks where
            "wrote ext (drop (unat n) data) gs (ch\<lparr>ch_remoteWin := Some w1\<rparr>) cn1 res gs' ch' cn' chunks"
            using "1.IH"(3) [OF ne w r refl refl refl refl n(1) q [symmetric] Inr rec] by blast
          then show ?thesis
            using wrote_cons [of ext "unat n" data gs w1 ch cn1 res gs' ch' cn' chunks cn n]
              conn_send_out [OF q] Inr n c by auto
        qed
      qed
    qed
  qed
qed

end
