(* ===== verification/MuxChannelThms.thy ===== *)
theory MuxChannelThms
  imports MuxChannelSend
begin

text \<open>
  The properties of the proxy channel, over the invariants and the accounting of
  \<open>MuxChannelProps\<close> and \<open>MuxChannelSend\<close>: inbound flow control, outbound data, delivery to the
  backend, and the order of what is sent around a close.
\<close>

section \<open>Progress of the outbound path\<close>

lemma conn_send_good:
  "\<not> cn_closed cn \<Longrightarrow> sock_good (cn_sock cn) \<Longrightarrow> length (m_msg cd msg) + 1 \<le> kMuxMaxPacket \<Longrightarrow>
   \<exists>cn'. conn_send cd msg cn = (Inr (), cn') \<and> \<not> cn_closed cn' \<and> sock_good (cn_sock cn')"
  by (auto simp: conn_send_def writeSshPacket_def sock_write_def sock_good_def)

definition fits :: "ssh_codec \<Rightarrow> u32 \<Rightarrow> muxChannel \<Rightarrow> nat \<Rightarrow> bool" where
  "fits cd ext ch k \<longleftrightarrow>
     (\<forall>n c. length c \<le> k \<longrightarrow> length (m_msg cd (dataMsg ext ch n c)) + 1 \<le> kMuxMaxPacket)"

lemma fits_mono: "fits cd ext ch k \<Longrightarrow> j \<le> k \<Longrightarrow> fits cd ext (ch\<lparr>ch_remoteWin := w\<rparr>) j"
  by (simp add: fits_def)

lemma reserve_open:
  assumes "\<not> win_closed w" "win_avail w \<noteq> 0"
  obtains n w1 where "muxWindow_reserve want w = Done (Inr (n, w1))" "\<not> win_closed w1"
  using assms by (auto simp: muxWindow_reserve_def Let_def)

lemma writeData_ok:
  assumes "length data < 2 ^ 32" "\<not> ch_closed ch" "ch_remoteWin ch = Some w" "\<not> win_closed w"
    and "length data \<le> unat (win_avail w) + sum_list (map unat gs)"
    and "\<not> cn_closed cn" "sock_good (cn_sock cn)" "fits cd ext ch (length data)"
  shows "fst (writeData cd ext data gs ch cn) = WdOk"
  using assms
proof (induction cd ext data gs ch cn arbitrary: w rule: writeData.induct)
  case (1 cd ext data gs ch cn)
  note p = "1.prems"
  show ?case
  proof (cases "data = []")
    case True
    then show ?thesis by (simp add: writeData.simps)
  next
    case ne: False
    show ?thesis
    proof (cases "win_avail w = 0")
      case True
      then have b: "muxWindow_reserve (of_nat (length data)) w = Blocked"
        using p(4) by (simp add: muxWindow_reserve_def)
      have "gs \<noteq> []" using p(5) True ne by auto
      then obtain g gs1 where gs: "gs = g # gs1" by (cases gs) auto
      define w1 where "w1 = w\<lparr>win_avail := win_avail w + g\<rparr>"
      have a: "muxWindow_add g w = Inr w1"
        using True unat_u32_less [of g] by (simp add: muxWindow_add_Inr w1_def)
      have "fst (writeData cd ext data gs1 (ch\<lparr>ch_remoteWin := Some w1\<rparr>) cn) = WdOk"
        using p gs True fits_mono [OF p(8)]
        by (intro "1.IH"(2) [where w = w1, OF ne p(2,3) b gs a]) (auto simp: w1_def)
      then show ?thesis using b gs a ne p(2,3) by (simp add: writeData.simps [of _ _ data])
    next
      case False
      obtain n w1 where r: "muxWindow_reserve (of_nat (length data)) w = Done (Inr (n, w1))"
        "\<not> win_closed w1"
        using reserve_open [OF p(4) False] by blast
      have len: "unat (of_nat (length data) :: u32) = length data"
        using p(1) by (simp add: unat_of_nat_u32)
      then have want: "(of_nat (length data) :: u32) \<noteq> 0" using ne by (metis length_0_conv unat_0)
      have n: "unat n \<noteq> 0" "unat n \<le> length data" "unat (win_avail w) = unat (win_avail w1) + unat n"
        using muxWin.reserve_progress [OF r(1) want] muxWin.reserve_credit [OF r(1)] len
        by (simp_all add: unat_eq_0)
      have "length (m_msg cd (dataMsg ext ch n (take (unat n) data))) + 1 \<le> kMuxMaxPacket"
        using p(8) by (simp add: fits_def)
      then obtain cn1 where q: "conn_send cd (dataMsg ext ch n (take (unat n) data)) cn = (Inr (), cn1)"
        "\<not> cn_closed cn1" "sock_good (cn_sock cn1)"
        using conn_send_good [OF p(6,7)] by blast
      have "fst (writeData cd ext (drop (unat n) data) gs (ch\<lparr>ch_remoteWin := Some w1\<rparr>) cn1) = WdOk"
        using p n q(2,3) r(2) fits_mono [OF p(8)]
        by (intro "1.IH"(3) [where w = w1, OF ne p(2,3) r(1) refl refl refl refl n(1) q(1) [symmetric] refl]) auto
      then show ?thesis
        using r q n ne p(2,3) by (simp add: writeData.simps [of _ _ data] Let_def)
    qed
  qed
qed

section \<open>Delivery to the backend\<close>

lemma replenishWindow_same:
  "replenishWindow cd n ch cn = (r, ch', cn') \<Longrightarrow>
     ch_inQueue ch' = ch_inQueue ch \<and> ch_closed ch' = ch_closed ch \<and> ch_stream ch' = ch_stream ch \<and>
     ch_session ch' = ch_session ch \<and> ch_stdinOnce ch' = ch_stdinOnce ch \<and> cn_fx cn' = cn_fx cn"
  by (auto simp: replenishWindow_def Let_def split: if_splits prod.splits dest!: conn_send_out)

lemma pumpInWrite_ok:
  "pumpInWrite cd True d ch cn = (go, ch', cn') \<Longrightarrow>
     go \<and> ch_inQueue ch' = ch_inQueue ch \<and> ch_closed ch' = ch_closed ch \<and> ch_stream ch' = ch_stream ch \<and>
     ch_session ch' = ch_session ch \<and> ch_stdinOnce ch' = ch_stdinOnce ch \<and>
     cn_fx cn' = cn_fx cn @ [FxWrite d]"
  by (auto simp: pumpInWrite_def split: prod.splits dest!: replenishWindow_same)

text \<open>What ends the input of the backend once the queue is at its end.\<close>

definition end_fx :: "bool \<Rightarrow> muxChannel \<Rightarrow> fx list" where
  "end_fx cw ch =
     (if q_accepting (ch_inQueue ch) \<or> ch_closed ch then []
      else if ch_stream ch then (if cw then [FxCloseWrite] else [])
      else if ch_stdinOnce ch \<or> \<not> ch_session ch then [] else [FxStdinClose])"

lemma pumpIn_fx:
  assumes "pumpIn cd writeOk cw ch cn = (b, ch', cn')"
    and "\<not> q_closed (ch_inQueue ch)" "\<forall>d\<in>set (q_items (ch_inQueue ch)). writeOk d"
  shows "cn_fx cn' = cn_fx cn @ map FxWrite (q_items (ch_inQueue ch)) @ end_fx cw ch \<and>
    (b = Blocked \<longleftrightarrow> q_accepting (ch_inQueue ch)) \<and> (b \<noteq> Blocked \<longrightarrow> b = Done (ch', cn'))"
  using assms
proof (induction cd writeOk cw ch cn rule: pumpIn.induct)
  case (1 cd writeOk cw ch cn)
  show ?case
  proof (cases "muxByteQueue_pop (ch_inQueue ch)")
    case Blocked
    with "1.prems"(1) show ?thesis
      using muxQ.pop_Blocked [of "ch_inQueue ch"] by (auto simp: pumpIn.simps end_fx_def)
  next
    case (Done r)
    show ?thesis
    proof (cases r)
      case None
      with Done have na: "\<not> q_accepting (ch_inQueue ch)" "q_items (ch_inQueue ch) = []"
        using muxQ.pop_None [of "ch_inQueue ch"] "1.prems"(2) by auto
      have "b = Done (ch', cn')" "pumpInEnd cw ch cn = (ch', cn')"
        using "1.prems"(1) Done None by (auto simp: pumpIn.simps Let_def)
      with na show ?thesis
        by (auto simp: pumpInEnd_def closeStdin_def end_fx_def split: if_splits)
    next
      case (Some dq)
      then obtain d q where p: "muxByteQueue_pop (ch_inQueue ch) = Done (Some (d, q))"
        using Done by (cases dq) auto
      note pq = muxQ.pop_Some [OF p]
      obtain go ch1 cn1 where w: "pumpInWrite cd True d (ch\<lparr>ch_inQueue := q\<rparr>) cn = (go, ch1, cn1)"
        by (cases "pumpInWrite cd True d (ch\<lparr>ch_inQueue := q\<rparr>) cn") auto
      note w1 = pumpInWrite_ok [OF w]
      have ok: "writeOk d" using "1.prems"(3) pq by simp
      have rec: "pumpIn cd writeOk cw ch1 cn1 = (b, ch', cn')"
        using "1.prems"(1) p w ok w1 by (simp add: pumpIn.simps [of _ _ _ ch])
      have "cn_fx cn' = cn_fx cn1 @ map FxWrite (q_items (ch_inQueue ch1)) @ end_fx cw ch1 \<and>
          (b = Blocked \<longleftrightarrow> q_accepting (ch_inQueue ch1)) \<and> (b \<noteq> Blocked \<longrightarrow> b = Done (ch', cn'))"
        using w w1 ok rec pq "1.prems"(2,3)
        by (intro "1.IH" [OF p refl refl, of go "(ch1, cn1)" ch1 cn1]) auto
      then show ?thesis using w1 pq by (simp add: end_fx_def)
    qed
  qed
qed

section \<open>The log and the wire\<close>

text \<open>
  A connection changes only by sends and by calls on the backend.  Every operation of a channel
  is such a change, so the log of messages stays what a reader of the socket sees.
\<close>

inductive sends :: "ssh_codec \<Rightarrow> conn_io \<Rightarrow> conn_io \<Rightarrow> bool" for cd where
  nothing [intro]: "sends cd a a"
| message: "sends cd a b \<Longrightarrow> conn_send cd m b = (r, c) \<Longrightarrow> sends cd a c"
| call: "sends cd a b \<Longrightarrow> sends cd a (emit es b)"

lemma sends_trans: "sends cd b c \<Longrightarrow> sends cd a b \<Longrightarrow> sends cd a c"
  by (induction rule: sends.induct) (auto intro: sends.intros)

lemma sends_one [intro]: "conn_send cd m a = (r, c) \<Longrightarrow> sends cd a c"
  "sends cd a (snd (conn_send cd m a))" "sends cd a (emit es a)"
  by (metis sends.nothing sends.message prod.exhaust_sel, metis sends.nothing sends.message prod.exhaust_sel,
      metis sends.nothing sends.call)

lemma sends_wire: "sends cd a b \<Longrightarrow> wire_ok cd a \<Longrightarrow> wire_ok cd b"
proof (induction rule: sends.induct)
  case (call a b es)
  then show ?case by (simp add: wire_ok_def)
qed (blast dest: conn_send_wire)+

lemma teardownBegin_sends: "teardownBegin cd ch cn = (ch', cn') \<Longrightarrow> sends cd cn cn'"
  and sendEOF_sends: "sendEOF cd ch cn = (ch', cn') \<Longrightarrow> sends cd cn cn'"
  by (auto simp: teardownBegin_def sendClose_def sendEOF_def Let_def split: if_splits)

lemma closeStdin_sends: "closeStdin ch cn = (ch', cn') \<Longrightarrow> sends cd cn cn'"
  by (auto simp: closeStdin_def split: if_splits)

lemma teardownEnd_sends:
  assumes "teardownEnd ch cn = (ch', cn')" shows "sends cd cn cn'"
  using assms
  by (auto simp: teardownEnd_def Let_def split: if_splits prod.splits
      intro!: sends.call dest: closeStdin_sends [where cd = cd])

lemma teardown_sends: "teardown cd ch cn = (ch', cn') \<Longrightarrow> sends cd cn cn'"
  by (auto simp: teardown_def split: if_splits prod.splits
      dest!: teardownBegin_sends teardownEnd_sends [where cd = cd] intro: sends_trans)

lemma replenishWindow_sends: "replenishWindow cd n ch cn = (r, ch', cn') \<Longrightarrow> sends cd cn cn'"
  by (auto simp: replenishWindow_def Let_def split: if_splits prod.splits)

lemma ch_reply_sends: "ch_reply cd msg ok ch cn = (r, cn') \<Longrightarrow> sends cd cn cn'"
  by (auto simp: ch_reply_def split: if_splits)

lemma ch_reply_emit_sends: "ch_reply cd msg ok ch (emit es cn) = (r, cn') \<Longrightarrow> sends cd cn cn'"
  by (auto dest!: ch_reply_sends intro: sends_trans)

lemma startAndReply_sends: "startAndReply cd be msg kind ch cn = (r, ch', cn') \<Longrightarrow> sends cd cn cn'"
  by (auto simp: startAndReply_def startSession_def Let_def split: if_splits prod.splits
      dest: ch_reply_sends ch_reply_emit_sends)

lemma handleRequest_sends: "handleRequest cd be msg ch cn = (r, ch', cn') \<Longrightarrow> sends cd cn cn'"
  by (auto simp: handleRequest_def Let_def split: if_splits option.splits prod.splits
      dest: startAndReply_sends ch_reply_sends ch_reply_emit_sends)

lemma packet_sends: "ch_handlePacket cd be pkt ch cn = (r, ch', cn', rm) \<Longrightarrow> sends cd cn cn'"
  by (auto simp: ch_handlePacket_def Let_def split: if_splits option.splits sum.splits prod.splits
      dest: teardown_sends handleRequest_sends replenishWindow_sends)

lemma pumpInWrite_sends: "pumpInWrite cd ok d ch cn = (go, ch', cn') \<Longrightarrow> sends cd cn cn'"
  by (auto simp: pumpInWrite_def Let_def split: if_splits prod.splits
      dest: teardown_sends replenishWindow_sends intro: sends_trans)

lemma pumpInEnd_sends: "pumpInEnd cw ch cn = (ch', cn') \<Longrightarrow> sends cd cn cn'"
  by (auto simp: pumpInEnd_def split: if_splits dest: closeStdin_sends)

lemma chan_step_sends: "chan_step cd be s s' \<Longrightarrow> sends cd (r_cn s) (r_cn s')"
  by (induction rule: chan_step.induct)
    (auto dest: packet_sends pumpInEnd_sends pumpInWrite_sends sendEOF_sends teardownBegin_sends
      teardownEnd_sends)

lemma chan_steps_wire: "(chan_step cd be)\<^sup>*\<^sup>* s s' \<Longrightarrow> wire_ok cd (r_cn s) \<Longrightarrow> wire_ok cd (r_cn s')"
  by (induction rule: rtranclp_induct) (blast dest: chan_step_sends sends_wire)+

section \<open>Properties\<close>

text \<open>C1: inbound flow control of a channel under every interleaving of the read loop, the pumps
  and the teardown.  The bytes queued, in the hands of the pump, consumed but not yet given back
  and still granted to the peer never exceed the two megabyte window, so the queue is bounded
  and no counter wraps; while the channel takes data nothing of the window is lost, and once the
  backend has taken everything the peer always holds more than half of it: the window cannot be
  lost for good.\<close>

theorem channel_flow_control:
  assumes "chan_reach cd be s"
  shows "let used = queued (r_ch s) + inflight (r_in s);
             held = unat (ch_myWindow (r_ch s)) + unat (ch_consumed (r_ch s)) in
     used + held \<le> 2097152 \<and>
     (takes_data (r_ch s) \<longrightarrow> used + held = 2097152 \<and>
        (used = 0 \<longrightarrow> unat (ch_myWindow (r_ch s)) > 1048576))"
  using chan_reach_flow [OF assms] by (auto simp: Let_def flow_ok_def flow_inv_def charged_def)

definition demo_conn :: conn_io where
  "demo_conn = \<lparr>cn_sock = \<lparr>sk_in = [], sk_out = [], sk_quota = None, sk_closed = False\<rparr>,
     cn_closed = False, cn_out = [], cn_fx = []\<rparr>"

definition demo_channel :: muxChannel where
  "demo_channel = (newChannel 0 ''direct-tcpip'')
     \<lparr>ch_remoteID := 7, ch_remoteWin := Some (newMuxWindow 10), ch_remoteMax := 32768,
      ch_stream := True\<rparr>"

definition demo_backend :: backend where
  "demo_backend = \<lparr>be_requestPty = (\<lambda>_ _ _ _. True), be_setenv = (\<lambda>_ _. True), be_stderrPipe = True,
     be_start = (\<lambda>_. StartOk), be_windowChange = (\<lambda>_ _. True), be_sendRequest = (\<lambda>_ _ _. Some True)\<rparr>"

definition demo_start :: chan_run where
  "demo_start = chan_start demo_channel demo_conn [0]"

lemma demo_reach: "chan_reach cd be demo_start"
  unfolding demo_start_def
  by (rule chan_reach.start) (simp_all add: demo_channel_def demo_conn_def newChannel_def fresh_channel_def)

definition demo_data :: bytes where
  "demo_data = wire_msg (ChannelData \<lparr>cd_PeersID = 0, cd_Length = 3, cd_Rest = [104, 105, 10]\<rparr>)"

lemma demo_packet:
  "ch_handlePacket wire_codec be demo_data demo_channel cn =
     (Inr (), demo_channel\<lparr>ch_myWindow := kMuxChannelWindowSize - 3,
        ch_inQueue := newMuxByteQueue\<lparr>q_items := [[104, 105, 10]]\<rparr>\<rparr>, cn, False)"
  by (simp add: ch_handlePacket_def demo_data_def ssh_type_defs Let_def wire_codec_def wire_simps
      handleData_def consumeWindow_def demo_channel_def newChannel_def kMuxChannelWindowSize_def
      muxByteQueue_push_def newMuxByteQueue_def)

definition demo_queued :: chan_run where
  "demo_queued = demo_start\<lparr>r_ch := demo_channel\<lparr>ch_myWindow := kMuxChannelWindowSize - 3,
     ch_inQueue := newMuxByteQueue\<lparr>q_items := [[104, 105, 10]]\<rparr>\<rparr>\<rparr>"

lemma demo_step: "chan_step wire_codec be demo_start demo_queued"
proof -
  have "ch_handlePacket wire_codec be demo_data (r_ch demo_start) (r_cn demo_start) =
      (Inr (), r_ch demo_queued, r_cn demo_start, False)"
    by (simp add: demo_start_def demo_queued_def chan_start_def demo_packet)
  from chan_step.packet [OF this] show ?thesis by (simp add: demo_queued_def)
qed

theorem channel_flow_control_witness:
  "queued (r_ch demo_queued) = 3 \<and> takes_data (r_ch demo_queued) \<and>
   3 + (unat (ch_myWindow (r_ch demo_queued)) + unat (ch_consumed (r_ch demo_queued))) = 2097152"
proof -
  have q: "queued (r_ch demo_queued) = 3" "takes_data (r_ch demo_queued)"
    "inflight (r_in demo_queued) = 0"
    by (simp_all add: demo_queued_def demo_start_def chan_start_def queued_def takes_data_def
        q_accepting_def newMuxByteQueue_def demo_channel_def newChannel_def)
  then show ?thesis
    using channel_flow_control [OF chan_reach.step [OF demo_reach demo_step, of demo_backend]]
    by (simp add: Let_def)
qed

text \<open>C6: in every interleaving a channel sends at most one EOF and at most one CLOSE.\<close>

theorem channel_eof_close_once:
  assumes "chan_reach cd be s"
  shows "count_msg is_eof (r_cn s) \<le> 1 \<and> count_msg is_close (r_cn s) \<le> 1"
  using chan_reach_once [OF assms] by (auto simp: sent_once_def of_bool_def split: if_splits)

lemma demo_close:
  "conn_send wire_codec (ChannelClose 7) demo_conn =
     (Inr (), demo_conn\<lparr>cn_sock := (cn_sock demo_conn)\<lparr>sk_out := sshPacketBuf (wire_msg (ChannelClose 7))\<rparr>,
        cn_out := [ChannelClose 7]\<rparr>)"
  by (simp add: conn_send_def demo_conn_def wire_codec_def writeSshPacket_def sock_write_def
      kMuxMaxPacket_def)

theorem channel_eof_close_once_witness:
  "\<exists>s. chan_reach wire_codec demo_backend s \<and> count_msg is_close (r_cn s) = 1 \<and>
     count_msg is_eof (r_cn s) \<le> 1 \<and> count_msg is_close (r_cn s) \<le> 1"
proof -
  obtain ch cn where t: "teardownBegin wire_codec (r_ch demo_start) (r_cn demo_start) = (ch, cn)"
    by fastforce
  have c: "cn_out cn = [ChannelClose 7]"
    using t by (auto simp: teardownBegin_def sendClose_def demo_start_def chan_start_def
        demo_close Let_def demo_channel_def newChannel_def)
  have "chan_step wire_codec demo_backend demo_start
      (demo_start\<lparr>r_ch := ch, r_cn := cn, r_tearing := True\<rparr>)"
    by (rule chan_step.tear_begin [OF _ t])
      (simp add: demo_start_def chan_start_def demo_channel_def newChannel_def)
  note r = chan_reach.step [OF demo_reach this]
  with channel_eof_close_once [OF r] c show ?thesis
    by (intro exI [of _ "demo_start\<lparr>r_ch := ch, r_cn := cn, r_tearing := True\<rparr>"])
      (simp add: count_msg_def)
qed

text \<open>C9: the peer can read the log.  Whatever the goroutines of a channel do, the packets on the
  socket are the messages the channel sent, complete, in order and nothing between them; after a
  failed write only a remainder follows that is not a part of them.\<close>

theorem channel_wire_log:
  assumes "(chan_step cd be)\<^sup>*\<^sup>* s s'" and "cn_out (r_cn s) = []" and "sk_out (cn_sock (r_cn s)) = []"
  shows "\<exists>rest. readSshPackets (length (cn_out (r_cn s'))) (sk_out (cn_sock (r_cn s'))) =
    Inr (map (m_msg cd) (cn_out (r_cn s')), rest) \<and> (sock_room (cn_sock (r_cn s')) 1 \<longrightarrow> rest = [])"
proof -
  have "wire_ok cd (r_cn s)" using assms(2,3) by (simp add: wire_ok_def)
  with assms(1) have w: "wire_ok cd (r_cn s')" by (rule chan_steps_wire)
  let ?ps = "map (m_msg cd) (cn_out (r_cn s'))"
  obtain rest where r: "sk_out (cn_sock (r_cn s')) = concat (map sshPacketBuf ?ps) @ rest"
    using w by (auto simp: wire_ok_def prefix_def comp_def)
  have "sock_room (cn_sock (r_cn s')) 1 \<Longrightarrow> rest = []"
    using w r by (simp add: wire_ok_def comp_def)
  moreover have "readSshPackets (length ?ps) (concat (map sshPacketBuf ?ps) @ rest) = Inr (?ps, rest)"
    using w by (intro readSshPackets_concat) (auto simp: wire_ok_def)
  ultimately show ?thesis using r by auto
qed

theorem channel_wire_log_witness:
  "\<exists>s'. (chan_step wire_codec demo_backend)\<^sup>*\<^sup>* demo_start s' \<and>
     readSshPackets 1 (sk_out (cn_sock (r_cn s'))) = Inr ([wire_msg (ChannelClose 7)], [])"
proof -
  obtain ch cn where t: "teardownBegin wire_codec (r_ch demo_start) (r_cn demo_start) = (ch, cn)"
    by fastforce
  let ?s = "demo_start\<lparr>r_ch := ch, r_cn := cn, r_tearing := True\<rparr>"
  have c: "cn = snd (conn_send wire_codec (ChannelClose 7) demo_conn)"
    using t by (auto simp: teardownBegin_def sendClose_def demo_start_def chan_start_def Let_def
        demo_channel_def newChannel_def)
  have "chan_step wire_codec demo_backend demo_start ?s"
    by (rule chan_step.tear_begin [OF _ t])
      (simp add: demo_start_def chan_start_def demo_channel_def newChannel_def)
  then have s: "(chan_step wire_codec demo_backend)\<^sup>*\<^sup>* demo_start ?s" by blast
  have room: "sock_room (cn_sock cn) 1" "cn_out cn = [ChannelClose 7]"
    unfolding c demo_close by (simp_all add: sock_room_def demo_conn_def)
  then show ?thesis
    using channel_wire_log [OF s] s
    by (intro exI [of _ ?s]) (auto simp: demo_start_def chan_start_def demo_conn_def wire_codec_def)
qed

text \<open>C10: \<open>writeData\<close> sends nothing but its data, in order and unchanged, cut into non-empty
  chunks whose length field is right; what it sends and what is left of the window never exceeds
  the window plus the adjusts that arrive meanwhile; a success means all of the data was sent,
  and the loop always ends or waits for credit.\<close>

theorem writeData_exact:
  assumes "writeData cd ext data grants ch cn = (res, grants', ch', cn')" and "length data < 2 ^ 32"
  shows "\<exists>chunks. cn_out cn' = cn_out cn @ map (\<lambda>c. dataMsg ext ch (of_nat (length c)) c) chunks \<and>
    prefix (concat chunks) data \<and> (res = WdOk \<longrightarrow> concat chunks = data) \<and> [] \<notin> set chunks \<and>
    res \<noteq> WdSpin \<and>
    length (concat chunks) + send_credit ch' + sum_list (map unat grants')
      \<le> send_credit ch + sum_list (map unat grants)"
  using writeData_wrote [OF assms] by (simp add: wrote_def)

theorem writeData_exact_witness:
  "\<exists>chunks. cn_out (snd (snd (snd (writeData wire_codec 0 [1, 2] [] demo_channel demo_conn)))) =
     map (\<lambda>c. dataMsg 0 demo_channel (of_nat (length c)) c) chunks \<and> prefix (concat chunks) [1, 2]"
proof -
  obtain res gs ch cn where r: "writeData wire_codec 0 [1, 2] [] demo_channel demo_conn = (res, gs, ch, cn)"
    by (metis prod.exhaust)
  from writeData_exact [OF this] r show ?thesis by (auto simp: demo_conn_def)
qed

text \<open>C11: the outbound path makes progress.  On an open channel of a working connection, with
  packets that fit, \<open>writeData\<close> succeeds as soon as the window and the adjusts that arrive cover
  the data, and it has then sent all of it.\<close>

theorem writeData_completes:
  assumes "length data < 2 ^ 32" "\<not> ch_closed ch" "ch_remoteWin ch = Some w" "\<not> win_closed w"
    and "length data \<le> unat (win_avail w) + sum_list (map unat grants)"
    and "\<not> cn_closed cn" "sock_good (cn_sock cn)"
    and "\<forall>n c. length c \<le> length data \<longrightarrow> length (m_msg cd (dataMsg ext ch n c)) + 1 \<le> kMuxMaxPacket"
  shows "\<exists>grants' ch' cn' chunks. writeData cd ext data grants ch cn = (WdOk, grants', ch', cn') \<and>
    cn_out cn' = cn_out cn @ map (\<lambda>c. dataMsg ext ch (of_nat (length c)) c) chunks \<and>
    concat chunks = data"
proof -
  obtain res gs' ch' cn' where r: "writeData cd ext data grants ch cn = (res, gs', ch', cn')"
    by (metis prod.exhaust)
  have "res = WdOk"
    using writeData_ok [OF assms(1-7), of cd ext] assms(8) r by (simp add: fits_def)
  with writeData_wrote [OF r assms(1)] r show ?thesis by (auto simp: wrote_def)
qed

lemma wire_data_length: "length (m_msg wire_codec (dataMsg 0 ch n c)) = 9 + length c"
  by (simp add: wire_codec_def dataMsg_def)

theorem writeData_completes_witness:
  "\<exists>grants' ch' cn' chunks. writeData wire_codec 0 (replicate 12 65) [3] demo_channel demo_conn =
      (WdOk, grants', ch', cn') \<and>
    cn_out cn' = cn_out demo_conn @ map (\<lambda>c. dataMsg 0 demo_channel (of_nat (length c)) c) chunks \<and>
    concat chunks = replicate 12 65"
  by (rule writeData_completes [where w = "newMuxWindow 10"])
    (simp_all add: demo_channel_def newChannel_def newMuxWindow_def demo_conn_def sock_good_def
      wire_data_length kMuxMaxPacket_def)

text \<open>A backend that takes its input gets exactly the queued data, in order.  While more may
  come the pump then waits; after the peer's EOF it ends the backend's input, by \<open>CloseWrite\<close> on a
  stream that has it and by closing the standard input of a session that was not closed before.\<close>

theorem pumpIn_delivers:
  assumes "\<not> q_closed (ch_inQueue ch)" and "\<forall>d\<in>set (q_items (ch_inQueue ch)). writeOk d"
  shows "case pumpIn cd writeOk canCloseWrite ch cn of (b, ch', cn') \<Rightarrow>
    cn_fx cn' = cn_fx cn @ map FxWrite (q_items (ch_inQueue ch)) @
      (if \<not> q_eof (ch_inQueue ch) \<or> ch_closed ch then []
       else if ch_stream ch then (if canCloseWrite then [FxCloseWrite] else [])
       else if ch_stdinOnce ch \<or> \<not> ch_session ch then [] else [FxStdinClose]) \<and>
    (b = Blocked \<longleftrightarrow> \<not> q_eof (ch_inQueue ch))"
proof -
  obtain b ch' cn' where r: "pumpIn cd writeOk canCloseWrite ch cn = (b, ch', cn')"
    by (metis prod.exhaust)
  from pumpIn_fx [OF r assms] assms(1) r show ?thesis
    by (auto simp: end_fx_def q_accepting_def)
qed

theorem pumpIn_delivers_witness:
  "case pumpIn wire_codec (\<lambda>_. True) True
          (demo_channel\<lparr>ch_inQueue := \<lparr>q_items = [[1], [2, 3]], q_eof = True, q_closed = False\<rparr>\<rparr>) demo_conn of
     (b, ch', cn') \<Rightarrow> cn_fx cn' = [FxWrite [1], FxWrite [2, 3], FxCloseWrite] \<and> b \<noteq> Blocked"
  using pumpIn_delivers [of "demo_channel\<lparr>ch_inQueue := \<lparr>q_items = [[1], [2, 3]], q_eof = True,
      q_closed = False\<rparr>\<rparr>" "\<lambda>_. True" demo_conn True wire_codec]
  by (simp add: demo_channel_def newChannel_def demo_conn_def split: prod.splits)

text \<open>C22: data can follow the close.  \<open>teardown\<close> sends CLOSE before it stores \<open>closed\<close> and closes
  the window, and \<open>writeData\<close> looks at \<open>closed\<close> before it reserves and sends: with the teardown
  between the two, the channel sends CLOSE and then DATA, which RFC 4254 forbids.\<close>

theorem data_after_close:
  "\<exists>s d. chan_reach wire_codec be s \<and> cn_out (r_cn s) = [ChannelClose 7, ChannelData d]"
proof -
  let ?c = "wire_codec"
  define s1 where "s1 = demo_start\<lparr>r_outs := [PoLoop 0 [65]]\<rparr>"
  define s2 where "s2 = s1\<lparr>r_outs := [PoChecked 0 [65]]\<rparr>"
  obtain ch cn where t: "teardownBegin ?c (r_ch s2) (r_cn s2) = (ch, cn)" by fastforce
  define s3 where "s3 = s2\<lparr>r_ch := ch, r_cn := cn, r_tearing := True\<rparr>"
  define s4 where "s4 = s3\<lparr>r_ch := ch\<lparr>ch_remoteWin := Some (newMuxWindow 9)\<rparr>,
    r_outs := [PoReserved 0 1 [65] []]\<rparr>"
  note ds = s1_def s2_def s3_def s4_def demo_start_def chan_start_def demo_channel_def newChannel_def
  have b: "ch = demo_channel\<lparr>ch_closeOnce := True, ch_sentClose := True\<rparr>"
    "cn = snd (conn_send ?c (ChannelClose 7) demo_conn)"
    using t by (auto simp: teardownBegin_def sendClose_def Let_def ds)
  have 1: "chan_step ?c be demo_start s1"
    using chan_step.read_out [of 0 demo_start 0 "[65]" ?c be] by (simp add: ds)
  have 2: "chan_step ?c be s1 s2"
    using chan_step.loop_check [of 0 s1 0 "[65]" ?c be] by (simp add: ds)
  have 3: "chan_step ?c be s2 s3"
    unfolding s3_def by (rule chan_step.tear_begin [OF _ t]) (simp add: ds)
  have 4: "chan_step ?c be s3 s4"
    using chan_step.reserve [of 0 s3 0 "[65]" "newMuxWindow 10" 1 "newMuxWindow 9" ?c be]
    by (simp add: ds b muxWindow_reserve_Inr newMuxWindow_def)
  have g: "\<not> cn_closed (r_cn s4)" "sock_good (cn_sock (r_cn s4))"
    unfolding s4_def s3_def b demo_close by (simp_all add: demo_conn_def sock_good_def)
  let ?m = "dataMsg 0 (r_ch s4) 1 [65]"
  obtain cn5 where q: "conn_send ?c ?m (r_cn s4) = (Inr (), cn5)"
    using conn_send_good [OF g, of ?c ?m] by (auto simp: wire_data_length kMuxMaxPacket_def)
  define s5 where "s5 = s4\<lparr>r_cn := cn5, r_outs := [PoLoop 0 []]\<rparr>"
  have 5: "chan_step ?c be s4 s5"
    using chan_step.send_out [OF _ _ q, of 0 "[]" be] by (simp add: s5_def s4_def)
  have "chan_reach ?c be s5"
    using demo_reach 1 2 3 4 5 by (metis chan_reach.step)
  moreover have "cn_out (r_cn s5) = [ChannelClose 7, ?m]"
    using conn_send_out [OF q] by (simp add: s5_def s4_def s3_def b demo_close)
  moreover have "\<exists>d. ?m = ChannelData d" by (simp add: dataMsg_def)
  ultimately show ?thesis by auto
qed

end
