(* ===== verification/MuxProxy.thy ===== *)
theory MuxProxy
  imports MuxChannelThms GoNet "HOL-Library.AList"
begin

text \<open>
  \<open>muxProxyConn\<close> of \<open>tssh/mux_proxy.go\<close>: one proxy-mode control connection of the master.
  A channel object is shared by the channel table, the goroutine that opens it and the one that
  closes the connection, so the objects live in a store and the table maps ids to addresses in
  it; what a goroutine does between two points where another may run is one definition.  The
  answers of the backend client (\<open>Listen\<close>, \<open>Dial\<close>, \<open>NewSession\<close>) are arguments.
\<close>

section \<open>State\<close>

text \<open>A \<open>net.Addr\<close>: the \<open>*net.TCPAddr\<close> fields when it is one, and its \<open>String()\<close>.\<close>

record net_addr =
  na_tcp :: "(string option \<times> int) option"
  na_string :: string

record listener =
  ln_handle :: nat
  ln_addr :: "net_addr option"

record muxRemoteForward =
  rf_key :: string
  rf_chanType :: string
  rf_addr :: string
  rf_port :: u32
  rf_listener :: listener

text \<open>A goroutine that a handler starts.\<close>

datatype job =
    OpenSession sshChannelOpenMsg
  | OpenDirect sshChannelOpenMsg string string
  | AcceptLoop muxRemoteForward
  | StreamPumps nat

record muxProxyConn =
  pc_io :: conn_io
  pc_heap :: "muxChannel list"
  pc_chans :: "(u32 \<times> nat) list"
  pc_nextID :: u32
  pc_forwards :: "(string \<times> muxRemoteForward) list"
  pc_done :: bool
  pc_lclosed :: "nat list"
  pc_onClose :: "nat option"

definition newMuxProxyConn :: "sock \<Rightarrow> bool \<Rightarrow> muxProxyConn" where
  "newMuxProxyConn rw hasOnClose =
     \<lparr>pc_io = \<lparr>cn_sock = rw, cn_closed = False, cn_out = [], cn_fx = []\<rparr>, pc_heap = [],
      pc_chans = [], pc_nextID = 0, pc_forwards = [], pc_done = False, pc_lclosed = [],
      pc_onClose = (if hasOnClose then Some 0 else None)\<rparr>"

definition pc_closed :: "muxProxyConn \<Rightarrow> bool" where
  "pc_closed c = cn_closed (pc_io c)"

definition pc_send :: "ssh_codec \<Rightarrow> ssh_msg \<Rightarrow> muxProxyConn \<Rightarrow> unit result \<times> muxProxyConn" where
  "pc_send cd msg c = (case conn_send cd msg (pc_io c) of (r, io) \<Rightarrow> (r, c\<lparr>pc_io := io\<rparr>))"

definition sendOpenFailure :: "ssh_codec \<Rightarrow> u32 \<Rightarrow> u32 \<Rightarrow> string \<Rightarrow> muxProxyConn \<Rightarrow> muxProxyConn" where
  "sendOpenFailure cd peersID reason message c =
     snd (pc_send cd (ChannelOpenFailure \<lparr>cf_PeersID = peersID, cf_Reason = reason,
       cf_Message = message, cf_Language = ''en''\<rparr>) c)"

text \<open>\<open>ssh.ConnectionFailed\<close> and \<open>ssh.UnknownChannelType\<close>.\<close>

definition ConnectionFailed :: u32 where "ConnectionFailed = 2"
definition UnknownChannelType :: u32 where "UnknownChannelType = 3"

section \<open>The channel table\<close>

definition registerChannel :: "string \<Rightarrow> muxProxyConn \<Rightarrow> (nat \<times> muxProxyConn) option" where
  "registerChannel chanType c =
     (if pc_closed c then None
      else let a = length (pc_heap c); i = pc_nextID c in
        Some (a, c\<lparr>pc_heap := pc_heap c @ [newChannel i chanType], pc_nextID := i + 1,
                   pc_chans := AList.update i a (pc_chans c)\<rparr>))"

definition lookupChannel :: "u32 \<Rightarrow> muxProxyConn \<Rightarrow> nat option" where
  "lookupChannel i c = map_of (pc_chans c) i"

definition removeChannel :: "u32 \<Rightarrow> muxProxyConn \<Rightarrow> muxProxyConn" where
  "removeChannel i c = c\<lparr>pc_chans := AList.delete i (pc_chans c)\<rparr>"

text \<open>An operation of a channel, on the object at an address and the connection's socket.\<close>

definition on_channel ::
  "nat \<Rightarrow> (muxChannel \<Rightarrow> conn_io \<Rightarrow> muxChannel \<times> conn_io) \<Rightarrow> muxProxyConn \<Rightarrow> muxProxyConn" where
  "on_channel a f c =
     (case f (pc_heap c ! a) (pc_io c) of
        (ch, io) \<Rightarrow> c\<lparr>pc_heap := (pc_heap c)[a := ch], pc_io := io\<rparr>)"

section \<open>Closing the connection\<close>

definition closeListener :: "listener \<Rightarrow> muxProxyConn \<Rightarrow> muxProxyConn" where
  "closeListener l c = c\<lparr>pc_lclosed := pc_lclosed c @ [ln_handle l]\<rparr>"

definition closeBegin :: "muxProxyConn \<Rightarrow> muxProxyConn" where
  "closeBegin c =
     c\<lparr>pc_io := (pc_io c)\<lparr>cn_closed := True, cn_sock := sock_close (cn_sock (pc_io c))\<rparr>, pc_done := True\<rparr>"

text \<open>The snapshot of the table; Go leaves the order of a map open, and as the connection is
  marked closed no teardown can send anything any more.\<close>

definition closeChans :: "ssh_codec \<Rightarrow> muxProxyConn \<Rightarrow> muxProxyConn" where
  "closeChans cd c = fold (\<lambda>a. on_channel a (teardown cd)) (map snd (pc_chans c)) c"

definition closeFinish :: "muxProxyConn \<Rightarrow> muxProxyConn" where
  "closeFinish c =
     c\<lparr>pc_chans := [], pc_forwards := [],
       pc_lclosed := pc_lclosed c @ map (\<lambda>(_, f). ln_handle (rf_listener f)) (pc_forwards c),
       pc_onClose := map_option Suc (pc_onClose c)\<rparr>"

definition pc_close :: "ssh_codec \<Rightarrow> muxProxyConn \<Rightarrow> muxProxyConn" where
  "pc_close cd c =
     (if pc_closed c then c else closeFinish (closeChans cd (closeBegin c)))"

section \<open>Global requests\<close>

definition replyGlobalRequest ::
  "ssh_codec \<Rightarrow> sshGlobalRequestMsg \<Rightarrow> bool \<Rightarrow> muxProxyConn \<Rightarrow> unit result \<times> muxProxyConn" where
  "replyGlobalRequest cd msg ok c =
     (if \<not> gr_WantReply msg then (Inr (), c)
      else if ok then pc_send cd (RequestSuccess []) c
      else pc_send cd (RequestFailure []) c)"

definition addrPort :: "net_addr option \<Rightarrow> u32" where
  "addrPort addr =
     (case addr of None \<Rightarrow> 0
      | Some a \<Rightarrow>
          (case na_tcp a of
             Some (_, port) \<Rightarrow>
               if port > 0 then of_int port
               else (case SplitHostPort (na_string a) of None \<Rightarrow> 0
                     | Some (host, portStr) \<Rightarrow>
                         (case Atoi portStr of None \<Rightarrow> 0
                          | Some p \<Rightarrow> if p > 0 \<and> ParseIP host then of_int p else 0))
           | None \<Rightarrow>
               (case SplitHostPort (na_string a) of None \<Rightarrow> 0
                | Some (host, portStr) \<Rightarrow>
                    (case Atoi portStr of None \<Rightarrow> 0
                     | Some p \<Rightarrow> if p > 0 \<and> ParseIP host then of_int p else 0))))"

definition listenerPort :: "listener \<Rightarrow> u32" where
  "listenerPort l = addrPort (ln_addr l)"

definition originAddress :: "net_addr option \<Rightarrow> string \<times> u32" where
  "originAddress addr =
     (let fallback = (\<lambda>a. case SplitHostPort (na_string a) of None \<Rightarrow> (''0.0.0.0'', 1)
            | Some (host, portStr) \<Rightarrow>
                (case Atoi portStr of None \<Rightarrow> (''0.0.0.0'', 1)
                 | Some p \<Rightarrow> if p > 0 \<and> ParseIP host then (host, of_int p) else (''0.0.0.0'', 1))) in
      case addr of None \<Rightarrow> (''0.0.0.0'', 1)
      | Some a \<Rightarrow> (case na_tcp a of
            Some (Some ip, port) \<Rightarrow> if port > 0 then (ip, of_int port) else fallback a
          | _ \<Rightarrow> fallback a))"

definition tcpKey :: "string \<Rightarrow> u32 \<Rightarrow> string" where
  "tcpKey addr port = ''tcp|'' @ JoinHostPort addr (utoa (unat port))"

text \<open>The part of \<open>addRemoteForward\<close> after \<open>Listen\<close> has returned a listener.\<close>

definition addListener ::
  "string \<Rightarrow> string \<Rightarrow> string \<Rightarrow> string \<Rightarrow> u32 \<Rightarrow> listener \<Rightarrow> muxProxyConn \<Rightarrow>
   (bool \<times> u32) \<times> job list \<times> muxProxyConn" where
  "addListener key chanType network addr port l c =
     (let dyn = (network = ''tcp'' \<and> port = 0);
          allocatedPort = (if dyn then listenerPort l else port) in
      if dyn \<and> allocatedPort = 0 then ((False, 0), [], closeListener l c)
      else let key1 = (if dyn then tcpKey addr allocatedPort else key);
               f = \<lparr>rf_key = key1, rf_chanType = chanType, rf_addr = addr, rf_port = allocatedPort,
                    rf_listener = l\<rparr> in
        if pc_closed c then ((False, 0), [], closeListener l c)
        else if map_of (pc_forwards c) key1 \<noteq> None then ((False, 0), [], closeListener l c)
        else ((True, allocatedPort), [AcceptLoop f],
              c\<lparr>pc_forwards := AList.update key1 f (pc_forwards c)\<rparr>))"

type_synonym listen_fn = "string \<Rightarrow> string \<Rightarrow> listener option"

definition addRemoteForward ::
  "listen_fn \<Rightarrow> string \<Rightarrow> string \<Rightarrow> string \<Rightarrow> string \<Rightarrow> string \<Rightarrow> u32 \<Rightarrow> muxProxyConn \<Rightarrow>
   (bool \<times> u32) \<times> job list \<times> muxProxyConn" where
  "addRemoteForward listen key chanType network listenAddr addr port c =
     (if port \<noteq> 0 \<and> map_of (pc_forwards c) key \<noteq> None then ((False, 0), [], c)
      else case listen network listenAddr of None \<Rightarrow> ((False, 0), [], c)
      | Some l \<Rightarrow> addListener key chanType network addr port l c)"

definition cancelRemoteForward :: "string \<Rightarrow> muxProxyConn \<Rightarrow> bool \<times> muxProxyConn" where
  "cancelRemoteForward key c =
     (case map_of (pc_forwards c) key of None \<Rightarrow> (False, c)
      | Some f \<Rightarrow> (True, closeListener (rf_listener f)
                    (c\<lparr>pc_forwards := AList.delete key (pc_forwards c)\<rparr>)))"

text \<open>The end of \<open>acceptLoop\<close>; two forwards are the same object when they have the same listener.\<close>

definition acceptLoopEnd :: "muxRemoteForward \<Rightarrow> muxProxyConn \<Rightarrow> muxProxyConn" where
  "acceptLoopEnd f c =
     (case map_of (pc_forwards c) (rf_key f) of None \<Rightarrow> c
      | Some g \<Rightarrow> if ln_handle (rf_listener g) = ln_handle (rf_listener f)
                  then c\<lparr>pc_forwards := AList.delete (rf_key f) (pc_forwards c)\<rparr> else c)"

definition handleGlobalRequest ::
  "ssh_codec \<Rightarrow> listen_fn \<Rightarrow> sshGlobalRequestMsg \<Rightarrow> muxProxyConn \<Rightarrow>
   unit result \<times> job list \<times> muxProxyConn" where
  "handleGlobalRequest cd listen msg c =
     (let reply = (\<lambda>ok js c'. case replyGlobalRequest cd msg ok c' of (r, c'') \<Rightarrow> (r, js, c'')) in
      if gr_Type msg = ''keepalive@openssh.com'' \<or> gr_Type msg = kMuxUdpModeRequest then reply True [] c
      else if gr_Type msg = ''tcpip-forward'' then
        (case u_tcpipForward cd (gr_Data msg) of None \<Rightarrow> (Inl ''parse tcpip-forward failed'', [], c)
         | Some p \<Rightarrow>
             let port = utoa (unat (tf_Port p));
                 listenAddr = (if tf_Addr p = '''' \<or> tf_Addr p = ''*'' then '':'' @ port
                               else JoinHostPort (tf_Addr p) port) in
             (case addRemoteForward listen (tcpKey (tf_Addr p) (tf_Port p)) ''forwarded-tcpip'' ''tcp''
                     listenAddr (tf_Addr p) (tf_Port p) c of
                ((ok, allocatedPort), js, c1) \<Rightarrow>
                  if \<not> ok then reply False js c1
                  else if tf_Port p = 0 then
                    (case pc_send cd (RequestSuccess (m_port cd allocatedPort)) c1 of (r, c2) \<Rightarrow> (r, js, c2))
                  else reply True js c1))
      else if gr_Type msg = ''cancel-tcpip-forward'' then
        (case u_tcpipForward cd (gr_Data msg) of
           None \<Rightarrow> (Inl ''parse cancel-tcpip-forward failed'', [], c)
         | Some p \<Rightarrow> (case cancelRemoteForward (tcpKey (tf_Addr p) (tf_Port p)) c of
                        (ok, c1) \<Rightarrow> reply ok [] c1))
      else if gr_Type msg = ''streamlocal-forward@openssh.com'' then
        (case u_streamLocalForward cd (gr_Data msg) of
           None \<Rightarrow> (Inl ''parse streamlocal-forward failed'', [], c)
         | Some path \<Rightarrow>
             (case addRemoteForward listen (''unix|'' @ path) ''forwarded-streamlocal@openssh.com'' ''unix''
                     path path 0 c of ((ok, _), js, c1) \<Rightarrow> reply ok js c1))
      else if gr_Type msg = ''cancel-streamlocal-forward@openssh.com'' then
        (case u_streamLocalForward cd (gr_Data msg) of
           None \<Rightarrow> (Inl ''parse cancel-streamlocal-forward failed'', [], c)
         | Some path \<Rightarrow> (case cancelRemoteForward (''unix|'' @ path) c of (ok, c1) \<Rightarrow> reply ok [] c1))
      else reply False [] c)"

section \<open>Opening channels\<close>

definition bindFields :: "u32 \<Rightarrow> u32 \<Rightarrow> u32 \<Rightarrow> muxChannel \<Rightarrow> muxChannel" where
  "bindFields remoteID window maxPacket ch =
     ch\<lparr>ch_remoteID := remoteID, ch_remoteWin := Some (newMuxWindow window),
        ch_remoteMax := min maxPacket kMuxChannelMaxPacket\<rparr>"

text \<open>The reply of the peer to a channel we open; \<open>openReply\<close> holds one reply.\<close>

definition deliverOpenReply :: "u32 \<Rightarrow> ssh_msg \<Rightarrow> muxProxyConn \<Rightarrow> unit result \<times> muxProxyConn" where
  "deliverOpenReply i reply c =
     (case lookupChannel i c of None \<Rightarrow> (Inr (), c)
      | Some a \<Rightarrow>
          let ch = pc_heap c ! a;
              put = (\<lambda>ch'. c\<lparr>pc_heap := (pc_heap c)[a := if ch_openReply ch' = None
                         then ch'\<lparr>ch_openReply := Some reply\<rparr> else ch']\<rparr>) in
          (case reply of
             ChannelOpenConfirm m \<Rightarrow>
               if ch_remoteWin ch \<noteq> None then (Inr (), put ch)
               else if cc_MaxPacketSize m = 0
               then (Inl ''invalid channel open confirmation: max packet size is zero'', c)
               else (Inr (), put (bindFields (cc_MyID m) (cc_MyWindow m) (cc_MaxPacketSize m) ch))
           | _ \<Rightarrow> (Inr (), put ch)))"

definition openForwardedBegin ::
  "ssh_codec \<Rightarrow> muxRemoteForward \<Rightarrow> net_addr option \<Rightarrow> muxProxyConn \<Rightarrow> nat option \<times> muxProxyConn" where
  "openForwardedBegin cd f remoteAddr c =
     (let closeConn = (\<lambda>c'. c'\<lparr>pc_io := emit [FxStreamClose] (pc_io c')\<rparr>) in
      case registerChannel (rf_chanType f) c of None \<Rightarrow> (None, closeConn c)
      | Some (a, c1) \<Rightarrow>
          let c2 = c1\<lparr>pc_heap := (pc_heap c1)[a := (pc_heap c1 ! a)\<lparr>ch_stream := True\<rparr>]\<rparr>;
              lid = ch_localID (pc_heap c2 ! a);
              payload = (if rf_chanType f = ''forwarded-tcpip''
                then (let (oa, op) = originAddress remoteAddr in
                      m_forwardedTcpip cd \<lparr>ft_Addr = rf_addr f, ft_Port = rf_port f,
                        ft_OriginAddr = oa, ft_OriginPort = op\<rparr>)
                else m_forwardedStreamLocal cd (rf_addr f)) in
          (case pc_send cd (ChannelOpen \<lparr>co_ChanType = rf_chanType f, co_PeersID = lid,
                  co_PeersWindow = kMuxChannelWindowSize, co_MaxPacketSize = kMuxChannelMaxPacket,
                  co_TypeSpecificData = payload\<rparr>) c2 of
             (Inl _, c3) \<Rightarrow> (None, closeConn (removeChannel lid c3))
           | (Inr _, c3) \<Rightarrow> (Some a, c3)))"

text \<open>The rest of \<open>openForwardedChannel\<close>, for what its \<open>select\<close> yields: the reply, or nothing on a
  timeout or when the connection is done.\<close>

definition openForwardedEnd ::
  "nat \<Rightarrow> ssh_msg option \<Rightarrow> muxProxyConn \<Rightarrow> job list \<times> muxProxyConn" where
  "openForwardedEnd a reply c =
     (case reply of
        Some (ChannelOpenConfirm _) \<Rightarrow> ([StreamPumps a], c)
      | _ \<Rightarrow> ([], (removeChannel (ch_localID (pc_heap c ! a)) c)\<lparr>pc_io := emit [FxStreamClose] (pc_io c)\<rparr>))"

definition handleChannelOpen ::
  "ssh_codec \<Rightarrow> sshChannelOpenMsg \<Rightarrow> muxProxyConn \<Rightarrow> job list \<times> muxProxyConn" where
  "handleChannelOpen cd msg c =
     (if co_MaxPacketSize msg < 9
      then ([], sendOpenFailure cd (co_PeersID msg) ConnectionFailed ''invalid max packet size'' c)
      else if co_ChanType msg = ''session'' then ([OpenSession msg], c)
      else if co_ChanType msg = ''direct-tcpip'' then
        (case u_directTcpip cd (co_TypeSpecificData msg) of
           None \<Rightarrow> ([], sendOpenFailure cd (co_PeersID msg) ConnectionFailed ''invalid direct-tcpip payload'' c)
         | Some p \<Rightarrow> ([OpenDirect msg ''tcp'' (JoinHostPort (dt_RAddr p) (utoa (unat (dt_RPort p))))], c))
      else if co_ChanType msg = ''direct-streamlocal@openssh.com'' then
        (case u_directStreamLocal cd (co_TypeSpecificData msg) of
           None \<Rightarrow> ([], sendOpenFailure cd (co_PeersID msg) ConnectionFailed
                     ''invalid direct-streamlocal payload'' c)
         | Some path \<Rightarrow> ([OpenDirect msg ''unix'' path], c))
      else ([], sendOpenFailure cd (co_PeersID msg) UnknownChannelType
                 (''unknown channel type: '' @ co_ChanType msg) c))"

definition bindChannel ::
  "ssh_codec \<Rightarrow> nat \<Rightarrow> sshChannelOpenMsg \<Rightarrow> muxProxyConn \<Rightarrow> unit result \<times> muxProxyConn" where
  "bindChannel cd a msg c =
     (let ch = bindFields (co_PeersID msg) (co_PeersWindow msg) (co_MaxPacketSize msg) (pc_heap c ! a) in
      pc_send cd (ChannelOpenConfirm \<lparr>cc_PeersID = co_PeersID msg, cc_MyID = ch_localID ch,
          cc_MyWindow = kMuxChannelWindowSize, cc_MaxPacketSize = kMuxChannelMaxPacket,
          cc_TypeSpecificData = []\<rparr>) (c\<lparr>pc_heap := (pc_heap c)[a := ch]\<rparr>))"

text \<open>\<open>openSessionChannel\<close> up to the registration, for the answer of the backend: an error text, or
  a session with its pipes (\<open>Inl (closes, text)\<close>: whether a session was opened and closed again).\<close>

definition openSessionRegister ::
  "ssh_codec \<Rightarrow> (bool \<times> string) + unit \<Rightarrow> sshChannelOpenMsg \<Rightarrow> muxProxyConn \<Rightarrow> nat option \<times> muxProxyConn" where
  "openSessionRegister cd answer msg c =
     (if co_MaxPacketSize msg = 0
      then (None, sendOpenFailure cd (co_PeersID msg) ConnectionFailed
                    ''invalid channel open request: max packet size is zero'' c)
      else case answer of
        Inl (opened, text) \<Rightarrow>
          (None, sendOpenFailure cd (co_PeersID msg) ConnectionFailed text
                   (if opened then c\<lparr>pc_io := emit [FxSessionClose] (pc_io c)\<rparr> else c))
      | Inr _ \<Rightarrow>
          (case registerChannel (co_ChanType msg) c of
             None \<Rightarrow> (None, c\<lparr>pc_io := emit [FxSessionClose] (pc_io c)\<rparr>)
           | Some (a, c1) \<Rightarrow> (Some a, c1)))"

definition openSessionBind ::
  "ssh_codec \<Rightarrow> nat \<Rightarrow> sshChannelOpenMsg \<Rightarrow> muxProxyConn \<Rightarrow> muxProxyConn" where
  "openSessionBind cd a msg c =
     (let c1 = c\<lparr>pc_heap := (pc_heap c)[a := (pc_heap c ! a)\<lparr>ch_session := True\<rparr>]\<rparr> in
      case bindChannel cd a msg c1 of (Inl _, c2) \<Rightarrow> on_channel a (teardown cd) c2 | (Inr _, c2) \<Rightarrow> c2)"

definition openDirectRegister ::
  "ssh_codec \<Rightarrow> string + unit \<Rightarrow> sshChannelOpenMsg \<Rightarrow> string \<Rightarrow> muxProxyConn \<Rightarrow> nat option \<times> muxProxyConn" where
  "openDirectRegister cd answer msg addr c =
     (if co_MaxPacketSize msg = 0
      then (None, sendOpenFailure cd (co_PeersID msg) ConnectionFailed
                    ''invalid channel open request: max packet size is zero'' c)
      else case answer of
        Inl err \<Rightarrow> (None, sendOpenFailure cd (co_PeersID msg) ConnectionFailed
                        (''dial '' @ addr @ '' failed: '' @ err) c)
      | Inr _ \<Rightarrow>
          (case registerChannel (co_ChanType msg) c of
             None \<Rightarrow> (None, c\<lparr>pc_io := emit [FxStreamClose] (pc_io c)\<rparr>)
           | Some (a, c1) \<Rightarrow> (Some a, c1)))"

definition openDirectBind ::
  "ssh_codec \<Rightarrow> nat \<Rightarrow> sshChannelOpenMsg \<Rightarrow> muxProxyConn \<Rightarrow> job list \<times> muxProxyConn" where
  "openDirectBind cd a msg c =
     (let c1 = c\<lparr>pc_heap := (pc_heap c)[a := (pc_heap c ! a)\<lparr>ch_stream := True\<rparr>]\<rparr> in
      case bindChannel cd a msg c1 of
        (Inl _, c2) \<Rightarrow> ([], on_channel a (teardown cd) c2)
      | (Inr _, c2) \<Rightarrow> ([StreamPumps a], c2))"

section \<open>Packets\<close>

definition chan_types :: "byte set" where
  "chan_types = {kSshMsgChannelWindowAdjust, kSshMsgChannelData, kSshMsgChannelExtendedData,
     kSshMsgChannelEOF, kSshMsgChannelClose, kSshMsgChannelRequest, kSshMsgChannelSuccess,
     kSshMsgChannelFailure}"

definition pc_handlePacket ::
  "ssh_codec \<Rightarrow> backend \<Rightarrow> listen_fn \<Rightarrow> bytes \<Rightarrow> muxProxyConn \<Rightarrow>
   unit result \<times> job list \<times> muxProxyConn" where
  "pc_handlePacket cd be listen pkt c =
     (if pkt = [] then (Inl ''empty ssh packet'', [], c)
      else let t = hd pkt in
        if t = kSshMsgGlobalRequest then
          (case u_globalRequest cd pkt of None \<Rightarrow> (Inl ''parse global request failed'', [], c)
           | Some msg \<Rightarrow> handleGlobalRequest cd listen msg c)
        else if t = kSshMsgRequestSuccess \<or> t = kSshMsgRequestFailure then (Inr (), [], c)
        else if t = kSshMsgChannelOpen then
          (case u_channelOpen cd pkt of None \<Rightarrow> (Inl ''parse channel open failed'', [], c)
           | Some msg \<Rightarrow> (Inr (), handleChannelOpen cd msg c))
        else if t = kSshMsgChannelOpenConfirm then
          (case u_openConfirm cd pkt of None \<Rightarrow> (Inl ''parse channel open confirmation failed'', [], c)
           | Some msg \<Rightarrow> (case deliverOpenReply (cc_PeersID msg) (ChannelOpenConfirm msg) c of
                            (r, c1) \<Rightarrow> (r, [], c1)))
        else if t = kSshMsgChannelOpenFailure then
          (case u_openFailure cd pkt of None \<Rightarrow> (Inl ''parse channel open failure failed'', [], c)
           | Some msg \<Rightarrow> (case deliverOpenReply (cf_PeersID msg) (ChannelOpenFailure msg) c of
                            (r, c1) \<Rightarrow> (r, [], c1)))
        else if t \<in> chan_types then
          (if length pkt < 5 then (Inl ''channel message too short'', [], c)
           else case lookupChannel (Uint32 (take 4 (drop 1 pkt))) c of
             None \<Rightarrow> (Inr (), [], c)
           | Some a \<Rightarrow>
               (case ch_handlePacket cd be pkt (pc_heap c ! a) (pc_io c) of
                  (r, ch, io, gone) \<Rightarrow>
                    let c1 = c\<lparr>pc_heap := (pc_heap c)[a := ch], pc_io := io\<rparr> in
                    (r, [], if gone then removeChannel (ch_localID ch) c1 else c1)))
        else (Inl ''unexpected ssh message type'', [], c))"

lemma muxReadSshPacket_shorter: "muxReadSshPacket r = Inr (p, r1) \<Longrightarrow> length r1 < length r"
  by (auto simp: muxReadSshPacket_def muxReadPacket_def ReadFull_def Let_def
      split: if_splits sum.splits prod.splits list.splits)

text \<open>
  The read loop over what arrives on the socket, with the backend's answers while the \<open>n\<close>-th packet
  is handled.  It ends with \<open>close\<close> when the stream ends or a handler reports an error; the jobs
  are the goroutines it has started.
\<close>

function serve ::
  "ssh_codec \<Rightarrow> (nat \<Rightarrow> backend \<times> listen_fn) \<Rightarrow> nat \<Rightarrow> bytes \<Rightarrow> muxProxyConn \<Rightarrow> job list \<times> muxProxyConn" where
  "serve cd answer n r c =
     (case muxReadSshPacket r of
        Inl _ \<Rightarrow> ([], pc_close cd c)
      | Inr (pkt, r1) \<Rightarrow>
          (case pc_handlePacket cd (fst (answer n)) (snd (answer n)) pkt c of
             (Inl _, js, c1) \<Rightarrow> (js, pc_close cd c1)
           | (Inr _, js, c1) \<Rightarrow> (case serve cd answer (Suc n) r1 c1 of (js2, c2) \<Rightarrow> (js @ js2, c2))))"
  by pat_completeness auto
termination
  by (relation "measure (\<lambda>(cd, answer, n, r, c). length r)") (auto dest: muxReadSshPacket_shorter)

declare serve.simps [simp del]

end
