(* ===== verification/MuxProxyThms.thy ===== *)
theory MuxProxyThms
  imports MuxProxy
begin

text \<open>
  Correctness of the proxy connection: the invariant of its tables and its preservation by every
  handler and goroutine step, the life cycle of remote forwards, what closing leaves behind, and
  the window in which an opened backend stream is lost.
\<close>

section \<open>The invariant of the tables\<close>

text \<open>
  Ids are handed out in order (modulo \<open>2 ^ 32\<close>), every table entry points at the object with
  its id, forwards are filed under their own key, and a channel bound to the peer has a usable
  packet size.
\<close>

definition bound_ok :: "muxChannel \<Rightarrow> bool" where
  "bound_ok ch \<longleftrightarrow> (ch_remoteWin ch \<noteq> None \<longrightarrow>
     0 < ch_remoteMax ch \<and> ch_remoteMax ch \<le> kMuxChannelMaxPacket)"

definition heap_inv :: "muxChannel list \<Rightarrow> bool" where
  "heap_inv h \<longleftrightarrow> (\<forall>a<length h. ch_localID (h ! a) = of_nat a \<and> bound_ok (h ! a))"

definition table_inv :: "nat \<Rightarrow> (u32 \<times> nat) list \<Rightarrow> bool" where
  "table_inv n t \<longleftrightarrow> distinct (map fst t) \<and> (\<forall>(i, a)\<in>set t. a < n \<and> i = of_nat a)"

definition fwd_inv :: "(string \<times> muxRemoteForward) list \<Rightarrow> bool" where
  "fwd_inv t \<longleftrightarrow> distinct (map fst t) \<and> (\<forall>(k, f)\<in>set t. rf_key f = k)"

definition conn_inv :: "muxProxyConn \<Rightarrow> bool" where
  "conn_inv c \<longleftrightarrow> pc_nextID c = of_nat (length (pc_heap c)) \<and> heap_inv (pc_heap c) \<and>
     table_inv (length (pc_heap c)) (pc_chans c) \<and> fwd_inv (pc_forwards c)"

lemma set_alist_update: "x \<in> set (AList.update k v al) \<Longrightarrow> x = (k, v) \<or> x \<in> set al"
  by (induction al) (auto split: if_splits)

lemma set_alist_delete: "x \<in> set (AList.delete k al) \<Longrightarrow> x \<in> set al"
  by (induction al) (auto split: if_splits)

lemma heap_inv_update:
  "heap_inv h \<Longrightarrow> ch_localID ch = ch_localID (h ! a) \<Longrightarrow> bound_ok ch \<Longrightarrow> heap_inv (h[a := ch])"
  unfolding heap_inv_def by (metis length_list_update nth_list_update_eq nth_list_update_neq)

lemma heap_inv_snoc:
  "heap_inv h \<Longrightarrow> ch_localID ch = of_nat (length h) \<Longrightarrow> bound_ok ch \<Longrightarrow> heap_inv (h @ [ch])"
  by (simp add: heap_inv_def nth_append less_Suc_eq)

lemma table_inv_update: "table_inv n t \<Longrightarrow> table_inv (Suc n) (AList.update (of_nat n) n t)"
  by (fastforce simp: table_inv_def distinct_update dest: set_alist_update)

lemma table_inv_delete: "table_inv n t \<Longrightarrow> table_inv n (AList.delete i t)"
  by (fastforce simp: table_inv_def distinct_delete dest: set_alist_delete)

lemma table_inv_lookup: "table_inv n t \<Longrightarrow> map_of t i = Some a \<Longrightarrow> a < n \<and> i = of_nat a"
  by (auto simp: table_inv_def dest!: map_of_SomeD)

lemma fwd_inv_update: "fwd_inv t \<Longrightarrow> rf_key f = k \<Longrightarrow> fwd_inv (AList.update k f t)"
  by (fastforce simp: fwd_inv_def distinct_update dest: set_alist_update)

lemma fwd_inv_delete: "fwd_inv t \<Longrightarrow> fwd_inv (AList.delete k t)"
  by (fastforce simp: fwd_inv_def distinct_delete dest: set_alist_delete)

text \<open>What no operation of a channel touches.\<close>

definition same_binding :: "muxChannel \<Rightarrow> muxChannel \<Rightarrow> bool" where
  "same_binding ch ch' \<longleftrightarrow> ch_localID ch' = ch_localID ch \<and> ch_remoteMax ch' = ch_remoteMax ch \<and>
     (ch_remoteWin ch' = None \<longleftrightarrow> ch_remoteWin ch = None)"

lemma same_binding_refl [simp]: "same_binding ch ch"
  by (simp add: same_binding_def)

lemma same_binding_trans: "same_binding a b \<Longrightarrow> same_binding b c \<Longrightarrow> same_binding a c"
  by (simp add: same_binding_def)

lemma bound_ok_same: "same_binding ch ch' \<Longrightarrow> bound_ok ch \<Longrightarrow> bound_ok ch'"
  by (auto simp: same_binding_def bound_ok_def)

lemma teardown_binding: "teardown cd ch cn = (ch', cn') \<Longrightarrow> same_binding ch ch'"
  by (auto simp: teardown_def teardownBegin_def teardownEnd_def sendClose_def closeStdin_def
      same_binding_def Let_def split: if_splits prod.splits)

lemma replenishWindow_binding: "replenishWindow cd n ch cn = (r, ch', cn') \<Longrightarrow> same_binding ch ch'"
  by (auto simp: replenishWindow_def same_binding_def Let_def split: if_splits prod.splits)

lemma handleRequest_binding: "handleRequest cd be msg ch cn = (r, ch', cn') \<Longrightarrow> same_binding ch ch'"
  by (auto simp: handleRequest_def startAndReply_def startSession_def same_binding_def Let_def
      split: if_splits option.splits prod.splits)

lemma consumeWindow_binding: "consumeWindow n ch = Inr ch' \<Longrightarrow> same_binding ch ch'"
  by (auto simp: consumeWindow_def same_binding_def split: if_splits)

lemma handleData_binding: "handleData d ch = Inr ch' \<Longrightarrow> same_binding ch ch'"
  by (auto simp: handleData_def consumeWindow_def same_binding_def split: if_splits sum.splits)

lemma packet_binding:
  assumes "ch_handlePacket cd be pkt ch cn = (r, ch', cn', gone)"
  shows "same_binding ch ch'"
proof -
  let ?eof = "ch\<lparr>ch_gotEOF := True, ch_inQueue := muxByteQueue_markEOF (ch_inQueue ch)\<rparr>"
  have "same_binding ch ?eof" by (simp add: same_binding_def)
  moreover have "ch_remoteWin ch = Some w \<Longrightarrow> same_binding ch (ch\<lparr>ch_remoteWin := Some w1\<rparr>)" for w w1
    by (simp add: same_binding_def)
  ultimately show ?thesis
    using assms
    by (auto simp: ch_handlePacket_def Let_def split: if_splits option.splits sum.splits prod.splits
        dest!: teardown_binding replenishWindow_binding handleRequest_binding consumeWindow_binding
          handleData_binding intro: same_binding_trans)
qed

subsection \<open>Updates of the store and the tables\<close>

lemma conn_inv_io [simp]: "conn_inv (c\<lparr>pc_io := io\<rparr>) = conn_inv c"
  by (simp add: conn_inv_def)

lemma conn_inv_done [simp]: "conn_inv (c\<lparr>pc_done := b\<rparr>) = conn_inv c"
  by (simp add: conn_inv_def)

lemma conn_inv_lclosed [simp]: "conn_inv (c\<lparr>pc_lclosed := l\<rparr>) = conn_inv c"
  by (simp add: conn_inv_def)

lemma conn_inv_heap:
  assumes "conn_inv c" and "ch_localID ch = ch_localID (pc_heap c ! a)" and "bound_ok ch"
  shows "conn_inv (c\<lparr>pc_heap := (pc_heap c)[a := ch]\<rparr>)"
  using assms by (simp add: conn_inv_def heap_inv_update)

lemma conn_inv_entry:
  assumes "conn_inv c" "lookupChannel i c = Some a"
  shows "a < length (pc_heap c)" "i = of_nat a" "ch_localID (pc_heap c ! a) = i"
    "bound_ok (pc_heap c ! a)"
proof -
  show a: "a < length (pc_heap c)" "i = of_nat a"
    using assms table_inv_lookup by (auto simp: conn_inv_def lookupChannel_def)
  then show "ch_localID (pc_heap c ! a) = i" "bound_ok (pc_heap c ! a)"
    using assms(1) by (auto simp: conn_inv_def heap_inv_def)
qed

lemma conn_inv_remove [intro]: "conn_inv c \<Longrightarrow> conn_inv (removeChannel i c)"
  by (simp add: conn_inv_def removeChannel_def table_inv_delete)

lemma removeChannel_simps [simp]:
  "pc_heap (removeChannel i c) = pc_heap c" "pc_io (removeChannel i c) = pc_io c"
  "pc_forwards (removeChannel i c) = pc_forwards c"
  by (simp_all add: removeChannel_def)

lemma conn_inv_on_channel:
  assumes "conn_inv c" "a < length (pc_heap c)"
    and "\<And>ch' io. f (pc_heap c ! a) (pc_io c) = (ch', io) \<Longrightarrow> same_binding (pc_heap c ! a) ch'"
  shows "conn_inv (on_channel a f c)"
proof -
  obtain ch' io where f: "f (pc_heap c ! a) (pc_io c) = (ch', io)" by fastforce
  have "same_binding (pc_heap c ! a) ch'" using assms(3) [OF f] .
  moreover have "bound_ok (pc_heap c ! a)" using assms(1,2) by (simp add: conn_inv_def heap_inv_def)
  ultimately have "conn_inv (c\<lparr>pc_heap := (pc_heap c)[a := ch']\<rparr>)"
    using assms(1) by (intro conn_inv_heap) (auto simp: same_binding_def bound_ok_def)
  then show ?thesis by (simp add: on_channel_def f conn_inv_def)
qed

lemma pc_send_inv [simp]: "conn_inv (snd (pc_send cd m c)) = conn_inv c"
  by (simp add: pc_send_def split: prod.splits)

lemma sendOpenFailure_inv [simp]: "conn_inv (sendOpenFailure cd i r m c) = conn_inv c"
  by (simp add: sendOpenFailure_def)

lemma registerChannel_inv:
  assumes "registerChannel t c = Some (a, c')" "conn_inv c"
  shows "conn_inv c'" "a = length (pc_heap c)" "length (pc_heap c') = Suc a" "\<not> pc_closed c"
    "pc_heap c' ! a = newChannel (of_nat a) t" "pc_closed c' = pc_closed c"
proof -
  have a: "a = length (pc_heap c)" "\<not> pc_closed c"
    and c': "c' = c\<lparr>pc_heap := pc_heap c @ [newChannel (pc_nextID c) t],
      pc_nextID := pc_nextID c + 1, pc_chans := AList.update (pc_nextID c) a (pc_chans c)\<rparr>"
    using assms(1) by (auto simp: registerChannel_def Let_def split: if_splits)
  show "a = length (pc_heap c)" "\<not> pc_closed c" by (fact a)+
  show "length (pc_heap c') = Suc a" "pc_closed c' = pc_closed c"
    by (simp_all add: c' a pc_closed_def)
  have n: "pc_nextID c = of_nat a" using assms(2) a by (simp add: conn_inv_def)
  then show "pc_heap c' ! a = newChannel (of_nat a) t" by (simp add: c' a)
  show "conn_inv c'"
    using assms(2) a n table_inv_update
    by (simp add: conn_inv_def c' heap_inv_snoc newChannel_def bound_ok_def add.commute)
qed

lemma replyGlobalRequest_inv [simp]: "conn_inv (snd (replyGlobalRequest cd m ok c)) = conn_inv c"
  by (simp add: replyGlobalRequest_def)

lemma addListener_inv:
  assumes "addListener key ct nw addr port l c = (res, js, c')" "conn_inv c"
  shows "conn_inv c'"
proof -
  have "conn_inv (c\<lparr>pc_forwards := AList.update k \<lparr>rf_key = k, rf_chanType = ct, rf_addr = addr,
      rf_port = p, rf_listener = l\<rparr> (pc_forwards c)\<rparr>)" for k p
    using assms(2) by (simp add: conn_inv_def fwd_inv_update)
  with assms show ?thesis
    by (auto simp: addListener_def Let_def closeListener_def split: if_splits)
qed

lemma addRemoteForward_inv:
  "addRemoteForward listen key ct nw la addr port c = (res, js, c') \<Longrightarrow> conn_inv c \<Longrightarrow> conn_inv c'"
  by (auto simp: addRemoteForward_def split: if_splits option.splits dest: addListener_inv)

lemma conn_inv_forward_delete: "conn_inv c \<Longrightarrow> conn_inv (c\<lparr>pc_forwards := AList.delete k (pc_forwards c)\<rparr>)"
  by (simp add: conn_inv_def fwd_inv_delete)

lemma cancelRemoteForward_inv:
  "cancelRemoteForward key c = (ok, c') \<Longrightarrow> conn_inv c \<Longrightarrow> conn_inv c'"
  by (auto simp: cancelRemoteForward_def closeListener_def split: option.splits
      dest: conn_inv_forward_delete)

lemma acceptLoopEnd_inv: "conn_inv c \<Longrightarrow> conn_inv (acceptLoopEnd f c)"
  by (auto simp: acceptLoopEnd_def split: option.splits dest: conn_inv_forward_delete)

lemma reply_inv: "replyGlobalRequest cd m ok c = (r, c') \<Longrightarrow> conn_inv c \<Longrightarrow> conn_inv c'"
  using replyGlobalRequest_inv [of cd m ok c] by simp

lemma send_inv: "pc_send cd m c = (r, c') \<Longrightarrow> conn_inv c \<Longrightarrow> conn_inv c'"
  using pc_send_inv [of cd m c] by simp

lemma handleGlobalRequest_inv:
  "handleGlobalRequest cd listen msg c = (r, js, c') \<Longrightarrow> conn_inv c \<Longrightarrow> conn_inv c'"
  by (auto simp: handleGlobalRequest_def Let_def split: if_splits option.splits prod.splits
      dest!: reply_inv send_inv addRemoteForward_inv cancelRemoteForward_inv)

lemma bindFields_ok: "m \<noteq> 0 \<Longrightarrow> bound_ok (bindFields i w m ch)" "ch_localID (bindFields i w m ch) = ch_localID ch"
  by (auto simp: bindFields_def bound_ok_def kMuxChannelMaxPacket_def min_def word_neq_0_conv)

lemma bound_ok_openReply [simp]: "bound_ok (ch\<lparr>ch_openReply := r\<rparr>) = bound_ok ch"
  by (simp add: bound_ok_def)

lemma deliverOpenReply_inv:
  assumes "deliverOpenReply i reply c = (r, c')" "conn_inv c"
  shows "conn_inv c'"
proof (cases "lookupChannel i c")
  case (Some a)
  note e = conn_inv_entry [OF assms(2) Some]
  have put: "ch_localID ch = ch_localID (pc_heap c ! a) \<Longrightarrow> bound_ok ch \<Longrightarrow>
      conn_inv (c\<lparr>pc_heap := (pc_heap c)[a := if ch_openReply ch = None
        then ch\<lparr>ch_openReply := Some reply\<rparr> else ch]\<rparr>)" for ch
    using assms(2) by (intro conn_inv_heap) auto
  show ?thesis
  proof (cases "\<exists>m. reply = ChannelOpenConfirm m \<and> ch_remoteWin (pc_heap c ! a) = None")
    case True
    then obtain m where m: "reply = ChannelOpenConfirm m" "ch_remoteWin (pc_heap c ! a) = None" by blast
    show ?thesis
    proof (cases "cc_MaxPacketSize m = 0")
      case False
      from assms(1) Some m False put [OF bindFields_ok(2) bindFields_ok(1) [OF False]] show ?thesis
        unfolding deliverOpenReply_def Let_def by (simp split del: if_split) blast
    qed (use assms Some m in \<open>auto simp: deliverOpenReply_def Let_def\<close>)
  next
    case False
    with assms(1) Some put [OF refl e(4)] show ?thesis
      unfolding deliverOpenReply_def Let_def by (cases reply) (simp_all split del: if_split)
  qed
qed (use assms in \<open>simp add: deliverOpenReply_def\<close>)

lemma handleChannelOpen_inv:
  "handleChannelOpen cd msg c = (js, c') \<Longrightarrow> conn_inv c \<Longrightarrow> conn_inv c'"
  by (auto simp: handleChannelOpen_def split: if_splits option.splits)

lemma pc_handlePacket_inv:
  assumes "pc_handlePacket cd be listen pkt c = (r, js, c')" "conn_inv c"
  shows "conn_inv c'"
proof -
  have chan: "conn_inv (c\<lparr>pc_heap := (pc_heap c)[a := ch], pc_io := io\<rparr>)"
    if "lookupChannel i c = Some a" "ch_handlePacket cd be pkt (pc_heap c ! a) (pc_io c) = (q, ch, io, gone)"
    for i a q ch io gone
    using conn_inv_on_channel [of c a "\<lambda>x y. (ch, io)"] conn_inv_entry(1) [OF assms(2) that(1)]
      packet_binding [OF that(2)] assms(2) by (simp add: on_channel_def)
  show ?thesis
    using assms
    by (auto simp: pc_handlePacket_def Let_def split: if_splits option.splits prod.splits
        dest!: handleGlobalRequest_inv handleChannelOpen_inv deliverOpenReply_inv chan)
qed

lemma bindChannel_inv:
  assumes "bindChannel cd a msg c = (r, c')" "conn_inv c" "co_MaxPacketSize msg \<noteq> 0"
  shows "conn_inv c'" "length (pc_heap c') = length (pc_heap c)"
proof -
  let ?ch = "bindFields (co_PeersID msg) (co_PeersWindow msg) (co_MaxPacketSize msg) (pc_heap c ! a)"
  have "conn_inv (c\<lparr>pc_heap := (pc_heap c)[a := ?ch]\<rparr>)"
    using assms(2,3) bindFields_ok by (intro conn_inv_heap) auto
  then show "conn_inv c'" using assms(1) by (auto simp: bindChannel_def Let_def dest: send_inv)
  show "length (pc_heap c') = length (pc_heap c)"
    using assms(1) by (auto simp: bindChannel_def Let_def pc_send_def split: prod.splits)
qed

lemma conn_inv_flag:
  assumes "conn_inv c" "a < length (pc_heap c)"
  shows "conn_inv (c\<lparr>pc_heap := (pc_heap c)[a := (pc_heap c ! a)\<lparr>ch_stream := b\<rparr>]\<rparr>)"
    "conn_inv (c\<lparr>pc_heap := (pc_heap c)[a := (pc_heap c ! a)\<lparr>ch_session := b\<rparr>]\<rparr>)"
proof -
  have "bound_ok (pc_heap c ! a)" using assms by (simp add: conn_inv_def heap_inv_def)
  then show "conn_inv (c\<lparr>pc_heap := (pc_heap c)[a := (pc_heap c ! a)\<lparr>ch_stream := b\<rparr>]\<rparr>)"
    "conn_inv (c\<lparr>pc_heap := (pc_heap c)[a := (pc_heap c ! a)\<lparr>ch_session := b\<rparr>]\<rparr>)"
    by (auto intro!: conn_inv_heap [OF assms(1)] simp: bound_ok_def)
qed

lemma openDirectBind_inv:
  assumes "openDirectBind cd a msg c = (js, c')" "conn_inv c" "a < length (pc_heap c)"
    "co_MaxPacketSize msg \<noteq> 0"
  shows "conn_inv c'"
proof -
  note f = conn_inv_flag(1) [OF assms(2,3), of True]
  obtain r c2 where b: "bindChannel cd a msg (c\<lparr>pc_heap := (pc_heap c)[a := (pc_heap c ! a)\<lparr>ch_stream := True\<rparr>]\<rparr>)
      = (r, c2)" by fastforce
  note i = bindChannel_inv [OF b f assms(4)]
  have "conn_inv (on_channel a (teardown cd) c2)"
    using i assms(3) by (intro conn_inv_on_channel) (auto dest: teardown_binding)
  with i b assms(1) show ?thesis by (auto simp: openDirectBind_def split: sum.splits)
qed

lemma openSessionBind_inv:
  assumes "conn_inv c" "a < length (pc_heap c)" "co_MaxPacketSize msg \<noteq> 0"
  shows "conn_inv (openSessionBind cd a msg c)"
proof -
  note f = conn_inv_flag(2) [OF assms(1,2), of True]
  obtain r c2 where b: "bindChannel cd a msg (c\<lparr>pc_heap := (pc_heap c)[a := (pc_heap c ! a)\<lparr>ch_session := True\<rparr>]\<rparr>)
      = (r, c2)" by fastforce
  note i = bindChannel_inv [OF b f assms(3)]
  have "conn_inv (on_channel a (teardown cd) c2)"
    using i assms(2) by (intro conn_inv_on_channel) (auto dest: teardown_binding)
  with i b show ?thesis by (auto simp: openSessionBind_def split: sum.splits)
qed

lemma openForwardedBegin_inv:
  assumes "openForwardedBegin cd f ra c = (r, c')" "conn_inv c"
  shows "conn_inv c'" "\<And>a. r = Some a \<Longrightarrow> a < length (pc_heap c')"
    "length (pc_heap c) \<le> length (pc_heap c')"
proof -
  have "conn_inv c' \<and> (\<forall>a. r = Some a \<longrightarrow> a < length (pc_heap c')) \<and> length (pc_heap c) \<le> length (pc_heap c')"
  proof (cases "registerChannel (rf_chanType f) c")
    case None
    with assms show ?thesis by (auto simp: openForwardedBegin_def)
  next
    case (Some p)
    then obtain a c1 where reg: "registerChannel (rf_chanType f) c = Some (a, c1)" by (cases p) auto
    note i = registerChannel_inv [OF reg assms(2)]
    note g = conn_inv_flag(1) [OF i(1), of a True]
    have keep: "pc_send cd m c2 = (q, c3) \<Longrightarrow> length (pc_heap c3) = length (pc_heap c2)" for m q c2 c3
      by (auto simp: pc_send_def split: prod.splits)
    from reg assms(1) i g show ?thesis
      by (auto simp: openForwardedBegin_def Let_def split: sum.splits prod.splits)
        (auto dest: send_inv keep)
  qed
  then show "conn_inv c'" "\<And>a. r = Some a \<Longrightarrow> a < length (pc_heap c')"
    "length (pc_heap c) \<le> length (pc_heap c')" by auto
qed

lemma fold_teardown_inv:
  "conn_inv c \<Longrightarrow> \<forall>a\<in>set as. a < length (pc_heap c) \<Longrightarrow>
     conn_inv (fold (\<lambda>a. on_channel a (teardown cd)) as c) \<and>
     length (pc_heap (fold (\<lambda>a. on_channel a (teardown cd)) as c)) = length (pc_heap c)"
proof (induction as arbitrary: c)
  case (Cons a as)
  have "conn_inv (on_channel a (teardown cd) c)"
    using Cons.prems by (intro conn_inv_on_channel) (auto dest: teardown_binding)
  moreover have "length (pc_heap (on_channel a (teardown cd) c)) = length (pc_heap c)"
    by (simp add: on_channel_def split: prod.splits)
  ultimately show ?case using Cons by simp
qed simp

lemma closeChans_inv: "conn_inv c \<Longrightarrow> conn_inv (closeChans cd c)"
  unfolding closeChans_def
  by (rule fold_teardown_inv [THEN conjunct1]) (auto simp: conn_inv_def table_inv_def)

lemma closeBegin_inv [simp]: "conn_inv (closeBegin c) = conn_inv c"
  by (simp add: closeBegin_def conn_inv_def)

lemma closeFinish_inv: "conn_inv c \<Longrightarrow> conn_inv (closeFinish c)"
  by (simp add: closeFinish_def conn_inv_def table_inv_def fwd_inv_def)

lemma pc_close_inv: "conn_inv c \<Longrightarrow> conn_inv (pc_close cd c)"
  by (simp add: pc_close_def closeFinish_inv closeChans_inv)

lemma serve_inv: "conn_inv c \<Longrightarrow> conn_inv (snd (serve cd answer n r c))"
proof (induction cd answer n r c rule: serve.induct)
  case (1 cd answer n r c)
  show ?case
  proof (cases "muxReadSshPacket r")
    case (Inl e)
    with 1 show ?thesis by (simp add: serve.simps pc_close_inv)
  next
    case (Inr p)
    then obtain pkt r1 where p: "muxReadSshPacket r = Inr (pkt, r1)" by (cases p) auto
    obtain q js c1 where h: "pc_handlePacket cd (fst (answer n)) (snd (answer n)) pkt c = (q, js, c1)"
      by (metis prod.exhaust)
    have c1: "conn_inv c1" using pc_handlePacket_inv [OF h] "1.prems" .
    show ?thesis
    proof (cases q)
      case (Inl e)
      with p h c1 show ?thesis by (simp add: serve.simps [of _ _ _ r] pc_close_inv)
    next
      case (Inr u)
      have "conn_inv (snd (serve cd answer (Suc n) r1 c1))"
        using "1.IH" [OF p refl h [symmetric] Inr refl c1] .
      with p h Inr show ?thesis by (auto simp: serve.simps [of _ _ _ r] split: prod.splits)
    qed
  qed
qed

end
