(* ===== verification/MuxProxyRun.thy ===== *)
theory MuxProxyRun
  imports MuxProxyThms
begin

text \<open>
  The goroutines of a proxy connection.  A state is the connection with the tasks under way; a
  step is what one goroutine does between two points where another may run: the handling of a
  packet, the registration and the binding of an opened channel, the three parts of \<open>close\<close>, and
  any action of a channel's pumps.  Over it: the table invariant, that a closed connection stays
  empty, the life cycle of remote forwards, and the leak in the opening of a direct channel.
\<close>

section \<open>Steps\<close>

datatype task =
    TJob job
  | TBindSession nat sshChannelOpenMsg
  | TBindDirect nat sshChannelOpenMsg
  | TForwarded nat
  | TCloseChans
  | TCloseFinish

type_synonym conn_run = "muxProxyConn \<times> task list"

inductive conn_step :: "ssh_codec \<Rightarrow> conn_run \<Rightarrow> conn_run \<Rightarrow> bool" for cd where
  packet: "pc_handlePacket cd be listen pkt c = (r, js, c') \<Longrightarrow>
    conn_step cd (c, ts) (c', ts @ map TJob js)"
| session_reg: "openSessionRegister cd answer msg c = (r, c') \<Longrightarrow>
    conn_step cd (c, ts1 @ TJob (OpenSession msg) # ts2)
      (c', ts1 @ (case r of None \<Rightarrow> [] | Some a \<Rightarrow> [TBindSession a msg]) @ ts2)"
| session_bind: "conn_step cd (c, ts1 @ TBindSession a msg # ts2) (openSessionBind cd a msg c, ts1 @ ts2)"
| direct_reg: "openDirectRegister cd answer msg addr c = (r, c') \<Longrightarrow>
    conn_step cd (c, ts1 @ TJob (OpenDirect msg network addr) # ts2)
      (c', ts1 @ (case r of None \<Rightarrow> [] | Some a \<Rightarrow> [TBindDirect a msg]) @ ts2)"
| direct_bind: "openDirectBind cd a msg c = (js, c') \<Longrightarrow>
    conn_step cd (c, ts1 @ TBindDirect a msg # ts2) (c', ts1 @ map TJob js @ ts2)"
| accept: "openForwardedBegin cd f remoteAddr c = (r, c') \<Longrightarrow>
    conn_step cd (c, ts1 @ TJob (AcceptLoop f) # ts2)
      (c', ts1 @ TJob (AcceptLoop f) # (case r of None \<Rightarrow> [] | Some a \<Rightarrow> [TForwarded a]) @ ts2)"
| accept_end: "conn_step cd (c, ts1 @ TJob (AcceptLoop f) # ts2) (acceptLoopEnd f c, ts1 @ ts2)"
| forwarded: "openForwardedEnd a reply c = (js, c') \<Longrightarrow>
    conn_step cd (c, ts1 @ TForwarded a # ts2) (c', ts1 @ map TJob js @ ts2)"
| close: "\<not> pc_closed c \<Longrightarrow> conn_step cd (c, ts) (closeBegin c, ts @ [TCloseChans])"
| close_chans: "conn_step cd (c, ts1 @ TCloseChans # ts2) (closeChans cd c, ts1 @ TCloseFinish # ts2)"
| close_finish: "conn_step cd (c, ts1 @ TCloseFinish # ts2) (closeFinish c, ts1 @ ts2)"
| channel: "chan_step cd be s s' \<Longrightarrow> a < length (pc_heap c) \<Longrightarrow> r_ch s = pc_heap c ! a \<Longrightarrow>
    r_cn s = pc_io c \<Longrightarrow>
    conn_step cd (c, ts) (c\<lparr>pc_heap := (pc_heap c)[a := r_ch s'], pc_io := r_cn s'\<rparr>, ts)"

inductive conn_reach :: "ssh_codec \<Rightarrow> conn_run \<Rightarrow> bool" for cd where
  start: "conn_reach cd (newMuxProxyConn rw hasOnClose, [])"
| step: "conn_reach cd s \<Longrightarrow> conn_step cd s s' \<Longrightarrow> conn_reach cd s'"

section \<open>The invariant in every interleaving\<close>

text \<open>The addresses the tasks hold exist, and a channel is only bound to a usable packet size.\<close>

fun task_ok :: "nat \<Rightarrow> task \<Rightarrow> bool" where
  "task_ok n (TBindSession a msg) \<longleftrightarrow> a < n \<and> co_MaxPacketSize msg \<noteq> 0"
| "task_ok n (TBindDirect a msg) \<longleftrightarrow> a < n \<and> co_MaxPacketSize msg \<noteq> 0"
| "task_ok n (TForwarded a) \<longleftrightarrow> a < n"
| "task_ok n _ \<longleftrightarrow> True"

definition run_inv :: "conn_run \<Rightarrow> bool" where
  "run_inv s \<longleftrightarrow> conn_inv (fst s) \<and> (\<forall>t\<in>set (snd s). task_ok (length (pc_heap (fst s))) t)"

lemma task_ok_mono: "task_ok n t \<Longrightarrow> n \<le> m \<Longrightarrow> task_ok m t"
  by (cases t) auto

lemma task_ok_job [simp]: "task_ok n (TJob j)"
  by simp

lemma run_inv_step:
  assumes "run_inv (c, ts)" "conn_inv c'" "length (pc_heap c) \<le> length (pc_heap c')"
    and "\<And>t. t \<in> set ts' \<Longrightarrow> t \<in> set ts \<or> task_ok (length (pc_heap c')) t"
  shows "run_inv (c', ts')"
  using assms task_ok_mono by (fastforce simp: run_inv_def)

lemma chan_step_binding: "chan_step cd be s s' \<Longrightarrow> same_binding (r_ch s) (r_ch s')"
proof (induction rule: chan_step.induct)
  case (packet pkt s r ch cn rm)
  then show ?case using packet_binding by simp
next
  case (write_in s d ok go ch cn)
  have "same_binding (r_ch s) ((r_ch s)\<lparr>ch_inQueue := q\<rparr>)" for q by (simp add: same_binding_def)
  with write_in show ?case
    by (auto simp: pumpInWrite_def Let_def split: if_splits prod.splits
        dest!: teardown_binding replenishWindow_binding intro: same_binding_trans)
qed (auto simp: same_binding_def pumpInEnd_def closeStdin_def sendEOF_def teardownBegin_def
    teardownEnd_def sendClose_def Let_def split: if_splits prod.splits)

lemma openSessionRegister_inv:
  assumes "openSessionRegister cd answer msg c = (r, c')" "conn_inv c"
  shows "conn_inv c' \<and> length (pc_heap c) \<le> length (pc_heap c') \<and>
    (\<forall>a. r = Some a \<longrightarrow> a < length (pc_heap c') \<and> co_MaxPacketSize msg \<noteq> 0)"
proof (cases "\<exists>a. r = Some a")
  case True
  then obtain a where "registerChannel (co_ChanType msg) c = Some (a, c')" "r = Some a"
    "co_MaxPacketSize msg \<noteq> 0"
    using assms(1) by (auto simp: openSessionRegister_def split: if_splits sum.splits option.splits)
  then show ?thesis using registerChannel_inv [OF _ assms(2), of "co_ChanType msg" a c'] by auto
next
  case False
  with assms show ?thesis
    by (auto simp: openSessionRegister_def sendOpenFailure_def pc_send_def
        split: if_splits sum.splits option.splits prod.splits)
qed

lemma openDirectRegister_inv:
  assumes "openDirectRegister cd answer msg addr c = (r, c')" "conn_inv c"
  shows "conn_inv c' \<and> length (pc_heap c) \<le> length (pc_heap c') \<and>
    (\<forall>a. r = Some a \<longrightarrow> a < length (pc_heap c') \<and> co_MaxPacketSize msg \<noteq> 0)"
proof (cases "\<exists>a. r = Some a")
  case True
  then obtain a where "registerChannel (co_ChanType msg) c = Some (a, c')" "r = Some a"
    "co_MaxPacketSize msg \<noteq> 0"
    using assms(1) by (auto simp: openDirectRegister_def split: if_splits sum.splits option.splits)
  then show ?thesis using registerChannel_inv [OF _ assms(2), of "co_ChanType msg" a c'] by auto
next
  case False
  with assms show ?thesis
    by (auto simp: openDirectRegister_def sendOpenFailure_def pc_send_def
        split: if_splits sum.splits option.splits prod.splits)
qed

text \<open>No handler but a registration changes the number of objects.\<close>

lemma pc_send_heap [simp]: "pc_heap (snd (pc_send cd m c)) = pc_heap c"
  by (simp add: pc_send_def split: prod.splits)

lemma sendOpenFailure_heap [simp]: "pc_heap (sendOpenFailure cd i r m c) = pc_heap c"
  by (simp add: sendOpenFailure_def)

lemma send_heap: "pc_send cd m c = (r, c') \<Longrightarrow> pc_heap c' = pc_heap c"
  by (auto simp: pc_send_def split: prod.splits)

lemma reply_heap: "replyGlobalRequest cd m ok c = (r, c') \<Longrightarrow> pc_heap c' = pc_heap c"
  by (auto simp: replyGlobalRequest_def split: if_splits dest: send_heap)

lemma forward_heap:
  "addRemoteForward listen key ct nw la addr port c = (res, js, c') \<Longrightarrow> pc_heap c' = pc_heap c"
  "cancelRemoteForward key c = (ok, c') \<Longrightarrow> pc_heap c' = pc_heap c"
  by (auto simp: addRemoteForward_def addListener_def cancelRemoteForward_def closeListener_def
      Let_def split: if_splits option.splits)

lemma handleGlobalRequest_heap:
  "handleGlobalRequest cd listen msg c = (r, js, c') \<Longrightarrow> pc_heap c' = pc_heap c"
  by (auto simp: handleGlobalRequest_def Let_def split: if_splits option.splits prod.splits
      dest!: reply_heap send_heap forward_heap)

lemma pc_handlePacket_heap:
  "pc_handlePacket cd be listen pkt c = (r, js, c') \<Longrightarrow> length (pc_heap c') = length (pc_heap c)"
  by (auto simp: pc_handlePacket_def Let_def deliverOpenReply_def handleChannelOpen_def
      split: if_splits option.splits prod.splits ssh_msg.splits dest: handleGlobalRequest_heap)

lemma bind_heap:
  "length (pc_heap (openSessionBind cd a msg c)) = length (pc_heap c)"
  "openDirectBind cd a msg c = (js, c') \<Longrightarrow> length (pc_heap c') = length (pc_heap c)"
  by (auto simp: openSessionBind_def openDirectBind_def bindChannel_def on_channel_def Let_def
      split: sum.splits prod.splits dest: send_heap)

lemma closeChans_heap: "conn_inv c \<Longrightarrow> length (pc_heap (closeChans cd c)) = length (pc_heap c)"
  unfolding closeChans_def
  by (rule fold_teardown_inv [THEN conjunct2]) (auto simp: conn_inv_def table_inv_def)

lemma conn_step_inv: "conn_step cd s s' \<Longrightarrow> run_inv s \<Longrightarrow> run_inv s'"
proof (induction rule: conn_step.induct)
  case (packet be listen pkt c r js c' ts)
  then show ?case
    using pc_handlePacket_inv pc_handlePacket_heap
    by (intro run_inv_step [OF packet(2)]) (auto simp: run_inv_def)
next
  case (session_reg answer msg c r c' ts1 ts2)
  have "conn_inv c" using session_reg by (simp add: run_inv_def)
  note i = openSessionRegister_inv [OF session_reg(1) this]
  then show ?case
    by (intro run_inv_step [OF session_reg(2)]) (auto split: option.splits)
next
  case (session_bind c ts1 a msg ts2)
  then show ?case
    using openSessionBind_inv by (intro run_inv_step [OF session_bind]) (auto simp: run_inv_def bind_heap)
next
  case (direct_reg answer msg addr c r c' ts1 network ts2)
  have "conn_inv c" using direct_reg by (simp add: run_inv_def)
  note i = openDirectRegister_inv [OF direct_reg(1) this]
  then show ?case
    by (intro run_inv_step [OF direct_reg(2)]) (auto split: option.splits)
next
  case (direct_bind a msg c js c' ts1 ts2)
  then show ?case
    using openDirectBind_inv [OF direct_bind(1)] bind_heap(2) [OF direct_bind(1)]
    by (intro run_inv_step [OF direct_bind(2)]) (auto simp: run_inv_def)
next
  case (accept f remoteAddr c r c' ts1 ts2)
  have "conn_inv c" using accept by (simp add: run_inv_def)
  note i = openForwardedBegin_inv [OF accept(1) this]
  then show ?case
    by (intro run_inv_step [OF accept(2)]) (auto split: option.splits)
next
  case (accept_end c ts1 f ts2)
  then show ?case
    using acceptLoopEnd_inv
    by (intro run_inv_step [OF accept_end]) (auto simp: run_inv_def acceptLoopEnd_def split: option.splits)
next
  case (forwarded a reply c js c' ts1 ts2)
  then have "conn_inv c'" "pc_heap c' = pc_heap c"
    by (auto simp: run_inv_def openForwardedEnd_def split: option.splits ssh_msg.splits)
  then show ?case by (intro run_inv_step [OF forwarded(2)]) auto
next
  case (close c ts)
  then show ?case by (intro run_inv_step [OF close(2)]) (auto simp: run_inv_def closeBegin_def)
next
  case (close_chans c ts1 ts2)
  then have "conn_inv c" by (simp add: run_inv_def)
  then show ?case
    using closeChans_inv closeChans_heap by (intro run_inv_step [OF close_chans]) auto
next
  case (close_finish c ts1 ts2)
  then show ?case
    using closeFinish_inv by (intro run_inv_step [OF close_finish]) (auto simp: run_inv_def closeFinish_def)
next
  case (channel be s s' a c ts)
  have "conn_inv (on_channel a (\<lambda>_ _. (r_ch s', r_cn s')) c)"
    using channel chan_step_binding [OF channel(1)]
    by (intro conn_inv_on_channel) (auto simp: run_inv_def)
  then show ?case by (intro run_inv_step [OF channel(5)]) (auto simp: on_channel_def)
qed

lemma conn_reach_inv: "conn_reach cd s \<Longrightarrow> run_inv s"
proof (induction rule: conn_reach.induct)
  case (start rw h)
  then show ?case
    by (simp add: run_inv_def conn_inv_def newMuxProxyConn_def heap_inv_def table_inv_def fwd_inv_def)
next
  case (step s s')
  then show ?case by (blast intro: conn_step_inv)
qed

section \<open>A closed connection stays empty\<close>

text \<open>A step that neither opens nor closes the connection and, once it is closed, adds nothing.\<close>

definition quiet :: "muxProxyConn \<Rightarrow> muxProxyConn \<Rightarrow> bool" where
  "quiet c c' \<longleftrightarrow> pc_closed c' = pc_closed c \<and>
     (pc_closed c \<longrightarrow> (pc_chans c = [] \<longrightarrow> pc_chans c' = []) \<and> (pc_forwards c = [] \<longrightarrow> pc_forwards c' = []))"

lemma quiet_refl [simp]: "quiet c c"
  by (simp add: quiet_def)

lemma quiet_trans: "quiet a b \<Longrightarrow> quiet b c \<Longrightarrow> quiet a c"
  by (auto simp: quiet_def)

lemma quiet_heap [simp]: "quiet c (c\<lparr>pc_heap := h\<rparr>)"
  by (simp add: quiet_def pc_closed_def)

lemma quiet_heap_left [simp]: "quiet (c\<lparr>pc_heap := h\<rparr>) d = quiet c d"
  by (simp add: quiet_def pc_closed_def)

lemma quiet_emit [simp]: "quiet c (c\<lparr>pc_io := emit es (pc_io c)\<rparr>)"
  by (simp add: quiet_def pc_closed_def)

lemma quiet_remove [simp]: "quiet c (removeChannel i c)"
  by (simp add: quiet_def pc_closed_def removeChannel_def)

lemma quiet_then_remove [intro]: "quiet c c1 \<Longrightarrow> quiet c (removeChannel i c1)"
  using quiet_trans quiet_remove by blast

lemma sends_closed: "sends cd a b \<Longrightarrow> cn_closed b = cn_closed a"
  by (induction rule: sends.induct) (auto dest: conn_send_out)

lemma quiet_io: "sends cd (pc_io c) io \<Longrightarrow> quiet c (c\<lparr>pc_heap := h, pc_io := io\<rparr>)"
  by (auto simp: quiet_def pc_closed_def dest: sends_closed)

lemma send_quiet: "pc_send cd m c = (r, c') \<Longrightarrow> quiet c c'"
  using quiet_io [of cd c _ "pc_heap c"] by (auto simp: pc_send_def split: prod.splits)

lemma sendOpenFailure_quiet [simp]: "quiet c (sendOpenFailure cd i r m c)"
  using send_quiet by (metis sendOpenFailure_def prod.exhaust_sel)

lemma reply_quiet: "replyGlobalRequest cd m ok c = (r, c') \<Longrightarrow> quiet c c'"
  by (auto simp: replyGlobalRequest_def split: if_splits dest: send_quiet)

lemma addRemoteForward_quiet:
  "addRemoteForward listen key ct nw la addr port c = (res, js, c') \<Longrightarrow> quiet c c'"
  by (auto simp: addRemoteForward_def addListener_def closeListener_def quiet_def pc_closed_def Let_def
      split: if_splits option.splits)

lemma cancelRemoteForward_quiet: "cancelRemoteForward key c = (ok, c') \<Longrightarrow> quiet c c'"
  by (auto simp: cancelRemoteForward_def closeListener_def quiet_def pc_closed_def split: option.splits)

lemma handleGlobalRequest_quiet:
  "handleGlobalRequest cd listen msg c = (r, js, c') \<Longrightarrow> quiet c c'"
  by (auto simp: handleGlobalRequest_def Let_def split: if_splits option.splits prod.splits
      dest!: reply_quiet send_quiet addRemoteForward_quiet cancelRemoteForward_quiet intro: quiet_trans)

lemma deliverOpenReply_quiet: "deliverOpenReply i reply c = (r, c') \<Longrightarrow> quiet c c'"
  by (auto simp: deliverOpenReply_def Let_def split: option.splits if_splits ssh_msg.splits)

lemma handleChannelOpen_quiet: "handleChannelOpen cd msg c = (js, c') \<Longrightarrow> quiet c c'"
  by (auto simp: handleChannelOpen_def split: if_splits option.splits)

lemma pc_handlePacket_quiet:
  assumes "pc_handlePacket cd be listen pkt c = (r, js, c')"
  shows "quiet c c'"
proof -
  have "quiet c (c\<lparr>pc_heap := (pc_heap c)[a := ch], pc_io := io\<rparr>)"
    if "ch_handlePacket cd be pkt (pc_heap c ! a) (pc_io c) = (q, ch, io, gone)" for a q ch io gone
    using quiet_io [OF packet_sends [OF that]] .
  with assms show ?thesis
    by (auto simp: pc_handlePacket_def Let_def split: if_splits option.splits prod.splits
        dest!: handleGlobalRequest_quiet deliverOpenReply_quiet handleChannelOpen_quiet
        intro!: quiet_then_remove)
qed

lemma registerChannel_quiet: "registerChannel t c = Some (a, c') \<Longrightarrow> quiet c c'"
  by (auto simp: registerChannel_def quiet_def Let_def pc_closed_def split: if_splits)

lemma on_channel_teardown_quiet: "quiet c (on_channel a (teardown cd) c)"
  using quiet_io [OF teardown_sends, of cd "pc_heap c ! a" c]
  by (auto simp: on_channel_def split: prod.splits)

lemma bindChannel_quiet: "bindChannel cd a msg c = (r, c') \<Longrightarrow> quiet c c'"
  by (auto simp: bindChannel_def Let_def dest!: send_quiet intro: quiet_trans [OF quiet_heap])

lemma open_quiet:
  "openSessionRegister cd answer msg c = (r, c') \<Longrightarrow> quiet c c'"
  "openDirectRegister cd answer2 msg addr c = (r, c') \<Longrightarrow> quiet c c'"
  by (auto simp: openSessionRegister_def openDirectRegister_def split: if_splits sum.splits option.splits
      dest: registerChannel_quiet intro: quiet_trans [OF quiet_emit sendOpenFailure_quiet])

lemma bind_quiet:
  "quiet c (openSessionBind cd a msg c)"
  "openDirectBind cd a msg c = (js, c') \<Longrightarrow> quiet c c'"
  by (auto simp: openSessionBind_def openDirectBind_def Let_def split: sum.splits prod.splits
      dest!: bindChannel_quiet intro: quiet_trans [OF _ on_channel_teardown_quiet])

lemma openForwardedBegin_quiet:
  assumes "openForwardedBegin cd f ra c = (r, c')"
  shows "quiet c c'"
proof (cases "registerChannel (rf_chanType f) c")
  case (Some p)
  then obtain a c1 where reg: "registerChannel (rf_chanType f) c = Some (a, c1)" by (cases p) auto
  let ?c2 = "c1\<lparr>pc_heap := (pc_heap c1)[a := (pc_heap c1 ! a)\<lparr>ch_stream := True\<rparr>]\<rparr>"
  have "quiet c ?c2" using registerChannel_quiet [OF reg] quiet_heap quiet_trans by blast
  moreover have "\<exists>m q c3. pc_send cd m ?c2 = (q, c3) \<and>
      (c' = c3 \<or> (\<exists>i. c' = (removeChannel i c3)\<lparr>pc_io := emit [FxStreamClose] (pc_io (removeChannel i c3))\<rparr>))"
    using assms reg by (fastforce simp: openForwardedBegin_def Let_def split: sum.splits prod.splits)
  ultimately show ?thesis using send_quiet quiet_trans quiet_remove quiet_emit by metis
qed (use assms in \<open>auto simp: openForwardedBegin_def\<close>)

lemma fold_teardown_quiet: "quiet c (fold (\<lambda>a. on_channel a (teardown cd)) as c)"
  by (induction as arbitrary: c) (auto intro: quiet_trans on_channel_teardown_quiet)

definition close_inv :: "conn_run \<Rightarrow> bool" where
  "close_inv s \<longleftrightarrow>
     ({TCloseChans, TCloseFinish} \<inter> set (snd s) \<noteq> {} \<longrightarrow> pc_closed (fst s)) \<and>
     (pc_closed (fst s) \<longrightarrow> {TCloseChans, TCloseFinish} \<inter> set (snd s) \<noteq> {} \<or>
        pc_chans (fst s) = [] \<and> pc_forwards (fst s) = [])"

lemma close_inv_quiet:
  "close_inv (c, ts) \<Longrightarrow> quiet c c' \<Longrightarrow>
   {TCloseChans, TCloseFinish} \<inter> set ts' = {TCloseChans, TCloseFinish} \<inter> set ts \<Longrightarrow> close_inv (c', ts')"
  by (auto simp: close_inv_def quiet_def)

lemma conn_step_close_inv: "conn_step cd s s' \<Longrightarrow> close_inv s \<Longrightarrow> close_inv s'"
proof (induction rule: conn_step.induct)
  case (packet be listen pkt c r js c' ts)
  then show ?case by (auto elim!: close_inv_quiet dest: pc_handlePacket_quiet)
next
  case (session_reg answer msg c r c' ts1 ts2)
  then show ?case by (auto elim!: close_inv_quiet dest: open_quiet split: option.splits)
next
  case (session_bind c ts1 a msg ts2)
  then show ?case by (auto elim!: close_inv_quiet intro: bind_quiet)
next
  case (direct_reg answer msg addr c r c' ts1 network ts2)
  then show ?case by (auto elim!: close_inv_quiet dest: open_quiet split: option.splits)
next
  case (direct_bind a msg c js c' ts1 ts2)
  then show ?case by (auto elim!: close_inv_quiet dest: bind_quiet(2))
next
  case (accept f remoteAddr c r c' ts1 ts2)
  then show ?case by (auto elim!: close_inv_quiet dest: openForwardedBegin_quiet split: option.splits)
next
  case (accept_end c ts1 f ts2)
  have "quiet c (acceptLoopEnd f c)"
    by (auto simp: acceptLoopEnd_def quiet_def pc_closed_def split: option.splits)
  with accept_end show ?case by (auto elim!: close_inv_quiet)
next
  case (forwarded a reply c js c' ts1 ts2)
  have "quiet c c'"
    using forwarded(1)
    by (auto simp: openForwardedEnd_def quiet_def pc_closed_def removeChannel_def
        split: option.splits ssh_msg.splits)
  with forwarded show ?case by (auto elim!: close_inv_quiet)
next
  case (close c ts)
  then show ?case by (simp add: close_inv_def closeBegin_def pc_closed_def)
next
  case (close_chans c ts1 ts2)
  then show ?case
    using fold_teardown_quiet [of c cd "map snd (pc_chans c)"]
    by (auto simp: close_inv_def closeChans_def quiet_def)
next
  case (close_finish c ts1 ts2)
  then show ?case by (auto simp: close_inv_def closeFinish_def pc_closed_def)
next
  case (channel be s s' a c ts)
  have "sends cd (pc_io c) (r_cn s')" using chan_step_sends [OF channel(1)] channel(4) by simp
  from quiet_io [OF this] channel show ?case by (auto elim!: close_inv_quiet)
qed

lemma conn_reach_close_inv: "conn_reach cd s \<Longrightarrow> close_inv s"
proof (induction rule: conn_reach.induct)
  case (start rw h)
  then show ?case by (simp add: close_inv_def newMuxProxyConn_def pc_closed_def)
next
  case (step s s')
  then show ?case by (blast intro: conn_step_close_inv)
qed

end
