(* ===== verification/MuxProxyProps.thy ===== *)
theory MuxProxyProps
  imports MuxProxyRun
begin

text \<open>
  The properties of the proxy connection, over the invariants of \<open>MuxProxyThms\<close> and
  \<open>MuxProxyRun\<close>.
\<close>

section \<open>Closing\<close>

lemma teardown_once_set: "teardown cd ch cn = (ch', cn') \<Longrightarrow> ch_closeOnce ch'"
  by (auto simp: teardown_def teardownBegin_def teardownEnd_def sendClose_def closeStdin_def Let_def
      split: if_splits prod.splits)

lemma teardown_keeps_once: "teardown cd ch cn = (ch', cn') \<Longrightarrow> ch_closeOnce ch \<Longrightarrow> ch_closeOnce ch'"
  using teardown_once_set by blast

lemma fold_teardown_once:
  assumes "a < length (pc_heap c)" "a \<in> set as \<or> ch_closeOnce (pc_heap c ! a)"
  shows "ch_closeOnce (pc_heap (fold (\<lambda>a. on_channel a (teardown cd)) as c) ! a)"
  using assms
proof (induction as arbitrary: c)
  case (Cons b as)
  obtain ch io where t: "teardown cd (pc_heap c ! b) (pc_io c) = (ch, io)" by fastforce
  have "ch_closeOnce ch" using teardown_once_set [OF t] .
  then have "a \<in> set as \<or> ch_closeOnce (pc_heap (on_channel b (teardown cd) c) ! a)"
    using Cons.prems t by (cases "a = b") (auto simp: on_channel_def)
  moreover have "a < length (pc_heap (on_channel b (teardown cd) c))"
    using Cons.prems t by (simp add: on_channel_def)
  ultimately show ?case using Cons.IH by simp
qed simp

lemma fold_teardown_tables:
  "pc_forwards (fold (\<lambda>a. on_channel a (teardown cd)) as c) = pc_forwards c"
  "pc_lclosed (fold (\<lambda>a. on_channel a (teardown cd)) as c) = pc_lclosed c"
  by (induction as arbitrary: c) (auto simp: on_channel_def split: prod.splits)

lemma sends_when_closed:
  "sends cd a b \<Longrightarrow> cn_closed a \<Longrightarrow> cn_out b = cn_out a \<and> cn_sock b = cn_sock a \<and> cn_closed b"
  by (induction rule: sends.induct) (auto simp: conn_send_def)

lemma fold_teardown_silent:
  "pc_closed c \<Longrightarrow>
   cn_out (pc_io (fold (\<lambda>a. on_channel a (teardown cd)) as c)) = cn_out (pc_io c) \<and>
   cn_sock (pc_io (fold (\<lambda>a. on_channel a (teardown cd)) as c)) = cn_sock (pc_io c)"
proof (induction as arbitrary: c)
  case (Cons a as)
  obtain ch io where t: "teardown cd (pc_heap c ! a) (pc_io c) = (ch, io)" by fastforce
  have "cn_out io = cn_out (pc_io c) \<and> cn_sock io = cn_sock (pc_io c) \<and> cn_closed io"
    using sends_when_closed [OF teardown_sends [OF t]] Cons.prems by (simp add: pc_closed_def)
  with Cons.IH [of "on_channel a (teardown cd) c"] t show ?case
    by (simp add: on_channel_def pc_closed_def)
qed simp

lemma pc_close_closed: "pc_closed (pc_close cd c)"
proof -
  have "pc_closed (closeChans cd (closeBegin c))"
    using fold_teardown_quiet [of "closeBegin c" cd] by (simp add: closeChans_def quiet_def closeBegin_def pc_closed_def)
  then show ?thesis by (auto simp: pc_close_def closeFinish_def pc_closed_def)
qed

section \<open>Properties\<close>

text \<open>C5: the tables of a proxy connection in every interleaving of its goroutines.  A channel id
  leads to the one object that carries it; an id is never given to a second channel while the first
  still has it, as long as fewer than \<open>2 ^ 32\<close> channels were opened; a channel bound to the peer has
  a packet size between one byte and 32 kilobytes; a remote forward is filed under its own key.\<close>

theorem conn_tables:
  assumes "conn_reach cd (c, ts)"
  shows "(\<forall>i a. lookupChannel i c = Some a \<longrightarrow> a < length (pc_heap c) \<and> ch_localID (pc_heap c ! a) = i) \<and>
    (length (pc_heap c) < 2 ^ 32 \<longrightarrow> lookupChannel (pc_nextID c) c = None) \<and>
    (\<forall>ch\<in>set (pc_heap c). ch_remoteWin ch \<noteq> None \<longrightarrow> 0 < ch_remoteMax ch \<and> ch_remoteMax ch \<le> 32768) \<and>
    (\<forall>k f. map_of (pc_forwards c) k = Some f \<longrightarrow> rf_key f = k)"
proof -
  have inv: "conn_inv c" using conn_reach_inv [OF assms] by (simp add: run_inv_def)
  have "lookupChannel (pc_nextID c) c = None" if n: "length (pc_heap c) < 2 ^ 32"
  proof (rule ccontr)
    assume "lookupChannel (pc_nextID c) c \<noteq> None"
    then obtain a where a: "lookupChannel (pc_nextID c) c = Some a" by blast
    note e = conn_inv_entry [OF inv a]
    have "(of_nat (length (pc_heap c)) :: u32) = of_nat a" using e(2) inv by (simp add: conn_inv_def)
    then have "unat (of_nat (length (pc_heap c)) :: u32) = unat (of_nat a :: u32)" by simp
    then show False using e(1) n unat_of_nat_u32 by simp
  qed
  moreover have "\<forall>ch\<in>set (pc_heap c). bound_ok ch"
    using inv by (auto simp: conn_inv_def heap_inv_def in_set_conv_nth)
  moreover have "\<forall>k f. map_of (pc_forwards c) k = Some f \<longrightarrow> rf_key f = k"
    using inv by (auto simp: conn_inv_def fwd_inv_def dest!: map_of_SomeD)
  ultimately show ?thesis
    using conn_inv_entry [OF inv] by (auto simp: bound_ok_def kMuxChannelMaxPacket_def)
qed

definition demo_sock :: sock where
  "demo_sock = \<lparr>sk_in = [], sk_out = [], sk_quota = None, sk_closed = False\<rparr>"

definition demo_proxy :: muxProxyConn where
  "demo_proxy = newMuxProxyConn demo_sock True"

definition demo_open :: sshChannelOpenMsg where
  "demo_open = \<lparr>co_ChanType = ''direct-streamlocal@openssh.com'', co_PeersID = 5, co_PeersWindow = 100,
     co_MaxPacketSize = 32768, co_TypeSpecificData = w_str ''/s'' @ w_str [] @ w_u32 0\<rparr>"

definition demo_opened :: muxProxyConn where
  "demo_opened = demo_proxy\<lparr>pc_heap := [newChannel 0 ''direct-streamlocal@openssh.com''],
     pc_nextID := 1, pc_chans := [(0, 0)]\<rparr>"

lemma demo_open_packet:
  "pc_handlePacket wire_codec be listen (wire_msg (ChannelOpen demo_open)) demo_proxy =
     (Inr (), [OpenDirect demo_open ''unix'' ''/s''], demo_proxy)"
  by (simp add: pc_handlePacket_def handleChannelOpen_def demo_open_def ssh_type_defs Let_def
      wire_codec_def wire_simps r_end_def)

lemma demo_open_register:
  "openDirectRegister wire_codec (Inr ()) demo_open ''/s'' demo_proxy = (Some 0, demo_opened)"
  by (simp add: openDirectRegister_def demo_open_def registerChannel_def demo_proxy_def
      newMuxProxyConn_def pc_closed_def demo_opened_def)

lemma demo_opened_reach: "conn_reach wire_codec (demo_opened, [TBindDirect 0 demo_open])"
proof -
  have "conn_reach wire_codec (demo_proxy, [])"
    unfolding demo_proxy_def by (rule conn_reach.start)
  moreover have "conn_step wire_codec (demo_proxy, []) (demo_proxy, [TJob (OpenDirect demo_open ''unix'' ''/s'')])"
    using conn_step.packet [OF demo_open_packet [of demo_backend "\<lambda>_ _. None"], of "[]"] by simp
  moreover have "conn_step wire_codec (demo_proxy, [TJob (OpenDirect demo_open ''unix'' ''/s'')])
      (demo_opened, [TBindDirect 0 demo_open])"
    using conn_step.direct_reg [OF demo_open_register, of "[]" "''unix''" "[]"] by simp
  ultimately show ?thesis by (blast intro: conn_reach.step)
qed

theorem conn_tables_witness:
  "lookupChannel 0 demo_opened = Some 0 \<and> ch_localID (pc_heap demo_opened ! 0) = 0 \<and>
   lookupChannel (pc_nextID demo_opened) demo_opened = None"
  using conn_tables [OF demo_opened_reach]
  by (auto simp: demo_opened_def lookupChannel_def newChannel_def)

text \<open>C2: once \<open>close\<close> has run to its end, in whatever interleaving, the connection holds no channel
  and no remote forward and never gets one again: a registration is refused, and a listener that a
  request under way obtains after the close is closed at once.\<close>

theorem conn_closed_clean:
  assumes "conn_reach cd (c, ts)" "pc_closed c" "TCloseChans \<notin> set ts" "TCloseFinish \<notin> set ts"
  shows "pc_chans c = [] \<and> pc_forwards c = [] \<and> registerChannel t c = None \<and>
    addListener key chanType network addr port l c = ((False, 0), [], closeListener l c)"
  using conn_reach_close_inv [OF assms(1)] assms(2-)
  by (auto simp: close_inv_def registerChannel_def addListener_def Let_def)

definition demo_closed :: muxProxyConn where
  "demo_closed = closeFinish (closeChans wire_codec (closeBegin demo_opened))"

lemma demo_closed_reach: "conn_reach wire_codec (demo_closed, [TBindDirect 0 demo_open])"
proof -
  have "conn_step wire_codec (demo_opened, [TBindDirect 0 demo_open])
      (closeBegin demo_opened, [TBindDirect 0 demo_open, TCloseChans])"
    using conn_step.close [of demo_opened wire_codec "[TBindDirect 0 demo_open]"]
    by (simp add: demo_opened_def demo_proxy_def newMuxProxyConn_def pc_closed_def)
  moreover have "conn_step wire_codec (closeBegin demo_opened, [TBindDirect 0 demo_open, TCloseChans])
      (closeChans wire_codec (closeBegin demo_opened), [TBindDirect 0 demo_open, TCloseFinish])"
    using conn_step.close_chans [of wire_codec "closeBegin demo_opened" "[TBindDirect 0 demo_open]" "[]"] by simp
  moreover have "conn_step wire_codec (closeChans wire_codec (closeBegin demo_opened),
      [TBindDirect 0 demo_open, TCloseFinish]) (demo_closed, [TBindDirect 0 demo_open])"
    using conn_step.close_finish [of wire_codec _ "[TBindDirect 0 demo_open]" "[]"]
    by (simp add: demo_closed_def)
  ultimately show ?thesis using demo_opened_reach by (blast intro: conn_reach.step)
qed

lemma demo_closed_eq:
  "demo_closed = demo_opened
     \<lparr>pc_io := (pc_io demo_proxy)\<lparr>cn_closed := True, cn_sock := demo_sock\<lparr>sk_closed := True\<rparr>\<rparr>, pc_done := True,
      pc_heap := [(newChannel 0 ''direct-streamlocal@openssh.com'')
        \<lparr>ch_closeOnce := True, ch_closed := True, ch_inQueue := muxByteQueue_abort newMuxByteQueue\<rparr>],
      pc_chans := [], pc_onClose := Some 1\<rparr>"
  by (simp add: demo_closed_def closeFinish_def closeChans_def closeBegin_def demo_opened_def demo_proxy_def
      newMuxProxyConn_def on_channel_def teardown_def teardownBegin_def teardownEnd_def newChannel_def
      sock_close_def demo_sock_def Let_def)

theorem conn_closed_clean_witness:
  "pc_chans demo_closed = [] \<and> pc_forwards demo_closed = [] \<and> registerChannel ''session'' demo_closed = None \<and>
   addListener ''k'' ''forwarded-tcpip'' ''tcp'' ''h'' 80 \<lparr>ln_handle = 3, ln_addr = None\<rparr> demo_closed =
     ((False, 0), [], closeListener \<lparr>ln_handle = 3, ln_addr = None\<rparr> demo_closed)"
  by (rule conn_closed_clean [OF demo_closed_reach]) (simp_all add: demo_closed_eq pc_closed_def)

text \<open>\<open>close\<close> of an open connection is complete: every channel of the table is torn down, every
  listener of a remote forward is closed, the socket is closed, nothing is sent to the peer any
  more, \<open>onClose\<close> runs once, and a second \<open>close\<close> does nothing.\<close>

theorem pc_close_complete:
  assumes "conn_reach cd (c, ts)" "\<not> pc_closed c"
  shows "let c' = pc_close cd c in
    pc_closed c' \<and> pc_chans c' = [] \<and> pc_forwards c' = [] \<and> sk_closed (cn_sock (pc_io c')) \<and>
    cn_out (pc_io c') = cn_out (pc_io c) \<and>
    (\<forall>(i, a)\<in>set (pc_chans c). ch_closeOnce (pc_heap c' ! a)) \<and>
    pc_lclosed c' = pc_lclosed c @ map (\<lambda>(_, f). ln_handle (rf_listener f)) (pc_forwards c) \<and>
    pc_onClose c' = map_option Suc (pc_onClose c) \<and> pc_close cd c' = c'"
proof -
  let ?b = "closeBegin c" let ?m = "closeChans cd ?b"
  have c': "pc_close cd c = closeFinish ?m" using assms(2) by (simp add: pc_close_def)
  have inv: "conn_inv c" using conn_reach_inv [OF assms(1)] by (simp add: run_inv_def)
  have "pc_closed ?b" by (simp add: closeBegin_def pc_closed_def)
  note s = fold_teardown_silent [OF this, of cd "map snd (pc_chans c)"]
  have once: "ch_closeOnce (pc_heap ?m ! a)" if "(i, a) \<in> set (pc_chans c)" for i a
    using inv that unfolding closeChans_def
    by (intro fold_teardown_once)
      (fastforce simp: closeBegin_def conn_inv_def table_inv_def, force simp: closeBegin_def)
  have oc: "pc_onClose (fold (\<lambda>a. on_channel a (teardown cd)) as d) = pc_onClose d" for as d
    by (induction as arbitrary: d) (auto simp: on_channel_def split: prod.splits)
  have "pc_close cd (pc_close cd c) = pc_close cd c"
    using pc_close_closed [of cd c] by (simp add: pc_close_def [of cd "pc_close cd c"])
  then show ?thesis
    using once s pc_close_closed [of cd c]
    by (auto simp: Let_def c' closeFinish_def closeChans_def fold_teardown_tables oc closeBegin_def sock_close_def)
qed

theorem pc_close_complete_witness:
  "let c' = pc_close wire_codec demo_opened in pc_closed c' \<and> pc_chans c' = [] \<and> pc_close wire_codec c' = c'"
  using pc_close_complete [OF demo_opened_reach]
  by (simp add: Let_def demo_opened_def demo_proxy_def newMuxProxyConn_def pc_closed_def)

text \<open>The life cycle of a tcp remote forward.  A request that is granted starts an accept loop and
  files the forward under the requested address and the port actually allocated, which was free;
  cancelling that address and port succeeds, closes exactly its listener and leaves the other
  forwards as they were.  With a requested port the port granted is that port.\<close>

theorem remote_forward_lifecycle:
  assumes "addRemoteForward listen (tcpKey addr port) ''forwarded-tcpip'' ''tcp'' listenAddr addr port c
     = ((True, p), js, c1)"
  shows "\<exists>f. js = [AcceptLoop f] \<and> rf_port f = p \<and> p \<noteq> 0 \<and> (port \<noteq> 0 \<longrightarrow> p = port) \<and>
    map_of (pc_forwards c) (tcpKey addr p) = None \<and> map_of (pc_forwards c1) (tcpKey addr p) = Some f \<and>
    (case cancelRemoteForward (tcpKey addr p) c1 of (ok, c2) \<Rightarrow> ok \<and>
       map_of (pc_forwards c2) = map_of (pc_forwards c) \<and>
       pc_lclosed c2 = pc_lclosed c @ [ln_handle (rf_listener f)])"
proof -
  obtain l where l: "listen ''tcp'' listenAddr = Some l"
    and a: "addListener (tcpKey addr port) ''forwarded-tcpip'' ''tcp'' addr port l c = ((True, p), js, c1)"
    using assms by (auto simp: addRemoteForward_def split: if_splits option.splits)
  define f where "f = \<lparr>rf_key = tcpKey addr p, rf_chanType = ''forwarded-tcpip'', rf_addr = addr, rf_port = p,
    rf_listener = l\<rparr>"
  have r: "js = [AcceptLoop f]" "p \<noteq> 0" "port \<noteq> 0 \<longrightarrow> p = port" "map_of (pc_forwards c) (tcpKey addr p) = None"
    "c1 = c\<lparr>pc_forwards := AList.update (tcpKey addr p) f (pc_forwards c)\<rparr>"
    using a by (auto simp: addListener_def f_def Let_def split: if_splits)
  then have "map_of (pc_forwards c1) (tcpKey addr p) = Some f" by (simp add: update_conv')
  moreover have "(map_of (pc_forwards c))(tcpKey addr p := None) = map_of (pc_forwards c)"
    using r(4) by (simp add: fun_upd_idem)
  ultimately show ?thesis
    using r by (intro exI [of _ f])
      (simp add: f_def cancelRemoteForward_def closeListener_def delete_conv' update_conv')
qed

definition demo_listen :: listen_fn where
  "demo_listen network addr = Some \<lparr>ln_handle = 9,
     ln_addr = Some \<lparr>na_tcp = Some (Some ''127.0.0.1'', 40000), na_string = ''127.0.0.1:40000''\<rparr>\<rparr>"

theorem remote_forward_lifecycle_witness:
  "\<exists>js c1. addRemoteForward demo_listen (tcpKey ''localhost'' 0) ''forwarded-tcpip'' ''tcp'' ''localhost:0''
      ''localhost'' 0 demo_proxy = ((True, 40000), js, c1) \<and>
    (case cancelRemoteForward (tcpKey ''localhost'' 40000) c1 of (ok, c2) \<Rightarrow> ok \<and> pc_lclosed c2 = [9])"
proof -
  obtain js c1 where a: "addRemoteForward demo_listen (tcpKey ''localhost'' 0) ''forwarded-tcpip'' ''tcp''
      ''localhost:0'' ''localhost'' 0 demo_proxy = ((True, 40000), js, c1)"
    and js: "js = [AcceptLoop \<lparr>rf_key = tcpKey ''localhost'' 40000, rf_chanType = ''forwarded-tcpip'',
      rf_addr = ''localhost'', rf_port = 40000, rf_listener = the (demo_listen [] [])\<rparr>]"
    by (simp add: addRemoteForward_def demo_listen_def addListener_def listenerPort_def addrPort_def
        demo_proxy_def newMuxProxyConn_def pc_closed_def Let_def)
  from remote_forward_lifecycle [OF a] a js show ?thesis
    by (auto simp: demo_listen_def demo_proxy_def newMuxProxyConn_def)
qed

lemma send_appends:
  "pc_send cd m c = (Inr (), c') \<Longrightarrow> cn_out (pc_io c') = cn_out (pc_io c) @ [m]"
  by (auto simp: pc_send_def split: prod.splits dest: conn_send_out)

lemma forward_io:
  "addRemoteForward listen key ct nw la addr port c = (res, js, c') \<Longrightarrow> pc_io c' = pc_io c"
  "cancelRemoteForward key c = (ok, c') \<Longrightarrow> pc_io c' = pc_io c"
  by (auto simp: addRemoteForward_def addListener_def cancelRemoteForward_def closeListener_def
      Let_def split: if_splits option.splits)

definition replied :: "sshGlobalRequestMsg \<Rightarrow> ssh_msg list \<Rightarrow> bool" where
  "replied msg ms \<longleftrightarrow> (gr_WantReply msg \<longrightarrow> ms \<noteq> []) \<and>
     (ms = [] \<or> (\<exists>d. ms = [RequestSuccess d]) \<or> ms = [RequestFailure []])"

lemma reply_replied:
  "replyGlobalRequest cd msg ok c = (Inr (), c') \<Longrightarrow>
     \<exists>ms. cn_out (pc_io c') = cn_out (pc_io c) @ ms \<and> replied msg ms"
  by (auto simp: replyGlobalRequest_def replied_def split: if_splits dest!: send_appends)

text \<open>A global request that is handled without an error is answered by one message when it wants a
  reply and by at most one in any case, and the message is a request success or failure.\<close>

theorem global_request_replies:
  assumes "handleGlobalRequest cd listen msg c = (Inr (), js, c')"
  shows "\<exists>ms. cn_out (pc_io c') = cn_out (pc_io c) @ ms \<and> (gr_WantReply msg \<longrightarrow> ms \<noteq> []) \<and>
    (ms = [] \<or> (\<exists>d. ms = [RequestSuccess d]) \<or> ms = [RequestFailure []])"
proof -
  have p: "pc_send cd (RequestSuccess d) c1 = (Inr (), c') \<Longrightarrow>
      \<exists>ms. cn_out (pc_io c') = cn_out (pc_io c1) @ ms \<and> replied msg ms" for d c1
    by (auto simp: replied_def dest!: send_appends)
  have "\<exists>ms. cn_out (pc_io c') = cn_out (pc_io c) @ ms \<and> replied msg ms"
    using assms
    by (auto simp: handleGlobalRequest_def Let_def split: if_splits option.splits prod.splits
        dest!: p reply_replied forward_io)
  then show ?thesis by (auto simp: replied_def)
qed

theorem global_request_replies_witness:
  "\<exists>ms. cn_out (pc_io (snd (snd (handleGlobalRequest wire_codec (\<lambda>_ _. None)
       \<lparr>gr_Type = ''x'', gr_WantReply = True, gr_Data = []\<rparr> demo_proxy)))) = ms \<and> ms \<noteq> []"
proof -
  have "handleGlobalRequest wire_codec (\<lambda>_ _. None) \<lparr>gr_Type = ''x'', gr_WantReply = True, gr_Data = []\<rparr> demo_proxy
      = (Inr (), [], snd (pc_send wire_codec (RequestFailure []) demo_proxy))"
    by (simp add: handleGlobalRequest_def replyGlobalRequest_def kMuxUdpModeRequest_def pc_send_def conn_send_def
        demo_proxy_def newMuxProxyConn_def demo_sock_def wire_codec_def writeSshPacket_def sock_write_def
        kMuxMaxPacket_def)
  from global_request_replies [OF this] this show ?thesis by (auto simp: demo_proxy_def newMuxProxyConn_def)
qed

text \<open>A reply nobody asked for.  A \<open>tcpip-forward\<close> request for port 0 that is granted is answered
  with the allocated port even when it does not want a reply; RFC 4254 allows a reply only when one
  is wanted, and the peer takes it for the answer to its next request.\<close>

theorem unsolicited_forward_reply:
  "\<exists>listen msg js c'. \<not> gr_WantReply msg \<and> gr_Type msg = ''tcpip-forward'' \<and>
     handleGlobalRequest wire_codec listen msg demo_proxy = (Inr (), js, c') \<and>
     cn_out (pc_io c') = [RequestSuccess (w_u32 40000)]"
proof -
  let ?msg = "\<lparr>gr_Type = ''tcpip-forward'', gr_WantReply = False, gr_Data = w_str ''localhost'' @ w_u32 0\<rparr>"
  have u: "u_tcpipForward wire_codec (gr_Data ?msg) = Some \<lparr>tf_Addr = ''localhost'', tf_Port = 0\<rparr>"
    by (simp add: wire_codec_def wire_simps r_end_def)
  obtain js c1 where a: "addRemoteForward demo_listen (tcpKey ''localhost'' 0) ''forwarded-tcpip'' ''tcp''
      (JoinHostPort ''localhost'' (utoa 0)) ''localhost'' 0 demo_proxy = ((True, 40000), js, c1)"
    by (simp add: addRemoteForward_def demo_listen_def addListener_def listenerPort_def addrPort_def
        demo_proxy_def newMuxProxyConn_def pc_closed_def Let_def)
  then have io: "pc_io c1 = pc_io demo_proxy" by (rule forward_io)
  have g: "\<not> cn_closed (pc_io c1)" "sock_good (cn_sock (pc_io c1))"
    by (simp_all add: io demo_proxy_def newMuxProxyConn_def demo_sock_def sock_good_def)
  have "length (m_msg wire_codec (RequestSuccess (w_u32 40000))) + 1 \<le> kMuxMaxPacket"
    by (simp add: wire_codec_def kMuxMaxPacket_def)
  then obtain io2 where s: "conn_send wire_codec (RequestSuccess (w_u32 40000)) (pc_io c1) = (Inr (), io2)"
    using conn_send_good [OF g] by blast
  then have "handleGlobalRequest wire_codec demo_listen ?msg demo_proxy = (Inr (), js, c1\<lparr>pc_io := io2\<rparr>)"
    using u a by (simp add: handleGlobalRequest_def kMuxUdpModeRequest_def Let_def pc_send_def)
      (simp add: wire_codec_def)
  moreover have "cn_out io2 = [RequestSuccess (w_u32 40000)]"
    using conn_send_out [OF s] io by (simp add: demo_proxy_def newMuxProxyConn_def)
  ultimately show ?thesis
    by (intro exI [of _ demo_listen] exI [of _ ?msg] exI [of _ js] exI [of _ "c1\<lparr>pc_io := io2\<rparr>"]) simp
qed

lemma closeFinish_empty [simp]: "pc_chans (closeFinish c) = []" "pc_forwards (closeFinish c) = []"
  by (simp_all add: closeFinish_def)

lemma serve_ends:
  "\<not> pc_closed c \<Longrightarrow> pc_closed (snd (serve cd answer n r c)) \<and>
     pc_chans (snd (serve cd answer n r c)) = [] \<and> pc_forwards (snd (serve cd answer n r c)) = []"
proof (induction cd answer n r c rule: serve.induct)
  case (1 cd answer n r c)
  have cl: "\<not> pc_closed d \<Longrightarrow> pc_closed (pc_close cd d) \<and> pc_chans (pc_close cd d) = [] \<and>
      pc_forwards (pc_close cd d) = []" for d
    using pc_close_closed [of cd d] by (simp add: pc_close_def)
  show ?case
  proof (cases "muxReadSshPacket r")
    case (Inl e)
    with cl "1.prems" show ?thesis by (simp add: serve.simps)
  next
    case (Inr p)
    then obtain pkt r1 where p: "muxReadSshPacket r = Inr (pkt, r1)" by (cases p) auto
    obtain q js c1 where h: "pc_handlePacket cd (fst (answer n)) (snd (answer n)) pkt c = (q, js, c1)"
      by (metis prod.exhaust)
    have c1: "\<not> pc_closed c1" using pc_handlePacket_quiet [OF h] "1.prems" by (simp add: quiet_def)
    show ?thesis
    proof (cases q)
      case (Inl e)
      with p h cl [OF c1] show ?thesis by (simp add: serve.simps [of _ _ _ r])
    next
      case (Inr u)
      note "1.IH" [OF p refl h [symmetric] Inr refl c1]
      with p h Inr show ?thesis by (auto simp: serve.simps [of _ _ _ r] split: prod.splits)
    qed
  qed
qed

text \<open>C23: whatever bytes the peer sends and whatever the backend answers, the read loop of a connection
  ends, and it leaves the connection closed, with no channel and no forward in its tables, which are
  consistent throughout.\<close>

theorem serve_terminates_clean:
  "case serve cd answer n r (newMuxProxyConn rw hasOnClose) of (js, c) \<Rightarrow>
     pc_closed c \<and> pc_chans c = [] \<and> pc_forwards c = [] \<and> conn_inv c"
proof -
  have "\<not> pc_closed (newMuxProxyConn rw hasOnClose)" "conn_inv (newMuxProxyConn rw hasOnClose)"
    by (simp_all add: newMuxProxyConn_def pc_closed_def conn_inv_def heap_inv_def table_inv_def fwd_inv_def)
  then show ?thesis
    using serve_ends [of "newMuxProxyConn rw hasOnClose" cd answer n r]
      serve_inv [of "newMuxProxyConn rw hasOnClose" cd answer n r]
    by (auto split: prod.splits)
qed

text \<open>C24: a backend stream can be lost.  \<open>openDirectChannel\<close> registers the channel before it stores the
  dialled stream in it.  When the connection closes in between, the teardown of the channel finds no
  stream, the later teardown is a no-op because the first one has run, and when every goroutine has
  ended the stream is still open: nobody has closed it and only a dead channel refers to it.\<close>

theorem open_close_leak:
  "\<exists>c. conn_reach wire_codec (c, []) \<and> pc_closed c \<and> pc_chans c = [] \<and>
     (\<exists>ch\<in>set (pc_heap c). ch_stream ch \<and> ch_closed ch \<and> ch_closeOnce ch) \<and>
     FxStreamClose \<notin> set (cn_fx (pc_io c))"
proof -
  obtain js c where d: "openDirectBind wire_codec 0 demo_open demo_closed = (js, c)" by fastforce
  have "conn_step wire_codec (demo_closed, [TBindDirect 0 demo_open]) (c, map TJob js)"
    using conn_step.direct_bind [OF d, of "[]" "[]"] by simp
  then have r: "conn_reach wire_codec (c, map TJob js)"
    using demo_closed_reach by (blast intro: conn_reach.step)
  have "js = [] \<and> pc_closed c \<and> pc_chans c = [] \<and>
      (\<exists>ch\<in>set (pc_heap c). ch_stream ch \<and> ch_closed ch \<and> ch_closeOnce ch) \<and> cn_fx (pc_io c) = []"
    using d by (auto simp: demo_closed_eq openDirectBind_def bindChannel_def pc_send_def conn_send_def
        on_channel_def teardown_def pc_closed_def bindFields_def newChannel_def demo_opened_def demo_proxy_def
        newMuxProxyConn_def Let_def)
  with r show ?thesis by auto
qed

end
