(* ===== verification/Tokens.thy ===== *)
theory Tokens
  imports GoHash
begin

text \<open>
  \<open>tssh/tokens.go\<close>: the percent tokens of the ssh configuration and the checks on the values that
  are put in their place.  The values come from the connection parameters, the local host name, the
  version of the local OpenSSH client and one configuration option; they are the fields of a
  \<open>tokenEnv\<close>.  The expansion works on runes, the search for a token on bytes, as in the code.
\<close>

section \<open>Checks\<close>

definition host_bad :: string where
  "host_bad = [CHR 0x27, CHR 0x60, CHR 0x22, CHR 0x24, CHR 0x5C] @ '';&<>|(){}''"

definition user_bad :: string where
  "user_bad = [CHR 0x27, CHR 0x60, CHR 0x22] @ '';&<>|(){}''"

text \<open>\<open>strings.ContainsRune\<close> for a set of ASCII characters.\<close>

definition ContainsRune :: "string \<Rightarrow> string \<Rightarrow> bool" where
  "ContainsRune s r \<longleftrightarrow> (case r of [c] \<Rightarrow> c \<in> set s | _ \<Rightarrow> False)"

definition isHostValid :: "string \<Rightarrow> bool" where
  "isHostValid host \<longleftrightarrow> \<not> HasPrefix host ''-'' \<and>
     list_all (\<lambda>(_, r). \<not> ContainsRune host_bad r \<and> \<not> IsSpace r \<and> \<not> IsControl r) (range_runes host)"

text \<open>The regular expression \<open>\s-\<close>.\<close>

fun space_dash :: "string \<Rightarrow> bool" where
  "space_dash (a # b # r) \<longleftrightarrow>
     a \<in> {CHR 0x09, CHR 0x0A, CHR 0x0C, CHR 0x0D, CHR '' ''} \<and> b = CHR ''-'' \<or> space_dash (b # r)"
| "space_dash _ \<longleftrightarrow> False"

definition isUserValid :: "string \<Rightarrow> bool" where
  "isUserValid user \<longleftrightarrow> \<not> HasPrefix user ''-'' \<and> IndexAny user user_bad = None \<and> \<not> space_dash user \<and>
     \<not> HasSuffix user [CHR 0x5C]"

definition isPortValid :: "string \<Rightarrow> bool" where
  "isPortValid port \<longleftrightarrow> list_all (\<lambda>(_, r). case r of [c] \<Rightarrow> is_digit c | _ \<Rightarrow> False) (range_runes port)"

definition supportsTokenJ :: "(int \<times> int) option \<Rightarrow> bool" where
  "supportsTokenJ openSSH =
     (case openSSH of None \<Rightarrow> True
      | Some (major, minor) \<Rightarrow>
          if major < 0 \<or> minor < 0 then True
          else major > 9 \<or> major = 9 \<and> minor \<ge> 6)"

definition jumpHostOf :: "string \<Rightarrow> string" where
  "jumpHostOf spec0 =
     (let spec = (case LastIndexByte spec0 (CHR ''@'') of None \<Rightarrow> spec0 | Some i \<Rightarrow> drop (Suc i) spec0) in
      if HasPrefix spec ''['' then
        (case IndexByte spec (CHR '']'') of
           Some i \<Rightarrow> if i > 0 then drop 1 (take i spec) else drop 1 spec
         | None \<Rightarrow> drop 1 spec)
      else case IndexByte spec (CHR '':'') of None \<Rightarrow> spec | Some i \<Rightarrow> take i spec)"

section \<open>Expansion\<close>

record tokenEnv =
  te_host :: string
  te_port :: string
  te_user :: string
  te_destination :: string
  te_proxies :: "string list"
  te_hostname :: string
  te_openSSH :: "(int \<times> int) option"
  te_openSshPath :: string
  te_hostKeyAlias :: string

definition checked :: "bool \<Rightarrow> string \<Rightarrow> string \<Rightarrow> string result" where
  "checked ok what v =
     (if ok then Inr v else Inl (what @ '' ['' @ v @ ''] contains invalid characters''))"

text \<open>The text for one token, which is in the allowed set.\<close>

definition tokenValue :: "tokenEnv \<Rightarrow> string \<Rightarrow> char \<Rightarrow> string result" where
  "tokenValue p str c =
     (let host = checked (isHostValid (te_host p)) ''host'' (te_host p);
          dest = checked (isHostValid (te_destination p)) ''destination'' (te_destination p) in
      if c = CHR ''%'' then Inr ''%''
      else if c = CHR ''h'' then host
      else if c = CHR ''p'' then checked (isPortValid (te_port p)) ''port'' (te_port p)
      else if c = CHR ''r'' then checked (isUserValid (te_user p)) ''user'' (te_user p)
      else if c = CHR ''n'' then dest
      else if c = CHR ''l'' then Inr (te_hostname p)
      else if c = CHR ''L'' then
        Inr (case IndexByte (te_hostname p) (CHR ''.'') of None \<Rightarrow> te_hostname p
             | Some i \<Rightarrow> take i (te_hostname p))
      else if c = CHR ''j'' then
        (if te_proxies p = [] then Inr []
         else if \<not> supportsTokenJ (te_openSSH p)
         then Inl (''local OpenSSH client ['' @ te_openSshPath p @
                   ''] is too old; %j is not supported for compatibility'')
         else let proxy = jumpHostOf (last (te_proxies p)) in checked (isHostValid proxy) ''proxy'' proxy)
      else if c = CHR ''C'' then
        (let hashStr = te_hostname p @ te_host p @ te_port p @ te_user p @
               (if te_proxies p \<noteq> [] \<and> supportsTokenJ (te_openSSH p)
                then jumpHostOf (last (te_proxies p)) else [])
         in Inr (hex_bytes (sha1_Sum (bytes_of_string hashStr))))
      else if c = CHR ''k'' then
        (if te_hostKeyAlias p \<noteq> []
         then checked (isHostValid (te_hostKeyAlias p)) ''HostKeyAlias'' (te_hostKeyAlias p)
         else dest)
      else Inl (''token [%'' @ [c] @ ''] in ['' @ str @ ''] is not supported yet''))"

text \<open>The loop over the runes; \<open>state\<close> says that the previous rune was an unanswered percent sign.\<close>

fun expandLoop :: "tokenEnv \<Rightarrow> string \<Rightarrow> string \<Rightarrow> bool \<Rightarrow> string \<Rightarrow> (string \<times> string) list \<Rightarrow> string result" where
  "expandLoop p tokens str state buf [] =
     (if state then Inl (''['' @ str @ ''] ends with % is invalid'') else Inr buf)"
| "expandLoop p tokens str state buf ((_, r) # rs) =
     (if \<not> state then
        (if r = ''%'' then expandLoop p tokens str True buf rs
         else expandLoop p tokens str False (buf @ r) rs)
      else if \<not> ContainsRune tokens r
      then Inl (''token [%'' @ r @ ''] in ['' @ str @ ''] is not supported'')
      else case tokenValue p str (hd r) of
        Inl e \<Rightarrow> Inl e
      | Inr v \<Rightarrow> expandLoop p tokens str False (buf @ v) rs)"

definition expandTokens :: "string \<Rightarrow> tokenEnv \<Rightarrow> string \<Rightarrow> string result" where
  "expandTokens str p tokens =
     (if CHR ''%'' \<notin> set str then Inr str
      else expandLoop p tokens str False [] (range_runes str))"

text \<open>The search over the bytes; the loop stops before the last byte.\<close>

fun containsToken :: "string \<Rightarrow> char \<Rightarrow> bool" where
  "containsToken (a # b # r) token =
     (if a \<noteq> CHR ''%'' then containsToken (b # r) token
      else if b = CHR ''%'' then containsToken r token
      else if b = token then True
      else containsToken r token)"
| "containsToken _ token = False"

section \<open>Facts on runes\<close>

text \<open>An ASCII byte is always a rune of its own.\<close>

lemma utf8_width_high:
  assumes "utf8_width s \<noteq> 1" "utf8_width s \<noteq> 0"
  shows "\<forall>c\<in>set (take (utf8_width s) s). (of_char c :: nat) \<ge> 128"
proof (cases s)
  case (Cons a r)
  have a: "\<not> byte_in 0 127 a" using assms(1) Cons by (auto simp del: One_nat_def)
  then have hi: "(of_char a :: nat) \<ge> 128" by (simp add: byte_in_def)
  have tail: "byte_in lo h c \<Longrightarrow> lo \<in> {128, 144, 160} \<Longrightarrow> (of_char c :: nat) \<ge> 128" for lo h c
    by (auto simp: byte_in_def)
  consider (2) b r' where "r = b # r'" "utf8_width s = 2" "byte_in 128 191 b"
    | (3) b c r' l h where "r = b # c # r'" "utf8_width s = 3" "byte_in l h b" "l \<in> {128, 160}" "byte_in 128 191 c"
    | (4) b c d r' l h where "r = b # c # d # r'" "utf8_width s = 4" "byte_in l h b" "l \<in> {128, 144}"
        "byte_in 128 191 c" "byte_in 128 191 d"
    using assms a unfolding Cons utf8_width.simps by (auto split: if_splits list.splits)
  then show ?thesis
    by cases (use hi tail Cons in \<open>auto simp: numeral_eq_Suc\<close>)
qed (use assms in simp)

lemma utf8_width_1: "utf8_width s = 1 \<Longrightarrow> \<exists>c r. s = c # r \<and> (of_char c :: nat) < 128"
  by (cases s) (auto simp: byte_in_def split: list.splits if_splits)

lemma utf8_width_0: "utf8_width (c # r) = 0 \<Longrightarrow> (of_char c :: nat) \<ge> 128"
  by (auto simp: byte_in_def split: list.splits if_splits)

lemma ascii_is_rune:
  assumes "c \<in> set s" "(of_char c :: nat) < 128"
  shows "([c], [c]) \<in> set (range_runes s)"
  using assms
proof (induction s rule: range_runes.induct)
  case (1 s)
  have ne: "s \<noteq> []" using "1.prems" by auto
  then obtain a r where s: "s = a # r" by (cases s) auto
  let ?w = "utf8_width s"
  consider "?w = 0" | "?w = 1" | "?w \<noteq> 0" "?w \<noteq> 1" by blast
  then show ?case
  proof cases
    case 1
    then have "c \<noteq> a" using utf8_width_0 [of a r] s "1.prems"(2) by auto
    then have "c \<in> set (drop 1 s)" using "1.prems"(1) s by simp
    with "1.IH"(1) [OF ne refl 1 _ "1.prems"(2)] 1 ne show ?thesis
      by (subst range_runes.simps) (simp add: Let_def)
  next
    case 2
    show ?thesis
    proof (cases "c = a")
      case True
      then show ?thesis using 2 ne s by (subst range_runes.simps) (simp add: Let_def)
    next
      case False
      then have "c \<in> set (drop ?w s)" using "1.prems"(1) s 2 by simp
      with "1.IH"(2) [OF ne refl _ _ "1.prems"(2)] 2 ne show ?thesis
        by (subst range_runes.simps) (simp add: Let_def)
    qed
  next
    case 3
    then have "c \<notin> set (take ?w s)" using utf8_width_high [of s] "1.prems"(2) by fastforce
    then have "c \<in> set (drop ?w s)" using "1.prems"(1) by (metis Un_iff append_take_drop_id set_append)
    with "1.IH"(2) [OF ne refl 3(1) _ "1.prems"(2)] 3 ne show ?thesis
      by (subst range_runes.simps) (simp add: Let_def)
  qed
qed

lemma rune_bytes:
  "(b, r) \<in> set (range_runes s) \<Longrightarrow> c \<in> set r \<Longrightarrow> (of_char c :: nat) < 128 \<Longrightarrow> c \<in> set s"
proof (induction s rule: range_runes.induct)
  case (1 s)
  show ?case
  proof (cases "s = []")
    case False
    show ?thesis
    proof (cases "utf8_width s = 0")
      case True
      then have "range_runes s = (take 1 s, rune_error) # range_runes (drop 1 s)"
        using False by (subst range_runes.simps) (simp add: Let_def)
      with 1 False True show ?thesis by (auto dest: in_set_dropD)
    next
      case w: False
      then have "range_runes s = (take (utf8_width s) s, take (utf8_width s) s) # range_runes (drop (utf8_width s) s)"
        using False by (subst range_runes.simps) (simp add: Let_def)
      with 1 False w show ?thesis by (auto dest: in_set_dropD in_set_takeD)
    qed
  qed (use 1 in simp)
qed

lemma rune_source: "(b, r) \<in> set (range_runes s) \<Longrightarrow> r = rune_error \<or> b = r"
proof (induction s rule: range_runes.induct)
  case (1 s)
  show ?case
  proof (cases "s = []")
    case False
    show ?thesis
    proof (cases "utf8_width s = 0")
      case True
      then have "range_runes s = (take 1 s, rune_error) # range_runes (drop 1 s)"
        using False by (subst range_runes.simps) (simp add: Let_def)
      with 1 False True show ?thesis by auto
    next
      case w: False
      then have "range_runes s = (take (utf8_width s) s, take (utf8_width s) s) # range_runes (drop (utf8_width s) s)"
        using False by (subst range_runes.simps) (simp add: Let_def)
      with 1 False w show ?thesis by auto
    qed
  qed (use 1 in simp)
qed

section \<open>Facts on the checks\<close>

lemma user_bad_ascii: "c \<in> set user_bad \<Longrightarrow> (of_char c :: nat) < 128 \<and> c \<in> set host_bad"
  by (auto simp: user_bad_def host_bad_def)

lemma isHostValid_chars:
  assumes "isHostValid host" "c \<in> set host"
  shows "c \<notin> set host_bad" "\<not> IsSpace [c]" "\<not> IsControl [c]"
proof -
  have "c \<notin> set host_bad \<and> \<not> IsSpace [c] \<and> \<not> IsControl [c]"
  proof (cases "(of_char c :: nat) < 128")
    case True
    with assms ascii_is_rune [of c host] show ?thesis
      by (auto simp: isHostValid_def list_all_iff ContainsRune_def)
  next
    case False
    then have "c \<notin> set host_bad" by (auto simp: host_bad_def)
    moreover have "\<not> IsSpace [c]" using False by (auto simp: IsSpace_def space_runes_def)
    moreover have "\<not> IsControl [c]" using False by (auto simp: IsControl_def)
    ultimately show ?thesis by simp
  qed
  then show "c \<notin> set host_bad" "\<not> IsSpace [c]" "\<not> IsControl [c]" by auto
qed

lemma isPortValid_digits:
  assumes "isPortValid port" "c \<in> set port"
  shows "is_digit c"
proof -
  have "c \<in> set (concat (map fst (range_runes port)))"
    using assms(2) by (simp only: concat_fst_range_runes)
  then obtain b r where br: "(b, r) \<in> set (range_runes port)" "c \<in> set b" by auto
  have "case r of [c] \<Rightarrow> is_digit c | _ \<Rightarrow> False"
    using assms(1) br(1) by (auto simp: isPortValid_def list_all_iff)
  then obtain d where d: "r = [d]" "is_digit d" by (auto split: list.splits)
  then have "b = r" using rune_source [OF br(1)] by simp
  then show ?thesis using br d by simp
qed

lemma tokenValue_safe:
  assumes "tokenValue p str t = Inr v" "c \<in> set user_bad" "c \<notin> set (te_hostname p)"
  shows "c \<notin> set v"
proof
  assume v: "c \<in> set v"
  have host: "isHostValid h \<Longrightarrow> c \<notin> set h" for h
    using isHostValid_chars(1) user_bad_ascii [OF assms(2)] by blast
  have port: "isPortValid h \<Longrightarrow> c \<notin> set h" for h
    using isPortValid_digits assms(2) by (fastforce simp: user_bad_def is_digit_def byte_in_def)
  have user: "isUserValid h \<Longrightarrow> c \<notin> set h" for h
    using assms(2) by (auto simp: isUserValid_def IndexAny_def IndexByte_None split: if_splits)
  have hex: "c \<notin> set (hex_bytes b)" for b
    using hex_bytes_safe [of c b] assms(2) by (auto simp: user_bad_def byte_in_def)
  have "c \<noteq> CHR ''%''" using assms(2) by (auto simp: user_bad_def)
  with assms v host port user hex show False
    by (auto simp: tokenValue_def checked_def Let_def split: if_splits option.splits dest: in_set_takeD)
qed

lemma expandLoop_safe:
  assumes "expandLoop p tokens str state buf rs = Inr out" "c \<in> set user_bad" "c \<notin> set (te_hostname p)"
    and "c \<notin> set buf" "\<forall>(b, r)\<in>set rs. c \<notin> set r"
  shows "c \<notin> set out"
  using assms
proof (induction p tokens str state buf rs rule: expandLoop.induct)
  case (2 p tokens str state buf b r rs)
  then show ?case
    by (cases "tokenValue p str (hd r)") (auto split: if_splits dest: tokenValue_safe)
qed (auto split: if_splits)

section \<open>Properties\<close>


definition demo_env :: tokenEnv where
  "demo_env = \<lparr>te_host = ''a.b'', te_port = ''22'', te_user = ''me'', te_destination = ''dest'', te_proxies = [],
     te_hostname = ''l(x)'', te_openSSH = None, te_openSshPath = [], te_hostKeyAlias = []\<rparr>"

lemma demo_expand: "expandTokens ''%l:%%'' demo_env ''%hl'' = Inr ''l(x):%''"
  by (simp add: expandTokens_def ContainsRune_def tokenValue_def demo_env_def Let_def checked_def)


lemma expandLoop_cong:
  assumes "\<And>t. containsToken (state_pre @ s) t \<Longrightarrow> tokenValue p str t = tokenValue q str t"
    and "ascii s" "state_pre = (if state then ''%'' else [])"
    and "tokenValue p str (CHR ''%'') = tokenValue q str (CHR ''%'')"
  shows "expandLoop p tokens str state buf (map (\<lambda>c. ([c], [c])) s) =
    expandLoop q tokens str state buf (map (\<lambda>c. ([c], [c])) s)"
  using assms
proof (induction s arbitrary: state state_pre buf)
  case (Cons c s)
  show ?case
  proof (cases state)
    case True
    have rest: "containsToken s t \<Longrightarrow> tokenValue p str t = tokenValue q str t" for t
      using Cons.prems(1) [of t] Cons.prems(3) True by (cases "c = CHR ''%''") (auto split: if_splits)
    have c: "tokenValue p str c = tokenValue q str c"
      using Cons.prems(1) [of c] Cons.prems(3,4) True by (cases "c = CHR ''%''") auto
    show ?thesis
      using True c Cons.IH [of "[]" False] rest Cons.prems(2,4) by (auto split: sum.splits)
  next
    case False
    show ?thesis
    proof (cases "c = CHR ''%''")
      case True
      then show ?thesis
        using False Cons.IH [of "''%''" True] Cons.prems by simp
    next
      case c: False
      have "containsToken s t \<Longrightarrow> tokenValue p str t = tokenValue q str t" for t
        using Cons.prems(1) [of t] Cons.prems(3) False c by (cases s) auto
      then show ?thesis using False c Cons.IH [of "[]" False] Cons.prems by simp
    qed
  qed
qed simp

text \<open>\<open>containsToken\<close> finds every token an expansion uses.  Two environments that agree on the value
  of each token it reports give the same expansion, errors included, whatever else differs in them.\<close>

theorem containsToken_sound:
  assumes "\<forall>t. containsToken str t \<longrightarrow> tokenValue p str t = tokenValue q str t" and "ascii str"
  shows "expandTokens str p tokens = expandTokens str q tokens"
proof -
  have "tokenValue p str (CHR ''%'') = tokenValue q str (CHR ''%'')" by (simp add: tokenValue_def)
  then show ?thesis
    using expandLoop_cong [of "[]" str p str q False tokens "[]"] assms
    by (simp add: expandTokens_def range_runes_ascii)
qed

theorem containsToken_sound_witness:
  "expandTokens ''%h%%p'' demo_env ''%hp'' = expandTokens ''%h%%p'' (demo_env\<lparr>te_port := '';''\<rparr>) ''%hp''"
proof (rule containsToken_sound)
  show "\<forall>t. containsToken ''%h%%p'' t \<longrightarrow> tokenValue demo_env ''%h%%p'' t =
      tokenValue (demo_env\<lparr>te_port := '';''\<rparr>) ''%h%%p'' t"
    by (simp add: tokenValue_def demo_env_def)
qed simp

end
