(* ===== verification/Forward.thy ===== *)
theory Forward
  imports Tokens "HOL-Library.Sublist"
begin

text \<open>
  \<open>tssh/forward.go\<close>: the specifications of port forwardings, as command line arguments and as
  configuration values, and the selection of the forwardings a connection starts.  The regular
  expressions of the code are anchored and deterministic, so each is a small parser that consumes
  its literals and character classes from the left.  A nil bind address is \<^term>\<open>None\<close>; port -1
  marks a unix socket, as in the code.
\<close>

section \<open>The regular expressions\<close>

definition span1 :: "(char \<Rightarrow> bool) \<Rightarrow> string \<Rightarrow> (string \<times> string) option" where
  "span1 P s = (if takeWhile P s = [] then None else Some (takeWhile P s, dropWhile P s))"

fun lit :: "string \<Rightarrow> string \<Rightarrow> string option" where
  "lit [] s = Some s"
| "lit (c # cs) (x # s) = (if x = c then lit cs s else None)"
| "lit (c # cs) [] = None"

definition at_end :: "string \<Rightarrow> unit option" where
  "at_end s = (if s = [] then Some () else None)"

definition hexcolon :: "char \<Rightarrow> bool" where
  "hexcolon c \<longleftrightarrow> c = CHR '':'' \<or> is_digit c \<or> byte_in 97 102 c \<or> byte_in 65 70 c"

definition portOnly :: "string \<Rightarrow> bool" where
  "portOnly s \<longleftrightarrow> s \<noteq> [] \<and> list_all is_digit s"

definition unixSocket :: "string \<Rightarrow> bool" where
  "unixSocket s \<longleftrightarrow> (case s of c # r \<Rightarrow> c = CHR ''/'' \<and> r \<noteq> [] \<and> CHR 0x0A \<notin> set r | [] \<Rightarrow> False)"

definition bracketed :: "string \<Rightarrow> (string \<times> string) option" where
  "bracketed s = Option.bind (lit ''['' s) (\<lambda>s. Option.bind (span1 hexcolon s) (\<lambda>(h, s).
     Option.bind (lit '']:'' s) (\<lambda>s. Some (h, s))))"

definition ipv6AndPort :: "string \<Rightarrow> (string \<times> string) option" where
  "ipv6AndPort s = Option.bind (bracketed s) (\<lambda>(h, s). Option.bind (span1 is_digit s) (\<lambda>(p, s).
     Option.bind (at_end s) (\<lambda>_. Some (h, p))))"

definition doubleIPv6 :: "string \<Rightarrow> (string \<times> string \<times> string \<times> string) option" where
  "doubleIPv6 s = Option.bind (bracketed s) (\<lambda>(a, s). Option.bind (span1 is_digit s) (\<lambda>(p, s).
     Option.bind (lit '':'' s) (\<lambda>s. Option.bind (ipv6AndPort s) (\<lambda>(h, q). Some (a, p, h, q)))))"

definition firstIPv6 :: "string \<Rightarrow> (string \<times> string \<times> string \<times> string) option" where
  "firstIPv6 s = Option.bind (bracketed s) (\<lambda>(a, s). Option.bind (span1 is_digit s) (\<lambda>(p, s).
     Option.bind (lit '':'' s) (\<lambda>s. Option.bind (span1 (\<lambda>c. c \<noteq> CHR '':'') s) (\<lambda>(h, s).
     Option.bind (lit '':'' s) (\<lambda>s. Option.bind (span1 is_digit s) (\<lambda>(q, s).
     Option.bind (at_end s) (\<lambda>_. Some (a, p, h, q))))))))"

definition secondIPv6 :: "string \<Rightarrow> (string \<times> string \<times> string \<times> string) option" where
  "secondIPv6 s = (let a = takeWhile (\<lambda>c. c \<noteq> CHR '':'') s in
     Option.bind (lit '':'' (drop (length a) s)) (\<lambda>s. Option.bind (span1 is_digit s) (\<lambda>(p, s).
     Option.bind (lit '':'' s) (\<lambda>s. Option.bind (ipv6AndPort s) (\<lambda>(h, q). Some (a, p, h, q))))))"

definition middleIPv6 :: "string \<Rightarrow> (string \<times> string \<times> string) option" where
  "middleIPv6 s = Option.bind (span1 is_digit s) (\<lambda>(p, s). Option.bind (lit '':'' s) (\<lambda>s.
     Option.bind (ipv6AndPort s) (\<lambda>(h, q). Some (p, h, q))))"

section \<open>Bind specifications\<close>

record bindCfg =
  bc_argument :: string
  bc_addr :: "string option"
  bc_port :: int

definition newBindArg :: "string \<Rightarrow> string option \<Rightarrow> string \<Rightarrow> bindCfg result" where
  "newBindArg str addr port =
     (case ParseUint port 16 of
        None \<Rightarrow> Inl (''invalid bind specification ['' @ str @ '']: value out of range'')
      | Some p \<Rightarrow> Inr \<lparr>bc_argument = str, bc_addr = addr, bc_port = int p\<rparr>)"

definition parseBindCfg :: "string \<Rightarrow> bindCfg result" where
  "parseBindCfg arg =
     (let str = TrimSpace arg; slash = Split str (CHR ''/''); colon = Split str (CHR '':'') in
      if portOnly str then newBindArg str None str
      else if length slash = 2 \<and> portOnly (slash ! 1) then newBindArg str (Some (slash ! 0)) (slash ! 1)
      else case ipv6AndPort str of
        Some (h, p) \<Rightarrow> newBindArg str (Some h) p
      | None \<Rightarrow>
          if length colon = 2 \<and> portOnly (colon ! 1) then newBindArg str (Some (colon ! 0)) (colon ! 1)
          else if unixSocket str then Inr \<lparr>bc_argument = str, bc_addr = Some str, bc_port = - 1\<rparr>
          else Inl (''invalid bind specification: '' @ str))"

section \<open>Forward specifications\<close>

record forwardCfg =
  fc_udp :: bool
  fc_argument :: string
  fc_bindAddr :: "string option"
  fc_bindPort :: int
  fc_destHost :: string
  fc_destPort :: int

text \<open>A destination of a configuration value, after the bind part.\<close>

definition parseForwardCfg :: "tokenEnv \<Rightarrow> bool \<Rightarrow> string \<Rightarrow> forwardCfg result" where
  "parseForwardCfg param udp str =
     (let invalid = Inl (''invalid forwarding config: '' @ str) in
      case expandTokens str param ''%CdhijkLlnpru'' of
        Inl e \<Rightarrow> Inl (''expand forwarding config ['' @ str @ ''] failed: '' @ e)
      | Inr expandedStr \<Rightarrow>
          (case Fields expandedStr of
             [b, dest] \<Rightarrow>
               (case parseBindCfg b of Inl _ \<Rightarrow> invalid
                | Inr bind \<Rightarrow>
                    let newForwardCfg = (\<lambda>host port. case ParseUint port 16 of
                            None \<Rightarrow> Inl (''invalid forwarding config ['' @ str @ '']: value out of range'')
                          | Some p \<Rightarrow> Inr \<lparr>fc_udp = udp, fc_argument = str, fc_bindAddr = bc_addr bind,
                              fc_bindPort = bc_port bind, fc_destHost = host, fc_destPort = int p\<rparr>);
                        slash = Split dest (CHR ''/''); colon = Split dest (CHR '':'') in
                    if length slash = 2 \<and> portOnly (slash ! 1) then newForwardCfg (slash ! 0) (slash ! 1)
                    else (case ipv6AndPort dest of
                        Some (h, p) \<Rightarrow> newForwardCfg h p
                      | None \<Rightarrow>
                          if length colon = 2 \<and> portOnly (colon ! 1)
                          then newForwardCfg (colon ! 0) (colon ! 1)
                          else if unixSocket dest
                          then Inr \<lparr>fc_udp = udp, fc_argument = str, fc_bindAddr = bc_addr bind,
                                 fc_bindPort = bc_port bind, fc_destHost = dest, fc_destPort = - 1\<rparr>
                          else invalid))
           | _ \<Rightarrow> invalid))"

definition isUdpPrefix :: "string \<Rightarrow> bool" where
  "isUdpPrefix str \<longleftrightarrow>
     (case str of a # b # c # d # _ \<Rightarrow> a \<in> set ''uU'' \<and> b \<in> set ''dD'' \<and> c \<in> set ''pP'' \<and> d \<in> set ''/:-_''
      | _ \<Rightarrow> False)"

definition parsePort :: "string \<Rightarrow> string option \<Rightarrow> int result" where
  "parsePort str port =
     (case port of None \<Rightarrow> Inr (- 1)
      | Some p \<Rightarrow> (case ParseUint p 16 of
          None \<Rightarrow> Inl (''invalid forwarding specification ['' @ str @ '']: value out of range'')
        | Some v \<Rightarrow> Inr (int v)))"

definition newForwardCfg ::
  "bool \<Rightarrow> string \<Rightarrow> string option \<Rightarrow> string option \<Rightarrow> string \<Rightarrow> string option \<Rightarrow> forwardCfg result" where
  "newForwardCfg udp str bindAddr bindPort destHost destPort =
     (case parsePort str bindPort of Inl e \<Rightarrow> Inl e
      | Inr bPort \<Rightarrow> (case parsePort str destPort of Inl e \<Rightarrow> Inl e
        | Inr dPort \<Rightarrow> Inr \<lparr>fc_udp = udp, fc_argument = str, fc_bindAddr = bindAddr, fc_bindPort = bPort,
            fc_destHost = destHost, fc_destPort = dPort\<rparr>))"

text \<open>The alternatives of \<open>parseForwardArg\<close> in the order of the code.\<close>

definition parseForwardVal :: "bool \<Rightarrow> string \<Rightarrow> string \<Rightarrow> forwardCfg result" where
  "parseForwardVal udp str val =
     (let new = newForwardCfg udp str; sl = Split val (CHR ''/''); t = Split val (CHR '':'') in
      if length sl = 3 \<and> portOnly (sl ! 0) \<and> portOnly (sl ! 2)
      then new None (Some (sl ! 0)) (sl ! 1) (Some (sl ! 2))
      else if length sl = 4 \<and> portOnly (sl ! 1) \<and> portOnly (sl ! 3)
      then new (Some (sl ! 0)) (Some (sl ! 1)) (sl ! 2) (Some (sl ! 3))
      else case doubleIPv6 val of Some (a, p, h, q) \<Rightarrow> new (Some a) (Some p) h (Some q)
      | None \<Rightarrow>
        (case firstIPv6 val of Some (a, p, h, q) \<Rightarrow> new (Some a) (Some p) h (Some q)
        | None \<Rightarrow>
          (case secondIPv6 val of Some (a, p, h, q) \<Rightarrow> new (Some a) (Some p) h (Some q)
          | None \<Rightarrow>
            (case middleIPv6 val of Some (p, h, q) \<Rightarrow> new None (Some p) h (Some q)
            | None \<Rightarrow>
              if length t = 3 \<and> portOnly (t ! 0) \<and> portOnly (t ! 2)
              then new None (Some (t ! 0)) (t ! 1) (Some (t ! 2))
              else if length t = 4 \<and> portOnly (t ! 1) \<and> portOnly (t ! 3)
              then new (Some (t ! 0)) (Some (t ! 1)) (t ! 2) (Some (t ! 3))
              else if length t = 2 \<and> portOnly (t ! 0) \<and> unixSocket (t ! 1)
              then new None (Some (t ! 0)) (t ! 1) None
              else if length t = 3 \<and> portOnly (t ! 1) \<and> unixSocket (t ! 2)
              then new (Some (t ! 0)) (Some (t ! 1)) (t ! 2) None
              else if length t = 3 \<and> portOnly (t ! 2) \<and> unixSocket (t ! 0)
              then new (Some (t ! 0)) None (t ! 1) (Some (t ! 2))
              else if length t = 2 \<and> unixSocket (t ! 0) \<and> unixSocket (t ! 1)
              then new (Some (t ! 0)) None (t ! 1) None
              else Inl (''invalid forwarding specification: '' @ str)))))"

definition parseForwardArg :: "string \<Rightarrow> forwardCfg result" where
  "parseForwardArg arg =
     (let str = TrimSpace arg; udp = isUdpPrefix str in
      parseForwardVal udp str (if udp then drop 4 str else str))"

section \<open>The forwardings of a connection\<close>

definition isGatewayPorts :: "bool \<Rightarrow> string \<Rightarrow> bool" where
  "isGatewayPorts gateway option \<longleftrightarrow> gateway \<or> EqualFold option ''yes''"

datatype fwd_error =
    TsshdProhibited string
  | OpenChannelProhibited
  | OtherError string

definition forwardDeniedReason :: "fwd_error option \<Rightarrow> string \<Rightarrow> string" where
  "forwardDeniedReason err network =
     (let denied = ''Check [AllowTcpForwarding'' @
            (if network = ''unix'' then '', AllowStreamLocalForwarding'' else []) @
            '', DisableForwarding] in [/etc/ssh/sshd_config] on the server.'' in
      case err of None \<Rightarrow> []
      | Some (TsshdProhibited msg) \<Rightarrow> msg
      | Some OpenChannelProhibited \<Rightarrow> denied
      | Some (OtherError text) \<Rightarrow>
          if Contains text ''request denied by peer''
          then denied @ '' And check if the bind address is already in use.'' else [])"

datatype fwd_action = Dynamic bindCfg | Local forwardCfg | Remote forwardCfg

record fwd_input =
  fi_clearAll :: string
  fi_udpTransport :: bool
  fi_param :: tokenEnv
  fi_dynamicArgs :: "bindCfg list"
  fi_dynamicCfg :: "string list"
  fi_localArgs :: "forwardCfg list"
  fi_localCfg :: "string list"
  fi_udpLocalCfg :: "string list"
  fi_remoteArgs :: "forwardCfg list"
  fi_remoteCfg :: "string list"
  fi_udpRemoteCfg :: "string list"

definition parsed :: "('a \<Rightarrow> 'b result) \<Rightarrow> 'a list \<Rightarrow> 'b list" where
  "parsed parse xs = concat (map (\<lambda>x. case parse x of Inl _ \<Rightarrow> [] | Inr y \<Rightarrow> [y]) xs)"

definition fromArgs :: "bool \<Rightarrow> forwardCfg list \<Rightarrow> forwardCfg list" where
  "fromArgs udpTransport fs = filter (\<lambda>f. \<not> (fc_udp f \<and> \<not> udpTransport)) fs"

definition sshPortForward :: "fwd_input \<Rightarrow> fwd_action list" where
  "sshPortForward i =
     (if EqualFold (fi_clearAll i) ''yes'' then []
      else map Dynamic (fi_dynamicArgs i) @ map Dynamic (parsed parseBindCfg (fi_dynamicCfg i)) @
           map Local (fromArgs (fi_udpTransport i) (fi_localArgs i)) @
           map Local (parsed (parseForwardCfg (fi_param i) False) (fi_localCfg i)) @
           (if fi_udpTransport i
            then map Local (parsed (parseForwardCfg (fi_param i) True) (fi_udpLocalCfg i)) else []) @
           map Remote (fromArgs (fi_udpTransport i) (fi_remoteArgs i)) @
           map Remote (parsed (parseForwardCfg (fi_param i) False) (fi_remoteCfg i)) @
           (if fi_udpTransport i
            then map Remote (parsed (parseForwardCfg (fi_param i) True) (fi_udpRemoteCfg i)) else []))"

section \<open>Parsing what was printed\<close>

definition plain_host :: "string \<Rightarrow> bool" where
  "plain_host h \<longleftrightarrow> h \<noteq> [] \<and> ascii h \<and> (\<forall>c\<in>set h. c \<notin> set '':/[]'' \<and> \<not> IsSpace [c])"

definition ipv6_host :: "string \<Rightarrow> bool" where
  "ipv6_host h \<longleftrightarrow> h \<noteq> [] \<and> list_all hexcolon h"

definition print_host :: "string \<Rightarrow> string" where
  "print_host h = (if ipv6_host h then ''['' @ h @ '']'' else h)"

definition print_forward :: "string option \<Rightarrow> nat \<Rightarrow> string \<Rightarrow> nat \<Rightarrow> string" where
  "print_forward bind p h q =
     (case bind of None \<Rightarrow> [] | Some a \<Rightarrow> print_host a @ '':'') @ utoa p @ '':'' @ print_host h @ '':'' @ utoa q"

lemma span1_stop [simp]: "x \<noteq> [] \<Longrightarrow> list_all P x \<Longrightarrow> \<not> P c \<Longrightarrow> span1 P (x @ c # r) = Some (x, c # r)"
  by (cases x) (auto simp: span1_def list_all_iff takeWhile_append dropWhile_append)

lemma span1_all [simp]: "x \<noteq> [] \<Longrightarrow> list_all P x \<Longrightarrow> span1 P x = Some (x, [])"
  by (cases x) (auto simp: span1_def list_all_iff takeWhile_eq_all_conv dropWhile_eq_Nil_conv)

lemma span1_fail [simp]: "\<not> P c \<Longrightarrow> span1 P (c # r) = None"
  by (simp add: span1_def)

lemma class_facts [simp]:
  "\<not> is_digit CHR '':''" "\<not> is_digit CHR ''[''" "\<not> hexcolon CHR '']''"
  by (auto simp: is_digit_def byte_in_def hexcolon_def)

lemma bracketed_print [simp]: "ipv6_host h \<Longrightarrow> bracketed (CHR ''['' # h @ CHR '']'' # CHR '':'' # r) = Some (h, r)"
  by (simp add: bracketed_def ipv6_host_def)

lemma bracketed_fail [simp]: "c \<noteq> CHR ''['' \<Longrightarrow> bracketed (c # r) = None"
  by (simp add: bracketed_def)

lemma ipv6AndPort_print [simp]:
  "ipv6_host h \<Longrightarrow> ipv6AndPort (CHR ''['' # h @ CHR '']'' # CHR '':'' # utoa q) = Some (h, utoa q)"
  by (simp add: ipv6AndPort_def at_end_def)

lemma portOnly_utoa [simp]: "portOnly (utoa n)"
  by (simp add: portOnly_def)

lemma TrimSpace_id:
  assumes "\<not> IsSpace [hd s]" "(of_char (hd s) :: nat) < 128" "is_digit (last s)" "s \<noteq> []"
  shows "TrimSpace s = s"
proof -
  have "\<not> HasPrefix s r" if "r \<in> set space_runes" for r
    using that assms(1,2,4) by (cases s) (auto simp: space_runes_def IsSpace_def HasPrefix_prefix)
  then have l: "TrimLeftSpace s = s"
    by (subst TrimLeftSpace.simps) (auto split: option.splits simp: find_None_iff find_Some_iff)
  have "\<not> HasSuffix s r" if "r \<in> set space_runes" for r
  proof
    assume "HasSuffix s r"
    then have "last s = last r" using space_runes_nonempty [OF that]
      by (metis HasPrefix_prefix HasSuffix_def hd_rev last_rev prefix_def hd_append2 rev_is_Nil_conv rev_rev_ident)
    then show False using that assms(3) by (auto simp: space_runes_def is_digit_def byte_in_def)
  qed
  then have "TrimRightSpace s = s"
    by (subst TrimRightSpace.simps) (auto split: option.splits simp: find_None_iff find_Some_iff)
  with l show ?thesis by (simp add: TrimSpace_def)
qed

lemma utoa_Cons: obtains c r where "utoa n = c # r" "is_digit c"
  using utoa_ne [of n] list_all_digit_utoa [of n] by (cases "utoa n") auto

lemma bracketed_utoa [simp]: "bracketed (utoa n @ r) = None"
proof -
  obtain c x where "utoa n = c # x" "is_digit c" by (rule utoa_Cons)
  then show ?thesis by simp
qed

lemma bracketed_plain [simp]: "plain_host h \<Longrightarrow> bracketed (h @ r) = None"
  by (cases h) (auto simp: plain_host_def)

lemma until_colon [simp]:
  "CHR '':'' \<notin> set x \<Longrightarrow> takeWhile (\<lambda>c. c \<noteq> CHR '':'') (x @ CHR '':'' # r) = x"
  by (simp add: takeWhile_append)

lemma span1_until_colon [simp]:
  "x \<noteq> [] \<Longrightarrow> CHR '':'' \<notin> set x \<Longrightarrow> span1 (\<lambda>c. c \<noteq> CHR '':'') (x @ CHR '':'' # r) = Some (x, CHR '':'' # r)"
  by (intro span1_stop) (auto simp: list_all_iff)

lemma ipv6AndPort_no [simp]:
  "plain_host h \<Longrightarrow> ipv6AndPort (h @ r) = None" "ipv6AndPort (utoa n @ r) = None" "ipv6AndPort (utoa n) = None"
  using bracketed_utoa [of n "[]"] by (simp_all add: ipv6AndPort_def)

lemma plain_notin [simp]:
  "plain_host h \<Longrightarrow> CHR '':'' \<notin> set h" "plain_host h \<Longrightarrow> CHR ''/'' \<notin> set h" "plain_host h \<Longrightarrow> h \<noteq> []"
  by (auto simp: plain_host_def)

lemma ipv6_notin [simp]: "ipv6_host h \<Longrightarrow> CHR ''/'' \<notin> set h"
proof -
  have "\<not> hexcolon CHR ''/''" by (simp add: hexcolon_def is_digit_def byte_in_def)
  then show "ipv6_host h \<Longrightarrow> CHR ''/'' \<notin> set h" by (auto simp: ipv6_host_def list_all_iff)
qed

definition host_ok :: "string \<Rightarrow> bool" where
  "host_ok h \<longleftrightarrow> plain_host h \<or> ipv6_host h"

lemma print_host_slash [simp]: "host_ok h \<Longrightarrow> CHR ''/'' \<notin> set (print_host h)"
  by (auto simp: host_ok_def print_host_def)

text \<open>Digits up to a colon at the front of a host that is followed by one.\<close>

lemma digits_colon [simp]:
  assumes "plain_host a"
  shows "Option.bind (span1 is_digit (a @ CHR '':'' # r)) (\<lambda>(p, s). Option.bind (lit '':'' s) (f p)) =
    (if list_all is_digit a then f a r else None)"
proof (cases "list_all is_digit a")
  case False
  let ?d = "takeWhile is_digit a"
  obtain c y where y: "a = ?d @ c # y" "\<not> is_digit c"
    using False by (metis list_all_iff takeWhile_dropWhile_id dropWhile_eq_Nil_conv hd_Cons_tl hd_dropWhile)
  have "c \<noteq> CHR '':''" using y assms by (metis plain_notin(1) in_set_conv_decomp)
  moreover have "span1 is_digit (a @ CHR '':'' # r) = (if ?d = [] then None else Some (?d, c # y @ CHR '':'' # r))"
  proof (cases "?d = []")
    case True
    then have "a = c # y" using y(1) by simp
    then show ?thesis using y(2) by simp
  next
    case ne: False
    have "list_all is_digit ?d" by (auto simp: list_all_iff dest: set_takeWhileD)
    from span1_stop [of ?d is_digit c "y @ CHR '':'' # r", OF ne this y(2)] ne y(1)
    show ?thesis by (metis append.assoc append_Cons)
  qed
  ultimately show ?thesis using False by simp
qed (use assms in simp)

lemma parseForwardVal_print:
  assumes "p < 65536" "q < 65536" "host_ok h" "\<forall>a. bind = Some a \<longrightarrow> host_ok a"
  shows "parseForwardVal udp str (print_forward bind p h q) =
    Inr \<lparr>fc_udp = udp, fc_argument = str, fc_bindAddr = bind, fc_bindPort = int p, fc_destHost = h,
      fc_destPort = int q\<rparr>"
proof -
  have "CHR ''/'' \<notin> set (print_forward bind p h q)"
    using assms by (auto simp: print_forward_def split: option.splits)
  then have sl: "Split (print_forward bind p h q) (CHR ''/'') = [print_forward bind p h q]"
    by (rule Split_notin)
  have pp: "parsePort s (Some (utoa n)) = Inr (int n)" if "n < 65536" for s n
    using that by (simp add: parsePort_def)
  note defs = parseForwardVal_def Let_def sl newForwardCfg_def pp assms(1,2)
  show ?thesis
  proof (cases bind)
    case None
    show ?thesis
    proof (cases "ipv6_host h")
      case True
      with None show ?thesis
        unfolding defs
        by (simp add: print_forward_def print_host_def doubleIPv6_def firstIPv6_def secondIPv6_def middleIPv6_def
            pp assms)
    next
      case False
      with assms(3) have h: "plain_host h" by (simp add: host_ok_def)
      with None False show ?thesis
        unfolding defs
        by (simp add: print_forward_def print_host_def doubleIPv6_def firstIPv6_def secondIPv6_def middleIPv6_def
            Split_append Split_notin pp assms)
    qed
  next
    case (Some a)
    then have a: "host_ok a" using assms(4) by simp
    consider "ipv6_host a" "ipv6_host h" | "ipv6_host a" "plain_host h" "\<not> ipv6_host h"
      | "plain_host a" "\<not> ipv6_host a" "ipv6_host h" | "plain_host a" "\<not> ipv6_host a" "plain_host h" "\<not> ipv6_host h"
      using a assms(3) by (auto simp: host_ok_def)
    then show ?thesis
      unfolding defs
      by cases (simp_all add: Some print_forward_def print_host_def doubleIPv6_def firstIPv6_def secondIPv6_def
          middleIPv6_def at_end_def Split_append Split_notin pp assms)
  qed
qed

lemma newForwardCfg_Inr:
  assumes "newForwardCfg udp str a p h q = Inr f"
  shows "fc_bindAddr f = a" "fc_destHost f = h" "fc_udp f = udp" "fc_argument f = str"
    "- 1 \<le> fc_bindPort f \<and> fc_bindPort f < 65536" "- 1 \<le> fc_destPort f \<and> fc_destPort f < 65536"
    "fc_bindPort f = - 1 \<longleftrightarrow> p = None" "fc_destPort f = - 1 \<longleftrightarrow> q = None"
  using assms
  by (auto simp: newForwardCfg_def parsePort_def split: sum.splits option.splits dest!: ParseUint_bound)

definition cfg_ok :: "forwardCfg \<Rightarrow> bool" where
  "cfg_ok f \<longleftrightarrow> - 1 \<le> fc_bindPort f \<and> fc_bindPort f < 65536 \<and> - 1 \<le> fc_destPort f \<and> fc_destPort f < 65536 \<and>
     (fc_bindPort f = - 1 \<longrightarrow> (\<exists>a. fc_bindAddr f = Some a \<and> unixSocket a)) \<and>
     (fc_destPort f = - 1 \<longrightarrow> unixSocket (fc_destHost f))"

lemma newForwardCfg_ok:
  assumes "newForwardCfg udp str a p h q = Inr f"
    and "p = None \<longrightarrow> (\<exists>x. a = Some x \<and> unixSocket x)" "q = None \<longrightarrow> unixSocket h"
  shows "cfg_ok f"
  using newForwardCfg_Inr [OF assms(1)] assms(2,3) by (auto simp: cfg_ok_def)

definition good :: "forwardCfg result \<Rightarrow> bool" where
  "good r \<longleftrightarrow> (\<forall>f. r = Inr f \<longrightarrow> cfg_ok f)"

lemma good_if: "(c \<Longrightarrow> good x) \<Longrightarrow> (\<not> c \<Longrightarrow> good y) \<Longrightarrow> good (if c then x else y)"
  by simp

lemma good_option: "good x \<Longrightarrow> (\<And>z. good (g z)) \<Longrightarrow> good (case m of None \<Rightarrow> x | Some z \<Rightarrow> g z)"
  by (simp split: option.split)

lemma good_prod: "(\<And>a b. good (g a b)) \<Longrightarrow> good (case z of (a, b) \<Rightarrow> g a b)"
  by (simp split: prod.split)

lemma good_error: "good (Inl e)"
  by (simp add: good_def)

lemma good_new:
  "(p = None \<Longrightarrow> \<exists>x. a = Some x \<and> unixSocket x) \<Longrightarrow> (q = None \<Longrightarrow> unixSocket h) \<Longrightarrow>
   good (newForwardCfg udp str a p h q)"
  using newForwardCfg_ok by (auto simp: good_def)

lemma parseForwardVal_good: "good (parseForwardVal udp str val)"
  unfolding parseForwardVal_def Let_def
  by (intro good_if good_option good_prod good_error good_new; simp)

section \<open>Properties\<close>

text \<open>C31: a forwarding specification that is accepted on the command line is usable: both ports are 16-bit
  numbers, or -1, and a port of -1 comes with a unix socket path on that side.\<close>

theorem parseForwardArg_ok:
  assumes "parseForwardArg arg = Inr f"
  shows "- 1 \<le> fc_bindPort f \<and> fc_bindPort f < 65536 \<and> - 1 \<le> fc_destPort f \<and> fc_destPort f < 65536 \<and>
    (fc_bindPort f = - 1 \<longrightarrow> (\<exists>a. fc_bindAddr f = Some a \<and> unixSocket a)) \<and>
    (fc_destPort f = - 1 \<longrightarrow> unixSocket (fc_destHost f))"
proof -
  have "cfg_ok f" using assms parseForwardVal_good by (auto simp: parseForwardArg_def Let_def good_def)
  then show ?thesis by (simp add: cfg_ok_def)
qed

text \<open>C18: parsing undoes printing.  For every bind address and destination, each a plain host name or an IPv6
  address in brackets, with or without a bind address, \<open>parseForwardArg\<close> gives back the addresses and ports
  that were printed, unless the bind address starts with the letter of the udp prefix.\<close>

theorem parseForwardArg_print:
  assumes "p < 65536" "q < 65536" "host_ok h"
    and "\<forall>a. bind = Some a \<longrightarrow> host_ok a \<and> hd a \<noteq> CHR ''u'' \<and> hd a \<noteq> CHR ''U''"
  shows "parseForwardArg (print_forward bind p h q) =
    Inr \<lparr>fc_udp = False, fc_argument = print_forward bind p h q, fc_bindAddr = bind, fc_bindPort = int p,
      fc_destHost = h, fc_destPort = int q\<rparr>"
proof -
  let ?s = "print_forward bind p h q"
  have hd: "?s \<noteq> []" "\<not> IsSpace [hd ?s]" "(of_char (hd ?s) :: nat) < 128" "hd ?s \<noteq> CHR ''u''" "hd ?s \<noteq> CHR ''U''"
  proof -
    obtain d r where d: "utoa p = d # r" "is_digit d" by (rule utoa_Cons)
    have dig: "\<not> IsSpace [d] \<and> (of_char d :: nat) < 128 \<and> d \<noteq> CHR ''u'' \<and> d \<noteq> CHR ''U''"
      using d(2) by (auto simp: is_digit_def byte_in_def IsSpace_def space_runes_def)
    have "\<not> IsSpace ''[''" by code_simp
    then show "?s \<noteq> []" "\<not> IsSpace [hd ?s]" "(of_char (hd ?s) :: nat) < 128" "hd ?s \<noteq> CHR ''u''"
      "hd ?s \<noteq> CHR ''U''"
      using assms(4) d(1) dig
      by (cases bind; cases "the bind"; auto simp: print_forward_def print_host_def host_ok_def plain_host_def ascii_def)+
  qed
  have "last ?s = last (utoa q)" by (simp add: print_forward_def)
  then have "is_digit (last ?s)"
    using list_all_digit_utoa [of q] by (auto simp: list_all_iff)
  then have "TrimSpace ?s = ?s" using TrimSpace_id hd(1-3) by blast
  moreover have "\<not> isUdpPrefix ?s" using hd(1,4,5) by (cases ?s) (auto simp: isUdpPrefix_def split: list.splits)
  ultimately show ?thesis
    using parseForwardVal_print assms by (simp add: parseForwardArg_def)
qed

theorem parseForwardArg_print_witness:
  "print_forward (Some ''::1'') 8080 ''db'' 5432 = ''[::1]:8080:[db]:5432'' \<and>
   parseForwardArg (print_forward (Some ''::1'') 8080 ''db'' 5432) =
    Inr \<lparr>fc_udp = False, fc_argument = print_forward (Some ''::1'') 8080 ''db'' 5432, fc_bindAddr = Some ''::1'',
      fc_bindPort = int 8080, fc_destHost = ''db'', fc_destPort = int 5432\<rparr>"
proof
  show "print_forward (Some ''::1'') 8080 ''db'' 5432 = ''[::1]:8080:[db]:5432''"
    by (simp add: print_forward_def print_host_def ipv6_host_def hexcolon_def is_digit_def byte_in_def utoa.simps
        digit_chars)
  show "parseForwardArg (print_forward (Some ''::1'') 8080 ''db'' 5432) =
    Inr \<lparr>fc_udp = False, fc_argument = print_forward (Some ''::1'') 8080 ''db'' 5432, fc_bindAddr = Some ''::1'',
      fc_bindPort = int 8080, fc_destHost = ''db'', fc_destPort = int 5432\<rparr>"
    by (rule parseForwardArg_print)
      (simp_all add: host_ok_def ipv6_host_def hexcolon_def is_digit_def byte_in_def)
qed

theorem parseForwardArg_ok_witness:
  "\<exists>f. parseForwardArg ''8080:[db]:5432'' = Inr f \<and> fc_bindPort f < 65536 \<and> fc_destPort f < 65536"
proof -
  have s: "''8080:[db]:5432'' = print_forward None 8080 ''db'' 5432"
    by (simp add: print_forward_def print_host_def ipv6_host_def hexcolon_def is_digit_def byte_in_def utoa.simps
        digit_chars)
  have "parseForwardVal udp str ''8080:[db]:5432'' = Inr \<lparr>fc_udp = udp, fc_argument = str, fc_bindAddr = None,
      fc_bindPort = int 8080, fc_destHost = ''db'', fc_destPort = int 5432\<rparr>" for udp str
    unfolding s by (rule parseForwardVal_print)
      (simp_all add: host_ok_def ipv6_host_def hexcolon_def is_digit_def byte_in_def)
  moreover have "TrimSpace ''8080:[db]:5432'' = ''8080:[db]:5432''"
  proof (rule TrimSpace_id)
    show "\<not> IsSpace [hd ''8080:[db]:5432'']" by code_simp
  qed (simp_all add: is_digit_def byte_in_def)
  ultimately have "\<exists>f. parseForwardArg ''8080:[db]:5432'' = Inr f"
    by (simp add: parseForwardArg_def isUdpPrefix_def)
  then show ?thesis using parseForwardArg_ok by blast
qed

lemma parseForwardCfg_udp: "parseForwardCfg p u s = Inr f \<Longrightarrow> fc_udp f = u"
  by (auto simp: parseForwardCfg_def Let_def split: sum.splits list.splits if_splits option.splits prod.splits)

lemma in_parsed: "y \<in> set (parsed parse xs) \<longleftrightarrow> (\<exists>x\<in>set xs. parse x = Inr y)"
  by (auto simp: parsed_def split: sum.splits) (metis sum.distinct(1) sum.sel(2) isl_def Inr_inject)+

definition demo_cfg :: forwardCfg where
  "demo_cfg = \<lparr>fc_udp = False, fc_argument = [], fc_bindAddr = None, fc_bindPort = 80, fc_destHost = ''h'',
     fc_destPort = 81\<rparr>"

definition demo_fwd :: fwd_input where
  "demo_fwd = \<lparr>fi_clearAll = [], fi_udpTransport = False, fi_param = demo_env, fi_dynamicArgs = [],
     fi_dynamicCfg = [], fi_localArgs = [demo_cfg\<lparr>fc_udp := True\<rparr>, demo_cfg], fi_localCfg = [],
     fi_udpLocalCfg = [], fi_remoteArgs = [], fi_remoteCfg = [], fi_udpRemoteCfg = []\<rparr>"

text \<open>Without the UDP transport no UDP forwarding is ever started, wherever it comes from; with
  \<open>ClearAllForwardings\<close> nothing is started at all.\<close>

theorem sshPortForward_udp:
  "(\<not> fi_udpTransport i \<longrightarrow>
      (\<forall>f. Local f \<in> set (sshPortForward i) \<or> Remote f \<in> set (sshPortForward i) \<longrightarrow> \<not> fc_udp f)) \<and>
   (EqualFold (fi_clearAll i) ''yes'' \<longrightarrow> sshPortForward i = [])"
  by (auto simp: sshPortForward_def fromArgs_def in_parsed dest: parseForwardCfg_udp split: if_splits)

theorem sshPortForward_udp_witness:
  "\<not> fi_udpTransport demo_fwd \<and> Local (demo_cfg\<lparr>fc_udp := True\<rparr>) \<notin> set (sshPortForward demo_fwd)"
proof -
  have "\<not> fi_udpTransport demo_fwd" by (simp add: demo_fwd_def)
  moreover have "fc_udp (demo_cfg\<lparr>fc_udp := True\<rparr>)" by simp
  ultimately show ?thesis using sshPortForward_udp [of demo_fwd] by blast
qed

end
