(* ===== verification/SshTime.thy ===== *)
theory SshTime
  imports GoStrings
begin

text \<open>
  The ssh time format of \<open>tssh/comm.go\<close>: \<open>convertSshTime\<close> reads a sequence of numbers with units
  into \<open>uint32\<close> seconds, with overflow checks before every multiplication and addition, and
  \<open>formatSshTime\<close> writes seconds in weeks, days, hours, minutes and seconds.
\<close>

section \<open>Reading\<close>

definition kMaxUint32 :: u32 where "kMaxUint32 = 4294967295"

definition multiplierOf :: "char \<Rightarrow> u32 option" where
  "multiplierOf c =
     (if c \<in> set ''sS'' then Some 1
      else if c \<in> set ''mM'' then Some 60
      else if c \<in> set ''hH'' then Some (60 * 60)
      else if c \<in> set ''dD'' then Some (24 * 60 * 60)
      else if c \<in> set ''wW'' then Some (7 * 24 * 60 * 60)
      else None)"

text \<open>The checks and the sum of one component.\<close>

definition addTime :: "u32 \<Rightarrow> u32 \<Rightarrow> u32 \<Rightarrow> u32 result" where
  "addTime tot val multiplier =
     (if val \<noteq> 0 \<and> multiplier > kMaxUint32 div val then Inl ''time value overflow''
      else let v = val * multiplier in
        if tot > kMaxUint32 - v then Inl ''total seconds overflow'' else Inr (tot + v))"

text \<open>The loop at position \<open>i\<close> of the string, whose rest from there is \<open>s\<close>.\<close>

function convertLoop :: "nat \<Rightarrow> string \<Rightarrow> u32 \<Rightarrow> u32 result" where
  "convertLoop i s tot =
     (if s = [] then Inr tot
      else let digits = takeWhile is_digit s; rest = dropWhile is_digit s in
        if digits = [] then Inl (''invalid char '' @ [hd s] @ '' at position '' @ utoa i)
        else case ParseUint digits 32 of
          None \<Rightarrow> Inl (''value overflow at position '' @ utoa i)
        | Some v \<Rightarrow>
            (case rest of
               [] \<Rightarrow> addTime tot (of_nat v) 1
             | c # rest' \<Rightarrow>
                 (case multiplierOf c of
                    None \<Rightarrow> Inl (''invalid time unit '' @ [c])
                  | Some mult \<Rightarrow>
                      (case addTime tot (of_nat v) mult of
                         Inl e \<Rightarrow> Inl e
                       | Inr t \<Rightarrow> convertLoop (i + length digits + 1) rest' t))))"
  by pat_completeness auto
termination
proof (relation "measure (\<lambda>(i, s, tot). length s)")
  fix i :: nat and s :: string and tot :: u32 and x xa :: string and x2 :: nat and x21 :: char
    and x22 :: string and x2a b :: u32
  assume "xa = dropWhile is_digit s" "xa = x21 # x22"
  then have "Suc (length x22) \<le> length s" by (metis length_Cons length_dropWhile_le)
  then show "((i + length x + 1, x22, b), i, s, tot) \<in> measure (\<lambda>(i, s, tot). length s)" by simp
qed simp

declare convertLoop.simps [simp del]

definition convertSshTime :: "string \<Rightarrow> u32 result" where
  "convertSshTime str = (if str = [] then Inl ''empty time string'' else convertLoop 0 str 0)"

section \<open>Writing\<close>

definition timeUnits :: "(char \<times> u32) list" where
  "timeUnits = [(CHR ''w'', 7 * 24 * 60 * 60), (CHR ''d'', 24 * 60 * 60), (CHR ''h'', 60 * 60),
     (CHR ''m'', 60), (CHR ''s'', 1)]"

fun formatUnits :: "(char \<times> u32) list \<Rightarrow> u32 \<Rightarrow> string" where
  "formatUnits [] seconds = []"
| "formatUnits ((sfx, u) # us) seconds =
     (if seconds \<ge> u then utoa (unat (seconds div u)) @ [sfx] @ formatUnits us (seconds mod u)
      else formatUnits us seconds)"

definition formatSshTime :: "u32 \<Rightarrow> string" where
  "formatSshTime seconds = (if seconds = 0 then ''0s'' else formatUnits timeUnits seconds)"

section \<open>Exactness of the overflow checks\<close>

lemma addTime_exact:
  "addTime tot val mult =
     (if unat val * unat mult > 4294967295 then Inl ''time value overflow''
      else if unat tot + unat val * unat mult > 4294967295 then Inl ''total seconds overflow''
      else Inr (of_nat (unat tot + unat val * unat mult)))"
proof -
  have big: "unat kMaxUint32 = 4294967295" by (simp add: kMaxUint32_def)
  have c1: "(val \<noteq> 0 \<and> mult > kMaxUint32 div val) = (unat val * unat mult > 4294967295)"
  proof (cases "val = 0")
    case False
    then have v: "unat val > 0" by (simp add: unat_gt_0)
    have "(mult > kMaxUint32 div val) = (4294967295 div unat val < unat mult)"
      by (simp add: word_less_nat_alt unat_div big)
    also have "\<dots> = (4294967295 < unat mult * unat val)"
      using v by (simp add: div_less_iff_less_mult)
    finally show ?thesis using False by (simp add: mult.commute)
  qed simp
  show ?thesis
  proof (cases "unat val * unat mult > 4294967295")
    case True
    with c1 show ?thesis by (simp add: addTime_def)
  next
    case False
    then have "unat (val * mult) = unat val * unat mult"
      by (simp add: unat_word_ariths)
    moreover have "unat (kMaxUint32 - val * mult) = 4294967295 - unat (val * mult)"
      using False calculation big by (subst unat_sub_u32) (simp_all add: word_le_nat_alt)
    ultimately have c2: "(tot > kMaxUint32 - val * mult) = (unat tot + unat val * unat mult > 4294967295)"
      using False unfolding word_less_nat_alt by linarith
    have "tot + val * mult = of_nat (unat tot + unat val * unat mult)" by simp
    with c1 c2 False show ?thesis by (auto simp: addTime_def Let_def)
  qed
qed

lemma convertLoop_unit:
  assumes "multiplierOf c = Some m" "n < 2 ^ 32" "unat t + n * unat m < 4294967296"
  shows "convertLoop i (utoa n @ c # r) t = convertLoop (i + length (utoa n) + 1) r (of_nat (unat t + n * unat m))"
proof -
  have "c \<in> set ''sSmMhHdDwW''" using assms(1) by (auto simp: multiplierOf_def split: if_splits)
  then have c: "\<not> is_digit c" by (auto simp: is_digit_def byte_in_def)
  have d: "takeWhile is_digit (utoa n @ c # r) = utoa n" "dropWhile is_digit (utoa n @ c # r) = c # r"
    using list_all_digit_utoa [of n] c by (auto simp: list_all_iff takeWhile_append dropWhile_append)
  have n: "unat (of_nat n :: u32) = n" using assms(2) by (simp add: unat_of_nat_u32)
  have "addTime t (of_nat n) m = Inr (of_nat (unat t + n * unat m))"
    using assms(3) by (simp add: addTime_exact n)
  then show ?thesis
    using assms(1,2) by (subst convertLoop.simps) (simp add: d)
qed

lemma mult_div_mod: "unat t + unat (s div u) * unat u + unat (s mod u) = unat t + unat s" for t s u :: u32
  by (simp add: unat_div unat_mod)

text \<open>Reading what \<open>formatUnits\<close> wrote adds the seconds, as long as every unit has its letter and the
  last one is a second.\<close>

lemma convertLoop_format:
  assumes "\<forall>(c, u)\<in>set us. multiplierOf c = Some u" "us = [] \<longrightarrow> s = 0"
    and "us \<noteq> [] \<longrightarrow> snd (last us) = 1" "unat t + unat s < 4294967296"
  shows "convertLoop i (formatUnits us s) t = Inr (of_nat (unat t + unat s))"
  using assms
proof (induction us arbitrary: i s t)
  case Nil
  then show ?case by (simp add: convertLoop.simps)
next
  case (Cons cu us)
  obtain c u where cu: "cu = (c, u)" by (cases cu)
  have m: "multiplierOf c = Some u" using Cons.prems(1) cu by simp
  have last: "us = [] \<Longrightarrow> u = 1" using Cons.prems(3) cu by simp
  show ?case
  proof (cases "s \<ge> u")
    case True
    let ?q = "unat (s div u)"
    have sum: "unat t + ?q * unat u + unat (s mod u) = unat t + unat s" by (rule mult_div_mod)
    have q: "?q < 2 ^ 32" using unat_u32_less [of "s div u"] by simp
    have lt: "unat t + ?q * unat u < 4294967296" using sum Cons.prems(4) by linarith
    have t': "unat (of_nat (unat t + ?q * unat u) :: u32) = unat t + ?q * unat u"
      using lt by (simp add: unat_of_nat_u32 del: of_nat_add of_nat_mult)
    let ?t = "of_nat (unat t + ?q * unat u) :: u32"
    have "us = [] \<longrightarrow> s mod u = 0" using last by simp
    moreover have "us \<noteq> [] \<longrightarrow> snd (last us) = 1" using Cons.prems(3) cu by auto
    moreover have "unat ?t + unat (s mod u) < 4294967296" using t' sum Cons.prems(4) by linarith
    ultimately have "convertLoop j (formatUnits us (s mod u)) ?t = Inr (of_nat (unat ?t + unat (s mod u)))" for j
      using Cons.prems(1) by (intro Cons.IH) auto
    then have "convertLoop j (formatUnits us (s mod u)) (of_nat (unat t + ?q * unat u)) =
        Inr (of_nat (unat t + unat s))" for j
      using sum by (simp only: t')
    then show ?thesis
      using convertLoop_unit [OF m q lt] True by (simp add: cu del: of_nat_add of_nat_mult)
  next
    case False
    then have "us = [] \<longrightarrow> s = 0" using last by (auto simp: not_le)
    then show ?thesis
      using Cons.IH [of s t i] Cons.prems False by (simp add: cu split: if_splits)
  qed
qed

lemma timeUnits_ok: "\<forall>(c, u)\<in>set timeUnits. multiplierOf c = Some u" "snd (last timeUnits) = 1" "timeUnits \<noteq> []"
  by (simp_all add: timeUnits_def multiplierOf_def)

lemma formatUnits_ne: "s \<noteq> 0 \<Longrightarrow> us \<noteq> [] \<Longrightarrow> snd (last us) = 1 \<Longrightarrow> formatUnits us s \<noteq> []"
proof (induction us arbitrary: s)
  case (Cons cu us)
  then show ?case by (cases cu; cases "us = []") (auto simp: word_less_1 not_le)
qed simp

section \<open>Properties\<close>

text \<open>C19: every number of seconds that fits \<open>uint32\<close> is read back exactly from its formatted form.\<close>

theorem sshTime_roundtrip: "convertSshTime (formatSshTime n) = Inr n"
proof (cases "n = 0")
  case True
  have "convertSshTime ''0s'' = convertLoop 0 (utoa 0 @ CHR ''s'' # []) 0"
    by (simp add: convertSshTime_def utoa.simps digit_chars)
  also have "\<dots> = convertLoop (0 + length (utoa 0) + 1) [] (of_nat (unat (0::u32) + 0 * unat (1::u32)))"
    by (rule convertLoop_unit) (simp_all add: multiplierOf_def)
  finally show ?thesis using True by (simp add: formatSshTime_def convertLoop.simps)
next
  case False
  have "convertLoop 0 (formatUnits timeUnits n) 0 = Inr (of_nat (unat (0 :: u32) + unat n))"
    using timeUnits_ok unat_u32_less [of n] by (intro convertLoop_format) auto
  then show ?thesis
    using False formatUnits_ne [OF False timeUnits_ok(3,2)]
    by (simp add: convertSshTime_def formatSshTime_def)
qed

end
