(* ===== verification/Algos.thy ===== *)
theory Algos
  imports GoStrings
begin

text \<open>
  \<open>tssh/algos.go\<close> and \<open>wildcardToRegexp\<close> of \<open>tssh/comm.go\<close>: the lists of ciphers and key
  exchanges with the operators \<open>+\<close>, \<open>-\<close> and \<open>^\<close>.  Removal goes through a regular expression
  that is built as text; the part of Go's regular expression syntax that such a text can hold is
  modelled by a parser and a matcher on runes.
\<close>

section \<open>Wildcards as regular expressions\<close>

abbreviation re_meta :: string where
  "re_meta \<equiv> ''()[]{}.+,-^$|'' @ [CHR 0x5C]"

definition runes :: "string \<Rightarrow> string list" where
  "runes s = map snd (range_runes s)"

definition quoteRune :: "string \<Rightarrow> string" where
  "quoteRune r =
     (if r = ''*'' then ''.*'' else if r = ''?'' then ''.''
      else if \<exists>c\<in>set re_meta. r = [c] then CHR 0x5C # r else r)"

definition wildcardToRegexp :: "string \<Rightarrow> string" where
  "wildcardToRegexp pattern = concat (map quoteRune (runes pattern))"

datatype re_atom = Lit string | AnyRune | AnyRunes

text \<open>The atoms up to an unescaped \<open>$\<close>; \<^term>\<open>None\<close> for syntax outside the part that is modelled.\<close>

fun parseAtoms :: "string list \<Rightarrow> (re_atom list \<times> string list) option" where
  "parseAtoms [] = None"
| "parseAtoms (r # rs) =
     (if r = ''$'' then Some ([], rs)
      else if r = [CHR 0x5C] then
        (case rs of [] \<Rightarrow> None
         | c # rs' \<Rightarrow> map_option (\<lambda>(as, t). (Lit c # as, t)) (parseAtoms rs'))
      else if r = ''.'' then
        (case rs of
           c # rs' \<Rightarrow> if c = ''*'' then map_option (\<lambda>(as, t). (AnyRunes # as, t)) (parseAtoms rs')
                      else map_option (\<lambda>(as, t). (AnyRune # as, t)) (parseAtoms rs)
         | [] \<Rightarrow> None)
      else if r \<in> (\<lambda>c. [c]) ` set ''()[]{}+*?^|'' then None
      else map_option (\<lambda>(as, t). (Lit r # as, t)) (parseAtoms rs))"

text \<open>A list of alternatives, each a group that is anchored at both ends.\<close>

fun parseAlts :: "nat \<Rightarrow> string list \<Rightarrow> re_atom list list option" where
  "parseAlts 0 rs = None"
| "parseAlts (Suc n) rs =
     (case rs of a # b # rs1 \<Rightarrow>
        if a = ''('' \<and> b = ''^'' then
          (case parseAtoms rs1 of
             Some (as, c # rs2) \<Rightarrow>
               if c \<noteq> '')'' then None
               else (case rs2 of [] \<Rightarrow> Some [as]
                 | d # rs3 \<Rightarrow> if d = ''|'' then map_option ((#) as) (parseAlts n rs3) else None)
           | _ \<Rightarrow> None)
        else None
      | _ \<Rightarrow> None)"

definition regexpCompile :: "string \<Rightarrow> re_atom list list option" where
  "regexpCompile expr = parseAlts (length (runes expr)) (runes expr)"

fun matchAtoms :: "re_atom list \<Rightarrow> string list \<Rightarrow> bool" where
  "matchAtoms [] s = (s = [])"
| "matchAtoms (Lit c # as) s = (case s of [] \<Rightarrow> False | x # s' \<Rightarrow> x = c \<and> matchAtoms as s')"
| "matchAtoms (AnyRune # as) s = (case s of [] \<Rightarrow> False | x # s' \<Rightarrow> x \<noteq> [CHR 0x0A] \<and> matchAtoms as s')"
| "matchAtoms (AnyRunes # as) [] = matchAtoms as []"
| "matchAtoms (AnyRunes # as) (x # s) =
     (matchAtoms as (x # s) \<or> x \<noteq> [CHR 0x0A] \<and> matchAtoms (AnyRunes # as) s)"

definition regexpMatch :: "re_atom list list \<Rightarrow> string \<Rightarrow> bool" where
  "regexpMatch re s \<longleftrightarrow> list_ex (\<lambda>as. matchAtoms as (runes s)) re"

section \<open>Algorithm lists\<close>

fun uniqueLoop :: "string set \<Rightarrow> string list \<Rightarrow> string list" where
  "uniqueLoop keys [] = []"
| "uniqueLoop keys (e # es) =
     (if e \<in> keys then uniqueLoop keys es else e # uniqueLoop (insert e keys) es)"

definition uniqueAlgorithms :: "string list \<Rightarrow> string list" where
  "uniqueAlgorithms xs = uniqueLoop {} xs"

definition specElements :: "string \<Rightarrow> string list" where
  "specElements listStr = filter (\<lambda>i. i \<noteq> []) (map TrimSpace (Split listStr (CHR '','')))"

definition removeExpr :: "string list \<Rightarrow> string" where
  "removeExpr elements = Join (map (\<lambda>i. ''(^'' @ wildcardToRegexp i @ ''$)'') elements) ''|''"

definition modifyAlgorithmList :: "string list \<Rightarrow> string \<Rightarrow> string list result" where
  "modifyAlgorithmList baseList spec =
     (if spec = [] then Inr baseList
      else let op = hd spec; isOp = (op = CHR ''+'' \<or> op = CHR ''-'' \<or> op = CHR ''^'');
               elements = specElements (if isOp then tl spec else spec) in
        if \<not> isOp then Inr elements
        else if op = CHR ''+'' then Inr (uniqueAlgorithms (baseList @ elements))
        else if op = CHR ''^'' then Inr (uniqueAlgorithms (elements @ baseList))
        else if elements = [] then Inr baseList
        else let expr = removeExpr elements in
          case regexpCompile expr of
            None \<Rightarrow> Inl (''compile regexp ['' @ expr @ ''] failed'')
          | Some re \<Rightarrow> Inr (filter (\<lambda>item. \<not> regexpMatch re item) baseList))"

text \<open>The two lists of the client configuration; \<open>setDefaults\<close> is \<open>SetDefaults\<close> of x/crypto/ssh.\<close>

record algConfig =
  ac_ciphers :: "string list"
  ac_kex :: "string list"

definition getCiphersConfig :: "string \<Rightarrow> (string \<Rightarrow> string) \<Rightarrow> string" where
  "getCiphersConfig cipherSpec getOption = (if cipherSpec \<noteq> [] then cipherSpec else getOption ''Ciphers'')"

definition getKexAlgorithmsConfig :: "(string \<Rightarrow> string) \<Rightarrow> string" where
  "getKexAlgorithmsConfig getOption = getOption ''KexAlgorithms''"

definition setupAlgorithmsConfig ::
  "(algConfig \<Rightarrow> algConfig) \<Rightarrow> bool \<Rightarrow> string \<Rightarrow> (string \<Rightarrow> string) \<Rightarrow> algConfig \<Rightarrow> algConfig result" where
  "setupAlgorithmsConfig setDefaults debugging cipherArg getOption config =
     (let cipherSpec = getCiphersConfig cipherArg getOption; kexSpec = getKexAlgorithmsConfig getOption;
          refresh = (\<lambda>c. if debugging then setDefaults c else c) in
      if cipherSpec = [] \<and> kexSpec = [] then Inr config
      else let c0 = setDefaults config in
        case (if cipherSpec = [] then Inr c0
              else case modifyAlgorithmList (ac_ciphers c0) cipherSpec of
                Inl e \<Rightarrow> Inl (''ciphers config error: '' @ e)
              | Inr l \<Rightarrow> Inr (refresh (c0\<lparr>ac_ciphers := l\<rparr>))) of
          Inl e \<Rightarrow> Inl e
        | Inr c1 \<Rightarrow>
            if kexSpec = [] then Inr c1
            else (case modifyAlgorithmList (ac_kex c1) kexSpec of
                Inl e \<Rightarrow> Inl (''kex config error: '' @ e)
              | Inr l \<Rightarrow> Inr (refresh (c1\<lparr>ac_kex := l\<rparr>))))"

section \<open>The meaning of a wildcard\<close>

fun glob :: "string \<Rightarrow> string \<Rightarrow> bool" where
  "glob [] s = (s = [])"
| "glob (p # ps) [] = (p = CHR ''*'' \<and> glob ps [])"
| "glob (p # ps) (c # s) =
     (if p = CHR ''*'' then glob ps (c # s) \<or> glob (p # ps) s
      else (p = CHR ''?'' \<or> p = c) \<and> glob ps s)"

fun atomOf :: "char \<Rightarrow> re_atom" where
  "atomOf c = (if c = CHR ''*'' then AnyRunes else if c = CHR ''?'' then AnyRune else Lit [c])"

abbreviation singles :: "string \<Rightarrow> string list" where
  "singles s \<equiv> map (\<lambda>c. [c]) s"

lemma runes_ascii: "ascii s \<Longrightarrow> runes s = singles s"
  by (simp add: runes_def range_runes_ascii)

lemma wildcardToRegexp_ascii:
  "ascii p \<Longrightarrow> wildcardToRegexp p = concat (map (\<lambda>c. quoteRune [c]) p)"
  by (simp add: wildcardToRegexp_def runes_ascii comp_def)

lemma quoteRune_ascii: "(of_char c :: nat) < 128 \<Longrightarrow> ascii (quoteRune [c])"
  by (simp add: quoteRune_def)

lemma ascii_wildcard: "ascii p \<Longrightarrow> ascii (wildcardToRegexp p)"
proof (induction p)
  case (Cons c p)
  then show ?case using quoteRune_ascii [of c] by (simp add: wildcardToRegexp_ascii)
qed (simp add: wildcardToRegexp_def runes_def)

lemma parseAtoms_quote:
  "parseAtoms (singles (quoteRune [c]) @ t) =
     map_option (\<lambda>(as, u). (atomOf c # as, u)) (parseAtoms t)"
  if "c = CHR ''?'' \<Longrightarrow> t \<noteq> [] \<and> hd t \<noteq> ''*''"
  using that by (cases t) (auto simp: quoteRune_def)

lemma quote_hd: "ascii p \<Longrightarrow> hd (singles (concat (map (\<lambda>c. quoteRune [c]) p)) @ ''$'' # t) \<noteq> ''*''"
  by (cases p) (auto simp: quoteRune_def)

lemma parseAtoms_wildcard:
  "ascii p \<Longrightarrow> parseAtoms (singles (wildcardToRegexp p) @ ''$'' # t) = Some (map atomOf p, t)"
proof (induction p)
  case (Cons c p)
  let ?r = "singles (concat (map (\<lambda>c. quoteRune [c]) p)) @ ''$'' # t"
  have "parseAtoms ?r = Some (map atomOf p, t)"
    using Cons by (simp add: wildcardToRegexp_ascii)
  moreover have "hd ?r \<noteq> ''*''" using Cons.prems by (intro quote_hd) simp
  ultimately show ?case
    using parseAtoms_quote [of c ?r] Cons.prems by (simp add: wildcardToRegexp_ascii)
qed (simp add: wildcardToRegexp_def runes_def)

lemma matchAtoms_glob:
  assumes "CHR 0x0A \<notin> set s"
  shows "matchAtoms (map atomOf p) (singles s) = glob p s"
  using assms by (induction p s rule: glob.induct) auto

lemma parseAlts_group:
  assumes "ascii p"
  shows "parseAlts (Suc n) (singles (''(^'' @ wildcardToRegexp p @ ''$)'') @ t) =
    (case t of [] \<Rightarrow> Some [map atomOf p]
     | d # t' \<Rightarrow> if d = ''|'' then map_option ((#) (map atomOf p)) (parseAlts n t') else None)"
  using parseAtoms_wildcard [OF assms, of "'')'' # t"] by simp

lemma parseAlts_removeExpr:
  assumes "els \<noteq> []" "\<forall>p\<in>set els. ascii p" "length els \<le> n"
  shows "parseAlts n (singles (removeExpr els)) = Some (map (map atomOf) els)"
  using assms
proof (induction els arbitrary: n)
  case (Cons p els)
  then obtain k where n: "n = Suc k" by (cases n) auto
  show ?case
  proof (cases els)
    case Nil
    then show ?thesis
      using parseAlts_group [of p k "[]"] Cons.prems n by (simp add: removeExpr_def)
  next
    case (Cons q qs)
    have "parseAlts k (singles (removeExpr els)) = Some (map (map atomOf) els)"
      using Cons.IH [of k] Cons Cons.prems n by simp
    then show ?thesis
      using parseAlts_group [of p k "''|'' # singles (removeExpr els)"] Cons Cons.prems n
      by (simp add: removeExpr_def)
  qed
qed simp

lemma ascii_removeExpr: "\<forall>p\<in>set els. ascii p \<Longrightarrow> ascii (removeExpr els)"
proof (induction els)
  case (Cons p els)
  then show ?case by (cases els) (simp_all add: removeExpr_def ascii_wildcard)
qed (simp add: removeExpr_def)

lemma length_removeExpr: "length els \<le> length (removeExpr els)"
proof (induction els)
  case (Cons p els)
  then show ?case by (cases els) (simp_all add: removeExpr_def)
qed simp

lemma regexpCompile_removeExpr:
  "els \<noteq> [] \<Longrightarrow> \<forall>p\<in>set els. ascii p \<Longrightarrow> regexpCompile (removeExpr els) = Some (map (map atomOf) els)"
  using length_removeExpr [of els]
  by (simp add: regexpCompile_def runes_ascii ascii_removeExpr parseAlts_removeExpr)

lemma set_TrimLeftSpace: "set (TrimLeftSpace s) \<subseteq> set s"
proof (induction s rule: TrimLeftSpace.induct)
  case (1 s)
  then show ?case
    by (subst TrimLeftSpace.simps) (auto split: option.splits dest: in_set_dropD)
qed

lemma set_TrimRightSpace: "set (TrimRightSpace s) \<subseteq> set s"
proof (induction s rule: TrimRightSpace.induct)
  case (1 s)
  then show ?case
    by (subst TrimRightSpace.simps) (auto split: option.splits dest: in_set_takeD)
qed

lemma set_Split: "x \<in> set (Split s c) \<Longrightarrow> set x \<subseteq> set s"
proof (induction s arbitrary: x)
  case (Cons a s)
  then show ?case by (cases "Split s c") (fastforce split: if_splits)+
qed simp

lemma specElements_ascii: "ascii s \<Longrightarrow> p \<in> set (specElements s) \<Longrightarrow> ascii p"
  using set_Split set_TrimLeftSpace set_TrimRightSpace
  by (fastforce simp: specElements_def TrimSpace_def ascii_def)

lemma remdups_snoc: "remdups (ys @ [e]) = remdups (filter (\<lambda>x. x \<noteq> e) ys) @ [e]"
  by (induction ys) auto

lemma uniqueLoop_eq: "uniqueLoop keys xs = rev (remdups (rev (filter (\<lambda>x. x \<notin> keys) xs)))"
proof (induction xs arbitrary: keys)
  case (Cons x xs)
  have "(\<lambda>y. y \<noteq> x \<and> y \<notin> keys) = (\<lambda>y. y \<notin> keys \<and> y \<noteq> x)" by auto
  then show ?case
    using Cons by (simp add: remdups_snoc rev_filter)
qed simp

section \<open>Properties\<close>

text \<open>What the operators mean: the first occurrence of every entry stays, and removal is by wildcard.\<close>

definition firsts :: "string list \<Rightarrow> string list" where
  "firsts xs = rev (remdups (rev xs))"

definition modifySpec :: "string list \<Rightarrow> string \<Rightarrow> string list" where
  "modifySpec base spec =
     (case spec of [] \<Rightarrow> base
      | c # l \<Rightarrow>
          if c = CHR ''+'' then firsts (base @ specElements l)
          else if c = CHR ''^'' then firsts (specElements l @ base)
          else if c = CHR ''-'' then filter (\<lambda>a. \<not> (\<exists>p\<in>set (specElements l). glob p a)) base
          else specElements spec)"

text \<open>C25: the algorithm lists are modified as the operators say.  The regular expression that the removal
  builds is always valid and matches exactly the names that one of the wildcards matches, so no
  specification is an error; \<open>+\<close> and \<open>^\<close> keep the first occurrence of every name in order.\<close>

theorem modifyAlgorithmList_meaning:
  assumes "ascii spec" and "\<forall>a\<in>set base. ascii a \<and> CHR 0x0A \<notin> set a"
  shows "modifyAlgorithmList base spec = Inr (modifySpec base spec)"
proof (cases spec)
  case (Cons c l)
  let ?els = "specElements l"
  have els: "\<forall>p\<in>set ?els. ascii p" using assms(1) Cons specElements_ascii by auto
  have "regexpMatch (map (map atomOf) ?els) a = (\<exists>p\<in>set ?els. glob p a)" if "a \<in> set base" for a
    using assms(2) that by (auto simp: regexpMatch_def list_ex_iff runes_ascii matchAtoms_glob)
  then have "filter (\<lambda>a. \<not> regexpMatch (map (map atomOf) ?els) a) base =
      filter (\<lambda>a. \<not> (\<exists>p\<in>set ?els. glob p a)) base"
    by (intro filter_cong) auto
  with Cons els show ?thesis
    by (auto simp: modifyAlgorithmList_def modifySpec_def Let_def regexpCompile_removeExpr
        uniqueAlgorithms_def uniqueLoop_eq firsts_def)
qed (simp add: modifyAlgorithmList_def modifySpec_def)

theorem modifyAlgorithmList_meaning_witness:
  "modifyAlgorithmList [''aes-cbc'', ''chacha''] ''-*-cbc'' = Inr (modifySpec [''aes-cbc'', ''chacha''] ''-*-cbc'')"
  by (rule modifyAlgorithmList_meaning) simp_all

end
