(* ===== verification/Args.thy ===== *)
theory Args
  imports Forward Algos
begin

text \<open>
  The option values of the command line in \<open>tssh/args.go\<close> (\<open>-o key=value\<close> and the repeatable
  arguments) and the terminal input loop of \<open>tssh/stdio.go\<close> with its escape key.
\<close>

section \<open>Options\<close>

text \<open>The options by lower-case key, each with its values in the order given.\<close>

type_synonym sshOption = "string \<Rightarrow> string list"

definition isBlank :: "char \<Rightarrow> bool" where
  "isBlank c \<longleftrightarrow> c = CHR '' '' \<or> c = CHR 0x09"

definition optionPos :: "string \<Rightarrow> nat option" where
  "optionPos s =
     (case IndexByte s (CHR ''='') of
        Some pos \<Rightarrow>
          (case IndexAny (TrimRightSet (take pos s) {c. isBlank c}) ['' '' ! 0, CHR 0x09] of
             Some p \<Rightarrow> if p > 0 then Some p else Some pos
           | None \<Rightarrow> Some pos)
      | None \<Rightarrow> IndexAny s ['' '' ! 0, CHR 0x09])"

definition sshOption_UnmarshalText :: "string \<Rightarrow> sshOption \<Rightarrow> sshOption result" where
  "sshOption_UnmarshalText b opts =
     (let s = TrimSpace b; invalid = Inl (''invalid option: '' @ s) in
      case optionPos s of None \<Rightarrow> invalid
      | Some pos \<Rightarrow>
          let key = TrimSpace (take pos s); v = TrimSpace (drop (pos + 1) s) in
          if key = [] \<or> v = [] then invalid
          else Inr (opts(ToLower key := opts (ToLower key) @ [v])))"

definition sshOption_get :: "sshOption \<Rightarrow> string \<Rightarrow> string" where
  "sshOption_get opts opt = (case opts (ToLower opt) of [] \<Rightarrow> [] | v # _ \<Rightarrow> v)"

definition sshOption_getAll :: "sshOption \<Rightarrow> string \<Rightarrow> string list" where
  "sshOption_getAll opts opt = opts (ToLower opt)"

definition multiStr_UnmarshalText :: "string \<Rightarrow> string list \<Rightarrow> string list" where
  "multiStr_UnmarshalText b vs = vs @ [b]"

definition bindArgs_UnmarshalText :: "string \<Rightarrow> bindCfg list \<Rightarrow> bindCfg list result" where
  "bindArgs_UnmarshalText b bs = (case parseBindCfg b of Inl e \<Rightarrow> Inl e | Inr c \<Rightarrow> Inr (bs @ [c]))"

definition forwardArgs_UnmarshalText :: "string \<Rightarrow> forwardCfg list \<Rightarrow> forwardCfg list result" where
  "forwardArgs_UnmarshalText b fs = (case parseForwardArg b of Inl e \<Rightarrow> Inl e | Inr c \<Rightarrow> Inr (fs @ [c]))"

section \<open>The escape key\<close>

definition console_keys :: string where
  "console_keys = ''jkq.BCRVv#&?d''"

text \<open>The escape character and the escape time in seconds, for the values of the two options.\<close>

definition escapeCharOf :: "string \<Rightarrow> char" where
  "escapeCharOf escCh =
     (if length escCh = 2 \<and> escCh ! 0 = CHR ''^'' then
        (let b = escCh ! 1 in
         if b \<in> set ''zZcC'' then CHR ''~''
         else if byte_in 97 122 b then char_of ((of_char b :: nat) - 97 + 1)
         else if byte_in 65 90 b then char_of ((of_char b :: nat) - 65 + 1)
         else CHR ''~'')
      else if length escCh = 1 then
        (let b = escCh ! 0 in
         if b \<in> set console_keys then CHR ''~''
         else if (of_char b :: nat) \<le> 32 \<or> (of_char b :: nat) > 126 then CHR ''~'' else b)
      else CHR ''~'')"

definition getEscapeConfig :: "string \<Rightarrow> string \<Rightarrow> char \<times> nat" where
  "getEscapeConfig escapeTimeOpt escCh =
     (let t = (if escapeTimeOpt = [] then 1
               else case ParseUint escapeTimeOpt 32 of None \<Rightarrow> 1 | Some v \<Rightarrow> v) in
      if escCh = [] then (CHR ''~'', t)
      else if EqualFold escCh ''none'' then (CHR ''~'', 0)
      else (escapeCharOf escCh, t))"

section \<open>Standard input\<close>

text \<open>A read of the terminal: the bytes, the time in nanoseconds, whether it ended the input with
  \<open>io.EOF\<close> or another error, whether a prompt of the debug log takes the input, and whether the
  server's side still takes a write.\<close>

record read_event =
  rd_data :: bytes
  rd_time :: nat
  rd_eof :: bool
  rd_err :: bool
  rd_prompt :: bool
  rd_wok :: bool

text \<open>What the loop does with the bytes: send them to the server, hand them to the prompt, open the console,
  or send the control-Z of a Windows terminal.\<close>

datatype in_act = Forwarded bytes | Prompted bytes | Console | CtrlZ

record in_cfg =
  ic_win :: bool
  ic_tty :: bool
  ic_isTerminal :: bool
  ic_escapeChar :: byte
  ic_escapeNs :: nat
  ic_noStdin :: bool
  ic_debug :: bool

fun crlfToLf :: "bytes \<Rightarrow> bytes" where
  "crlfToLf (a # b # r) = (if a = 13 \<and> b = 10 then 10 # crlfToLf r else a # crlfToLf (b # r))"
| "crlfToLf xs = xs"

definition inputBuf :: "in_cfg \<Rightarrow> bytes \<Rightarrow> bytes" where
  "inputBuf cfg d = (if ic_win cfg \<and> \<not> ic_tty cfg then crlfToLf d else d)"

text \<open>The escape key: whether these bytes open the console, and the time of the last lone carriage return
  (\<open>enterPressedTime\<close> while \<open>enterPressedFlag\<close> is set) afterwards.\<close>

definition escapeCheck :: "in_cfg \<Rightarrow> nat option \<Rightarrow> read_event \<Rightarrow> bool \<times> nat option" where
  "escapeCheck cfg enter e =
     (if ic_escapeNs cfg = 0 then (False, enter)
      else if rd_data e = [13] then (False, Some (rd_time e))
      else case enter of
          Some t \<Rightarrow> if rd_data e = [ic_escapeChar cfg] \<and> rd_time e - t \<le> ic_escapeNs cfg
                    then (True, enter) else (False, None)
        | None \<Rightarrow> (False, None))"

text \<open>The end of one turn of the loop, for a read that returned an error or not.\<close>

definition inputEnd :: "in_cfg \<Rightarrow> read_event \<Rightarrow> in_act list \<times> bool" where
  "inputEnd cfg e =
     (if rd_eof e then
        (if ic_win cfg \<and> ic_isTerminal cfg \<and> ic_tty cfg then ([CtrlZ], True) else ([], False))
      else ([], \<not> rd_err e))"

text \<open>One turn: the escape state, the actions, and whether the loop goes on.\<close>

definition inputStep :: "in_cfg \<Rightarrow> nat option \<Rightarrow> read_event \<Rightarrow> nat option \<times> in_act list \<times> bool" where
  "inputStep cfg enter e =
     (if rd_data e = [] then (enter, inputEnd cfg e)
      else if ic_debug cfg \<and> rd_prompt e then (enter, [Prompted (rd_data e)], True)
      else case escapeCheck cfg enter e of (isEscape, enter') \<Rightarrow>
        if isEscape then (enter', [Console], True)
        else if \<not> rd_wok e then (enter', [], False)
        else (enter', Forwarded (inputBuf cfg (rd_data e)) # fst (inputEnd cfg e), snd (inputEnd cfg e)))"

fun inputLoop :: "in_cfg \<Rightarrow> nat option \<Rightarrow> read_event list \<Rightarrow> in_act list" where
  "inputLoop cfg enter [] = []"
| "inputLoop cfg enter (e # es) =
     (case inputStep cfg enter e of (enter', acts, goes_on) \<Rightarrow>
        acts @ (if goes_on then inputLoop cfg enter' es else []))"

definition forwardInput :: "in_cfg \<Rightarrow> read_event list \<Rightarrow> in_act list" where
  "forwardInput cfg es = (if ic_noStdin cfg then [] else inputLoop cfg None es)"

fun lfToCrlf :: "bytes \<Rightarrow> bytes" where
  "lfToCrlf [] = []"
| "lfToCrlf (b # r) = (if b = 10 then [13, 10] else [b]) @ lfToCrlf r"

text \<open>The output loop: the bytes written for the reads, up to the first failed read or write.\<close>

fun forwardOutput :: "bool \<Rightarrow> bool \<Rightarrow> read_event list \<Rightarrow> bytes" where
  "forwardOutput win tty [] = []"
| "forwardOutput win tty (e # es) =
     (if rd_data e \<noteq> [] \<and> \<not> rd_wok e then []
      else (if win \<and> \<not> tty then lfToCrlf (rd_data e) else rd_data e) @
        (if rd_eof e \<or> rd_err e then [] else forwardOutput win tty es))"

section \<open>Facts\<close>

lemma console_keys_not_default: "CHR ''~'' \<notin> set console_keys"
  by (simp add: console_keys_def)

lemma control_key_safe: "\<forall>b. escapeCharOf [CHR ''^'', b] \<notin> set console_keys \<union> {CHR 0x03, CHR 0x1A}"
  by code_simp

lemma plain_key_safe: "\<forall>b. escapeCharOf [b] \<notin> set console_keys \<union> {CHR 0x03, CHR 0x1A}"
  by code_simp

lemma escapeCharOf_safe: "escapeCharOf escCh \<notin> set console_keys \<union> {CHR 0x03, CHR 0x1A}"
proof -
  have default: "CHR ''~'' \<notin> set console_keys \<union> {CHR 0x03, CHR 0x1A}"
    by (simp add: console_keys_def)
  consider b where "escCh = [CHR ''^'', b]" | b where "escCh = [b]"
    | "escapeCharOf escCh = CHR ''~''"
  proof -
    have "escapeCharOf escCh = CHR ''~''"
      if "\<not> (length escCh = 2 \<and> escCh ! 0 = CHR ''^'')" "length escCh \<noteq> 1"
      using that by (subst escapeCharOf_def) (simp only: if_False One_nat_def)
    moreover have "escCh = [CHR ''^'', escCh ! 1]" if "length escCh = 2" "escCh ! 0 = CHR ''^''"
      using that by (auto simp: numeral_2_eq_2 length_Suc_conv)
    moreover have "\<exists>b. escCh = [b]" if "length escCh = 1"
      using that by (auto simp: length_Suc_conv)
    ultimately show ?thesis using that by blast
  qed
  then show ?thesis
    by cases (use default control_key_safe plain_key_safe in auto)
qed

lemma escapeCheck_char: "fst (escapeCheck cfg enter e) \<Longrightarrow>
    rd_data e = [ic_escapeChar cfg] \<and> ic_escapeChar cfg \<noteq> 13 \<and> ic_escapeNs cfg > 0"
  by (auto simp: escapeCheck_def split: if_splits option.splits)

lemma inputEnd_acts: "fst (inputEnd cfg e) = [] \<or> fst (inputEnd cfg e) = [CtrlZ]"
  by (simp add: inputEnd_def)

lemma inputStep_console:
  assumes "inputStep cfg enter e = (enter', acts, goes_on)" "Console \<in> set acts"
  shows "fst (escapeCheck cfg enter e)"
  using assms inputEnd_acts [of cfg e]
  by (auto simp: inputStep_def split: prod.splits if_splits)

lemma no_console_for_enter:
  "ic_escapeChar cfg = 13 \<Longrightarrow> Console \<notin> set (inputLoop cfg enter es)"
  by (induction cfg enter es rule: inputLoop.induct)
    (auto dest: inputStep_console [OF sym] escapeCheck_char split: prod.splits if_splits)

section \<open>Properties\<close>

text \<open>The first value given for an option is the one that counts, whatever the case of its name, and
  all values are kept in order: adding an option appends its value to the option's list, leaves the
  other options alone and changes \<open>get\<close> only when the option had no value before.\<close>

theorem option_first_wins:
  assumes "sshOption_UnmarshalText b opts = Inr opts'"
  shows "\<exists>key v. v \<noteq> [] \<and> sshOption_getAll opts' key = sshOption_getAll opts key @ [v] \<and>
    sshOption_get opts' key = (if sshOption_getAll opts key = [] then v else sshOption_get opts key) \<and>
    (\<forall>other. ToLower other \<noteq> ToLower key \<longrightarrow> sshOption_getAll opts' other = sshOption_getAll opts other)"
proof -
  obtain key v where kv: "v \<noteq> []" "opts' = opts(ToLower key := opts (ToLower key) @ [v])"
    using assms by (auto simp: sshOption_UnmarshalText_def Let_def split: option.splits if_splits)
  then show ?thesis
    by (intro exI [of _ key] exI [of _ v])
      (auto simp: sshOption_getAll_def sshOption_get_def split: list.splits)
qed

theorem option_first_wins_witness:
  "\<exists>opts' key v. sshOption_UnmarshalText ''Port=22'' (\<lambda>_. []) = Inr opts' \<and> v \<noteq> [] \<and>
     sshOption_getAll opts' key = [v]"
proof -
  have t: "TrimSpace ''Port=22'' = ''Port=22''" "TrimSpace ''Port'' = ''Port''" "TrimSpace ''22'' = ''22''"
    by code_simp+
  then obtain opts' where o: "sshOption_UnmarshalText ''Port=22'' (\<lambda>_. []) = Inr opts'"
    by (simp add: sshOption_UnmarshalText_def optionPos_def IndexAny_def TrimRightSet_def isBlank_def Let_def)
  from option_first_wins [OF this] o show ?thesis by (auto simp: sshOption_getAll_def)
qed

definition forwarded :: "in_act list \<Rightarrow> bytes" where
  "forwarded acts = concat (map (\<lambda>a. case a of Forwarded d \<Rightarrow> d | _ \<Rightarrow> []) acts)"

definition consoles :: "in_act list \<Rightarrow> nat" where
  "consoles acts = length (filter (\<lambda>a. a = Console) acts)"

lemma forwarded_simps [simp]:
  "forwarded [] = []" "forwarded (Forwarded d # as) = d @ forwarded as" "forwarded (Console # as) = forwarded as"
  "consoles [] = 0" "consoles (Forwarded d # as) = consoles as" "consoles (Console # as) = Suc (consoles as)"
  by (simp_all add: forwarded_def consoles_def)

text \<open>A read that does not end the input and goes to the server or the console.\<close>

definition plain_read :: "read_event \<Rightarrow> bool" where
  "plain_read e \<longleftrightarrow> \<not> rd_eof e \<and> \<not> rd_err e \<and> \<not> rd_prompt e \<and> rd_wok e"

lemma inputStep_plain:
  assumes "plain_read e" "\<not> ic_win cfg \<or> ic_tty cfg"
  shows "\<exists>enter' acts. inputStep cfg enter e = (enter', acts, True) \<and>
    (rd_data e = [] \<and> acts = [] \<or> rd_data e = [ic_escapeChar cfg] \<and> ic_escapeNs cfg > 0 \<and> acts = [Console] \<or>
     acts = [Forwarded (rd_data e)])"
  using assms escapeCheck_char [of cfg enter e]
  by (auto simp: plain_read_def inputStep_def inputEnd_def inputBuf_def split: prod.splits)

lemma inputLoop_lossless:
  assumes "\<forall>e\<in>set es. plain_read e" "\<not> ic_win cfg \<or> ic_tty cfg"
  shows "subseq (forwarded (inputLoop cfg enter es)) (concat (map rd_data es)) \<and>
    length (concat (map rd_data es)) =
      length (forwarded (inputLoop cfg enter es)) + consoles (inputLoop cfg enter es) \<and>
    (ic_escapeNs cfg = 0 \<longrightarrow> consoles (inputLoop cfg enter es) = 0)"
  using assms(1)
proof (induction es arbitrary: enter)
  case (Cons e es)
  obtain enter' acts where "inputStep cfg enter e = (enter', acts, True)"
    "rd_data e = [] \<and> acts = [] \<or> rd_data e = [ic_escapeChar cfg] \<and> ic_escapeNs cfg > 0 \<and> acts = [Console] \<or>
     acts = [Forwarded (rd_data e)]"
    using inputStep_plain [of e cfg enter] Cons.prems assms(2) by auto
  then show ?case
    using Cons.IH [of enter'] Cons.prems by (auto intro: list_emb_append_mono)
qed simp



text \<open>An accepted escape character never collides with a key of the console, the interrupt or the suspend
  character.  But \<open>^M\<close> is accepted, and as a lone carriage return is always taken for the enter key, the
  console can then never be opened.\<close>

theorem escape_char_choice:
  "fst (getEscapeConfig t escCh) \<notin> set console_keys \<union> {CHR 0x03, CHR 0x1A} \<and>
   fst (getEscapeConfig [] ''^M'') = CHR 0x0D \<and>
   Console \<notin> set (forwardInput (cfg\<lparr>ic_escapeChar := 13\<rparr>) es)"
proof (intro conjI)
  show "fst (getEscapeConfig t escCh) \<notin> set console_keys \<union> {CHR 0x03, CHR 0x1A}"
    using escapeCharOf_safe [of escCh] by (auto simp: getEscapeConfig_def Let_def console_keys_def)
  show "fst (getEscapeConfig [] ''^M'') = CHR 0x0D" by code_simp
  show "Console \<notin> set (forwardInput (cfg\<lparr>ic_escapeChar := 13\<rparr>) es)"
    by (simp add: forwardInput_def no_console_for_enter)
qed

end
