(* ===== verification/Dns.thy ===== *)
theory Dns
  imports GoNet GoHash
begin

text \<open>
  \<open>tssh/dns.go\<close>: host key fingerprints in DNS (SSHFP) and their DNSSEC validation up to the pinned root
  trust anchors, the queries and the message framing, and the name servers of the system.  The package
  \<open>github.com/miekg/dns\<close> is the record \<open>dns_lib\<close> of its functions; the network of a lookup is a state
  \<open>'w\<close> that every query may change, so nothing is assumed of what it answers.
\<close>

section \<open>Messages\<close>

type_synonym u16 = "16 word"

record rr_hdr =
  Name :: string
  Rrtype :: u16
  Class :: u16

record dnskey_rr =
  key_Hdr :: rr_hdr
  key_Protocol :: byte
  key_Algorithm :: byte
  key_PublicKey :: string

record ds_rr =
  ds_Hdr :: rr_hdr
  ds_KeyTag :: u16
  ds_Algorithm :: byte
  ds_DigestType :: byte
  ds_Digest :: string

record rrsig_rr =
  sig_Hdr :: rr_hdr
  TypeCovered :: u16
  sig_Algorithm :: byte
  sig_KeyTag :: u16
  SignerName :: string
  Inception :: u32
  Expiration :: u32
  Signature :: string

datatype RR =
    SSHFP rr_hdr byte byte string
  | DNSKEY dnskey_rr
  | DS ds_rr
  | RRSIG rrsig_rr
  | OtherRR rr_hdr string

fun Header :: "RR \<Rightarrow> rr_hdr" where
  "Header (SSHFP h _ _ _) = h"
| "Header (DNSKEY k) = key_Hdr k"
| "Header (DS d) = ds_Hdr d"
| "Header (RRSIG s) = sig_Hdr s"
| "Header (OtherRR h _) = h"

record dnsMsg =
  Response :: bool
  Id :: u16
  Opcode :: nat
  Rcode :: nat
  Truncated :: bool
  Question :: "(string \<times> u16 \<times> u16) list"
  Answer :: "RR list"

abbreviation TypeDS :: u16 where "TypeDS \<equiv> 43"
abbreviation TypeSSHFP :: u16 where "TypeSSHFP \<equiv> 44"
abbreviation TypeRRSIG :: u16 where "TypeRRSIG \<equiv> 46"
abbreviation TypeDNSKEY :: u16 where "TypeDNSKEY \<equiv> 48"
abbreviation ClassINET :: u16 where "ClassINET \<equiv> 1"

text \<open>The functions of the DNS package; \<open>PackQuery\<close> is a packed query with the id it drew.\<close>

record dns_lib =
  CanonicalName :: "string \<Rightarrow> string"
  Fqdn :: "string \<Rightarrow> string"
  IsSubDomain :: "string \<Rightarrow> string \<Rightarrow> bool"
  KeyTag :: "dnskey_rr \<Rightarrow> u16"
  ToDS :: "dnskey_rr \<Rightarrow> byte \<Rightarrow> string option"
  Verify :: "rrsig_rr \<Rightarrow> dnskey_rr \<Rightarrow> RR list \<Rightarrow> bool"
  Unpack :: "bytes \<Rightarrow> dnsMsg option"
  PackQuery :: "string \<Rightarrow> u16 \<Rightarrow> (bytes \<times> u16) result"

text \<open>A public key: its type name and its wire encoding.\<close>

record pubKey =
  pk_Type :: string
  pk_blob :: bytes

section \<open>Fingerprints\<close>

record sshfpRecord =
  algorithm :: byte
  fpType :: byte
  fingerprint :: bytes

abbreviation sshfpTypeSHA1 :: byte where "sshfpTypeSHA1 \<equiv> 1"
abbreviation sshfpTypeSHA256 :: byte where "sshfpTypeSHA256 \<equiv> 2"

definition sshfpAlgorithm :: "string \<Rightarrow> byte" where
  "sshfpAlgorithm keyType =
     (if keyType \<in> {''ssh-rsa'', ''rsa-sha2-256'', ''rsa-sha2-512''} then 1
      else if keyType \<in> {''ecdsa-sha2-nistp256'', ''ecdsa-sha2-nistp384'', ''ecdsa-sha2-nistp521''} then 3
      else if keyType = ''ssh-ed25519'' then 4 else 0)"

definition matchRecord :: "byte \<Rightarrow> bytes \<Rightarrow> bytes \<Rightarrow> sshfpRecord \<Rightarrow> bool" where
  "matchRecord alg sha1Sum sha256Sum r \<longleftrightarrow> algorithm r = alg \<and>
     (fpType r = sshfpTypeSHA1 \<and> fingerprint r = sha1Sum \<or>
      fpType r = sshfpTypeSHA256 \<and> fingerprint r = sha256Sum)"

definition matchSSHFP :: "sshfpRecord list \<Rightarrow> pubKey \<Rightarrow> bool" where
  "matchSSHFP records key =
     (let alg = sshfpAlgorithm (pk_Type key); blob = pk_blob key in
      alg \<noteq> 0 \<and> list_ex (matchRecord alg (sha1_Sum blob) (sha256_Sum blob)) records)"

fun parseSSHFP :: "RR list \<Rightarrow> string \<Rightarrow> sshfpRecord list" where
  "parseSSHFP [] expected = []"
| "parseSSHFP (SSHFP h alg typ fp # answers) expected =
     (if EqualFold (Name h) expected then
        (case hex_decode fp of
           None \<Rightarrow> parseSSHFP answers expected
         | Some d \<Rightarrow> \<lparr>algorithm = alg, fpType = typ, fingerprint = d\<rparr> # parseSSHFP answers expected)
      else parseSSHFP answers expected)"
| "parseSSHFP (_ # answers) expected = parseSSHFP answers expected"

section \<open>DNSSEC\<close>

definition dnssecRecords :: "dns_lib \<Rightarrow> RR list \<Rightarrow> string \<Rightarrow> u16 \<Rightarrow> RR list" where
  "dnssecRecords lib resources owner rrType =
     filter (\<lambda>r. Rrtype (Header r) = rrType \<and> Class (Header r) = ClassINET \<and>
       CanonicalName lib (Name (Header r)) = CanonicalName lib owner) resources"

definition dnskeyRecords :: "RR list \<Rightarrow> dnskey_rr list" where
  "dnskeyRecords records =
     List.map_filter (\<lambda>r. case r of DNSKEY k \<Rightarrow> if key_Protocol k = 3 then Some k else None | _ \<Rightarrow> None) records"

definition dsRecords :: "RR list \<Rightarrow> ds_rr list" where
  "dsRecords records = List.map_filter (\<lambda>r. case r of DS d \<Rightarrow> Some d | _ \<Rightarrow> None) records"

definition rrsigRecords :: "dns_lib \<Rightarrow> RR list \<Rightarrow> string \<Rightarrow> u16 \<Rightarrow> rrsig_rr list" where
  "rrsigRecords lib resources owner covered =
     List.map_filter (\<lambda>r. case r of RRSIG s \<Rightarrow> if TypeCovered s = covered then Some s else None | _ \<Rightarrow> None)
       (dnssecRecords lib resources owner TypeRRSIG)"

definition verifyRRSet :: "dns_lib \<Rightarrow> u32 \<Rightarrow> RR list \<Rightarrow> rrsig_rr \<Rightarrow> dnskey_rr list \<Rightarrow> unit result" where
  "verifyRRSet lib now records sg keys =
     (if records = [] then Inl ''empty RRset''
      else if now < Inception sg \<or> now > Expiration sg then Inl ''RRSIG validity period check failed''
      else if list_ex (\<lambda>key. key_Algorithm key = sig_Algorithm sg \<and> KeyTag lib key = sig_KeyTag sg \<and>
                EqualFold (Name (key_Hdr key)) (SignerName sg) \<and> Verify lib sg key records) keys
      then Inr () else Inl ''no DNSKEY verified RRSIG'')"

definition dnskeyMatchesAnyDS :: "dns_lib \<Rightarrow> dnskey_rr \<Rightarrow> ds_rr list \<Rightarrow> bool" where
  "dnskeyMatchesAnyDS lib key records =
     list_ex (\<lambda>ds. KeyTag lib key = ds_KeyTag ds \<and> key_Algorithm key = ds_Algorithm ds \<and>
       (case ToDS lib key (ds_DigestType ds) of None \<Rightarrow> False
        | Some digest \<Rightarrow> EqualFold digest (ds_Digest ds))) records"

definition parentDNSName :: "dns_lib \<Rightarrow> string \<Rightarrow> string" where
  "parentDNSName lib name0 =
     (let name = TrimSuffix (CanonicalName lib name0) ''.'' in
      if name = [] then ''.''
      else let parts = Split name (CHR ''.'') in
        if length parts \<le> 1 then ''.'' else Join (drop 1 parts) ''.'' @ ''.'')"

definition rootHdr :: rr_hdr where
  "rootHdr = \<lparr>Name = ''.'', Rrtype = TypeDS, Class = ClassINET\<rparr>"

definition dnssecRootTrustAnchors :: "ds_rr list" where
  "dnssecRootTrustAnchors =
     [\<lparr>ds_Hdr = rootHdr, ds_KeyTag = 20326, ds_Algorithm = 8, ds_DigestType = 2,
       ds_Digest = ''e06d44b80b8f1d39a95c0b0d7c65d08458e880409bbc683457104237c7f8ec8d''\<rparr>,
      \<lparr>ds_Hdr = rootHdr, ds_KeyTag = 38696, ds_Algorithm = 8, ds_DigestType = 2,
       ds_Digest = ''683d2d0acb8c9b712a1948b27f741219298d0a450d612c483af444a4c0fb2b16''\<rparr>]"

text \<open>A lookup on the network, \<open>lookupDNSSEC\<close>.\<close>

type_synonym 'w lookup = "'w \<Rightarrow> string \<Rightarrow> u16 \<Rightarrow> dnsMsg result \<times> 'w"

text \<open>The cache of validated keys, \<open>dnskeyCache\<close>.\<close>

type_synonym dnskeyCache = "string \<Rightarrow> dnskey_rr list option"

text \<open>The DS records of a zone, if one of their signatures verifies with the keys of the parent.\<close>

definition validatedDS :: "dns_lib \<Rightarrow> u32 \<Rightarrow> dnsMsg \<Rightarrow> string \<Rightarrow> dnskey_rr list \<Rightarrow> ds_rr list" where
  "validatedDS lib now dsResponse zone parentKeys =
     (let dsRRSet = dnssecRecords lib (Answer dsResponse) zone TypeDS in
      case find (\<lambda>s. verifyRRSet lib now dsRRSet s parentKeys = Inr ())
             (rrsigRecords lib (Answer dsResponse) zone TypeDS) of
        None \<Rightarrow> []
      | Some _ \<Rightarrow> dsRecords dsRRSet)"

text \<open>Some key is vouched for by the trusted DS records and signs the set of keys.\<close>

definition selfSigned :: "dns_lib \<Rightarrow> u32 \<Rightarrow> RR list \<Rightarrow> dnskey_rr list \<Rightarrow> rrsig_rr list \<Rightarrow> ds_rr list \<Rightarrow> bool" where
  "selfSigned lib now rrset keys sigs trustedDS =
     list_ex (\<lambda>key. dnskeyMatchesAnyDS lib key trustedDS \<and>
       list_ex (\<lambda>s. verifyRRSet lib now rrset s [key] = Inr ()) sigs) keys"

text \<open>\<open>validateDNSKEY\<close> follows the parents of a zone up to the root; the first argument bounds the number of
  zones, and \<^term>\<open>None\<close> means that the bound was too small.\<close>

fun validateDNSKEY :: "nat \<Rightarrow> dns_lib \<Rightarrow> u32 \<Rightarrow> 'w lookup \<Rightarrow> dnskeyCache \<Rightarrow> 'w \<Rightarrow> string
    \<Rightarrow> (dnskey_rr list result \<times> dnskeyCache \<times> 'w) option" where
  "validateDNSKEY 0 lib now lookup cache w zone0 = None"
| "validateDNSKEY (Suc n) lib now lookup cache w zone0 =
     (let zone = CanonicalName lib zone0 in
      case cache zone of Some keys \<Rightarrow> Some (Inr keys, cache, w)
      | None \<Rightarrow>
        (case lookup w zone TypeDNSKEY of
           (Inl e, w1) \<Rightarrow> Some (Inl e, cache, w1)
         | (Inr response, w1) \<Rightarrow>
             let rrset = dnssecRecords lib (Answer response) zone TypeDNSKEY;
                 keys = dnskeyRecords rrset;
                 sigs = rrsigRecords lib (Answer response) zone TypeDNSKEY in
             if keys = [] then Some (Inl (''no DNSKEY records for zone '' @ zone), cache, w1)
             else if sigs = [] then Some (Inl (''no DNSKEY RRSIG records for zone '' @ zone), cache, w1)
             else
               (case (if zone = ''.'' then Some (Inr dnssecRootTrustAnchors, cache, w1)
                      else case validateDNSKEY n lib now lookup cache w1 (parentDNSName lib zone) of
                          None \<Rightarrow> None
                        | Some (Inl e, cache', w2) \<Rightarrow> Some (Inl e, cache', w2)
                        | Some (Inr parentKeys, cache', w2) \<Rightarrow>
                            (case lookup w2 zone TypeDS of
                               (Inl e, w3) \<Rightarrow> Some (Inl e, cache', w3)
                             | (Inr dsResponse, w3) \<Rightarrow>
                                 let ds = validatedDS lib now dsResponse zone parentKeys in
                                 if ds = [] then Some (Inl (''no validated DS records for zone '' @ zone), cache', w3)
                                 else Some (Inr ds, cache', w3))) of
                  None \<Rightarrow> None
                | Some (Inl e, cache', w') \<Rightarrow> Some (Inl e, cache', w')
                | Some (Inr trustedDS, cache', w') \<Rightarrow>
                    if selfSigned lib now rrset keys sigs trustedDS
                    then Some (Inr keys, cache'(zone \<mapsto> keys), w')
                    else Some (Inl (''DNSKEY RRset did not validate to trust anchor: '' @ zone), cache', w'))))"

text \<open>The loop of \<open>validateSSHFPDNSSEC\<close> over the signatures.\<close>

fun validateSigs :: "nat \<Rightarrow> dns_lib \<Rightarrow> u32 \<Rightarrow> 'w lookup \<Rightarrow> dnskeyCache \<Rightarrow> 'w \<Rightarrow> RR list \<Rightarrow> string
    \<Rightarrow> rrsig_rr list \<Rightarrow> (bool \<times> 'w) option" where
  "validateSigs n lib now lookup cache w rrset owner [] = Some (False, w)"
| "validateSigs n lib now lookup cache w rrset owner (s # sigs) =
     (if \<not> IsSubDomain lib (SignerName s) owner then validateSigs n lib now lookup cache w rrset owner sigs
      else case validateDNSKEY n lib now lookup cache w (SignerName s) of
          None \<Rightarrow> None
        | Some (Inl _, cache', w') \<Rightarrow> validateSigs n lib now lookup cache' w' rrset owner sigs
        | Some (Inr keys, cache', w') \<Rightarrow>
            if verifyRRSet lib now rrset s keys = Inr () then Some (True, w')
            else validateSigs n lib now lookup cache' w' rrset owner sigs)"

definition validateSSHFPDNSSEC :: "nat \<Rightarrow> dns_lib \<Rightarrow> u32 \<Rightarrow> 'w lookup \<Rightarrow> 'w \<Rightarrow> dnsMsg \<Rightarrow> string
    \<Rightarrow> (bool \<times> 'w) option" where
  "validateSSHFPDNSSEC n lib now lookup w response owner =
     (let rrset = dnssecRecords lib (Answer response) owner TypeSSHFP;
          sigs = rrsigRecords lib (Answer response) owner TypeSSHFP in
      if rrset = [] \<or> sigs = [] then Some (False, w)
      else validateSigs n lib now lookup Map.empty w rrset owner sigs)"

section \<open>The lookup of a host key\<close>

text \<open>\<open>lookupSSHFP\<close> gives the records and, for the authentication function, the response and the name.\<close>

definition lookupSSHFP :: "dns_lib \<Rightarrow> 'w lookup \<Rightarrow> 'w \<Rightarrow> string
    \<Rightarrow> (sshfpRecord list \<times> dnsMsg \<times> string) result \<times> 'w" where
  "lookupSSHFP lib lookup w host =
     (let name = Fqdn lib host in
      case lookup w name TypeSSHFP of
        (Inl e, w') \<Rightarrow> (Inl e, w')
      | (Inr response, w') \<Rightarrow> (Inr (parseSSHFP (Answer response) name, response, name), w'))"

text \<open>The host name without port, zone and brackets.\<close>

definition sshfpName :: "string \<Rightarrow> string" where
  "sshfpName host =
     (let h = (case SplitHostPort host of Some (h, _) \<Rightarrow> h | None \<Rightarrow> host);
          h = (case LastIndexByte h (CHR ''%'') of Some i \<Rightarrow> take i h | None \<Rightarrow> h) in
      TrimSet h {CHR ''['', CHR '']''})"

record dns_verdict =
  dv_found :: bool
  dv_matched :: bool
  dv_auth :: "(dnsMsg \<times> string) option"

definition verifyHostKeyDNS :: "dns_lib \<Rightarrow> 'w lookup \<Rightarrow> 'w \<Rightarrow> string \<Rightarrow> pubKey \<Rightarrow> dns_verdict result \<times> 'w" where
  "verifyHostKeyDNS lib lookup w host key =
     (let name = sshfpName host in
      if name = [] \<or> ParseIP name then (Inr \<lparr>dv_found = False, dv_matched = False, dv_auth = None\<rparr>, w)
      else case lookupSSHFP lib lookup w name of
          (Inl e, w') \<Rightarrow> (Inl (''SSHFP lookup for '' @ name @ '' failed: '' @ e), w')
        | (Inr (records, response, owner), w') \<Rightarrow>
            (Inr \<lparr>dv_found = records \<noteq> [], dv_matched = matchSSHFP records key,
                  dv_auth = Some (response, owner)\<rparr>, w'))"

end
