(* ===== verification/DnsQuery.thy ===== *)
theory DnsQuery
  imports Dns MuxProto
begin

text \<open>
  The queries of \<open>tssh/dns.go\<close>: the framing of DNS messages on a connection, the acceptance of a response,
  the fallback from UDP to TCP, and the name servers found in the system's configuration.
\<close>

section \<open>Connections\<close>

record dnsServer =
  network :: string
  addr :: string

definition newDnsServer :: "string \<Rightarrow> string \<Rightarrow> dnsServer" where
  "newDnsServer n a = \<lparr>network = n, addr = a\<rparr>"

text \<open>A connection: the result of a write of so many bytes (the bytes written and an error), the datagrams
  that arrive before the deadline, and the byte stream of a TCP connection.\<close>

record dnsConn =
  dc_write :: "bytes \<Rightarrow> nat \<times> go_error option"
  dc_datagrams :: "bytes list"
  dc_stream :: bytes

definition writeResult :: "dnsConn \<Rightarrow> bytes \<Rightarrow> unit result" where
  "writeResult conn msg =
     (case dc_write conn msg of
        (n, Some e) \<Rightarrow> Inl e
      | (n, None) \<Rightarrow> if n \<noteq> length msg then Inl ''short write'' else Inr ())"

definition tcpFrame :: "bytes \<Rightarrow> bytes" where
  "tcpFrame request =
     (let l = of_nat (length request) :: u16 in [ucast (drop_bit 8 l), ucast l] @ request)"

definition writeDNSMessage :: "dnsConn \<Rightarrow> string \<Rightarrow> bytes \<Rightarrow> unit result" where
  "writeDNSMessage conn net request =
     (if net \<noteq> ''tcp'' then writeResult conn request
      else if length request > 65535 then Inl ''dns query too large''
      else writeResult conn (tcpFrame request))"

definition readDNSMessage :: "dnsConn \<Rightarrow> string \<Rightarrow> bytes result \<times> dnsConn" where
  "readDNSMessage conn net =
     (if net \<noteq> ''tcp'' then
        (case dc_datagrams conn of [] \<Rightarrow> (Inl ''i/o timeout'', conn)
         | d # ds \<Rightarrow> (Inr (take 4096 d), conn\<lparr>dc_datagrams := ds\<rparr>))
      else case dc_stream conn of
          a # b # rest \<Rightarrow>
            let n = unat ((ucast a :: u16) * 256 + ucast b) in
            if n = 0 then (Inl ''empty dns response'', conn\<lparr>dc_stream := rest\<rparr>)
            else if length rest < n then (Inl ''unexpected EOF'', conn\<lparr>dc_stream := []\<rparr>)
            else (Inr (take n rest), conn\<lparr>dc_stream := drop n rest\<rparr>)
        | _ \<Rightarrow> (Inl ''unexpected EOF'', conn\<lparr>dc_stream := []\<rparr>))"

section \<open>Queries\<close>

text \<open>What is done with an unpacked message: ignore it, refuse it, or take it.\<close>

definition checkResponse :: "u16 \<Rightarrow> string \<Rightarrow> u16 \<Rightarrow> dnsMsg \<Rightarrow> dnsMsg result option" where
  "checkResponse i name rrType r =
     (if \<not> Response r \<or> Id r \<noteq> i then None
      else if Opcode r \<noteq> 0 \<or> Rcode r \<noteq> 0 then Some (Inl ''unexpected dns response'')
      else case Question r of
          [(qname, qtype, qclass)] \<Rightarrow>
            if qtype \<noteq> rrType \<or> qclass \<noteq> ClassINET \<or> \<not> EqualFold qname name
            then Some (Inl ''dns response question mismatch'') else Some (Inr r)
        | _ \<Rightarrow> Some (Inl ''dns response question mismatch''))"

definition connSize :: "dnsConn \<Rightarrow> nat" where
  "connSize conn = length (dc_datagrams conn) + length (dc_stream conn)"

lemma readDNSMessage_less:
  assumes "readDNSMessage conn net = (Inr buf, conn')"
  shows "connSize conn' < connSize conn"
  using assms by (auto simp: readDNSMessage_def connSize_def Let_def split: if_splits list.splits)

text \<open>The loop of \<open>queryDNSSECServer\<close>: messages are read until one is taken or refused, or reading fails.\<close>

function readResponse :: "dns_lib \<Rightarrow> string \<Rightarrow> u16 \<Rightarrow> string \<Rightarrow> u16 \<Rightarrow> dnsConn \<Rightarrow> dnsMsg result" where
  "readResponse lib net i name rrType conn =
     (case readDNSMessage conn net of
        (Inl e, _) \<Rightarrow> Inl e
      | (Inr buf, conn') \<Rightarrow>
          (case Unpack lib buf of
             None \<Rightarrow> readResponse lib net i name rrType conn'
           | Some r \<Rightarrow>
               (case checkResponse i name rrType r of
                  None \<Rightarrow> readResponse lib net i name rrType conn'
                | Some res \<Rightarrow> res)))"
  by pat_completeness auto
termination
  by (relation "measure (\<lambda>(_, _, _, _, _, conn). connSize conn)") (auto dest: readDNSMessage_less [OF sym])

declare readResponse.simps [simp del]

definition queryDNSSECServer :: "dns_lib \<Rightarrow> (dnsServer \<Rightarrow> dnsConn result) \<Rightarrow> dnsServer \<Rightarrow> bytes \<Rightarrow> u16 \<Rightarrow> string \<Rightarrow> u16
    \<Rightarrow> dnsMsg result" where
  "queryDNSSECServer lib dial server request i name rrType =
     (case dial server of Inl e \<Rightarrow> Inl e
      | Inr conn \<Rightarrow>
          (case writeDNSMessage conn (network server) request of Inl e \<Rightarrow> Inl e
           | Inr _ \<Rightarrow> readResponse lib (network server) i name rrType conn))"

fun queryServers :: "dns_lib \<Rightarrow> (dnsServer \<Rightarrow> dnsConn result) \<Rightarrow> bytes \<Rightarrow> u16 \<Rightarrow> string \<Rightarrow> u16 \<Rightarrow> go_error \<Rightarrow> dnsServer list
    \<Rightarrow> dnsMsg result" where
  "queryServers lib dial request i name rrType lastErr [] = Inl lastErr"
| "queryServers lib dial request i name rrType lastErr (server # servers) =
     (case queryDNSSECServer lib dial server request i name rrType of
        Inl e \<Rightarrow> queryServers lib dial request i name rrType e servers
      | Inr response \<Rightarrow>
          if Truncated response \<and> network server = ''udp'' then
            (case queryDNSSECServer lib dial (server\<lparr>network := ''tcp''\<rparr>) request i name rrType of
               Inr tcpResponse \<Rightarrow> Inr tcpResponse
             | Inl _ \<Rightarrow> Inr response)
          else Inr response)"

definition queryDNSSEC :: "dns_lib \<Rightarrow> (dnsServer \<Rightarrow> dnsConn result) \<Rightarrow> dnsServer list \<Rightarrow> string \<Rightarrow> u16 \<Rightarrow> dnsMsg result" where
  "queryDNSSEC lib dial servers host rrType =
     (if servers = [] then Inl ''no dns server available for DNSSEC lookup''
      else let name = Fqdn lib host in
        case PackQuery lib name rrType of Inl e \<Rightarrow> Inl e
        | Inr (request, i) \<Rightarrow> queryServers lib dial request i name rrType [] servers)"

definition lookupDnsSrv :: "(string \<times> nat) list result \<Rightarrow> (string \<times> string) result" where
  "lookupDnsSrv res =
     (case res of Inl e \<Rightarrow> Inl e
      | Inr [] \<Rightarrow> Inl ''no srv record''
      | Inr ((target, port) # _) \<Rightarrow> Inr (TrimRightSet target {CHR ''.''}, utoa port))"

section \<open>Name servers\<close>

text \<open>The servers found so far; \<open>seen\<close> is the set of their addresses.\<close>

definition appendDnsServer :: "dnsServer list \<times> string set \<Rightarrow> string \<Rightarrow> dnsServer list \<times> string set" where
  "appendDnsServer st host0 =
     (case st of (servers, seen) \<Rightarrow>
      let h = TrimRightSet (TrimSet (TrimSet (TrimSpace host0) {CHR ''['', CHR '']''}) {CHR '','', CHR '';''}) {CHR ''.''} in
      if h = [] then st
      else let host = (case SplitHostPort h of Some (h', _) \<Rightarrow> h' | None \<Rightarrow> h) in
        if \<not> ParseAddr host then st
        else let a = JoinHostPort host ''53'' in
          if a \<in> seen then st else (servers @ [newDnsServer ''udp'' a], insert a seen))"

definition resolvConfLine :: "dnsServer list \<times> string set \<Rightarrow> string \<Rightarrow> dnsServer list \<times> string set" where
  "resolvConfLine st line0 =
     (let line = TrimSpace line0 in
      if \<not> HasPrefix line ''nameserver'' then st
      else case Fields line of _ # f # _ \<Rightarrow> appendDnsServer st f | _ \<Rightarrow> st)"

definition parseResolvConfDnsServers :: "string \<Rightarrow> dnsServer list" where
  "parseResolvConfDnsServers data = fst (foldl resolvConfLine ([], {}) (Split data (CHR 0x0A)))"

definition scutilLine :: "dnsServer list \<times> string set \<Rightarrow> string \<Rightarrow> dnsServer list \<times> string set" where
  "scutilLine st line0 =
     (let line = TrimSpace line0 in
      if \<not> HasPrefix line ''nameserver['' then st
      else case Cut line (CHR '':'') of Some (_, after) \<Rightarrow> appendDnsServer st after | None \<Rightarrow> st)"

definition parseScutilDnsServers :: "string \<Rightarrow> dnsServer list" where
  "parseScutilDnsServers data = fst (foldl scutilLine ([], {}) (Split data (CHR 0x0A)))"

text \<open>The operating system, with what \<open>/etc/resolv.conf\<close>, \<open>scutil\<close> and the Windows adapters give.\<close>

record dns_system =
  ds_GOOS :: string
  ds_resolvConf :: "string option"
  ds_scutil :: "string option"
  ds_adapters :: "dnsServer list"

definition darwinDnsServers :: "dns_system \<Rightarrow> dnsServer list" where
  "darwinDnsServers sys = (case ds_scutil sys of None \<Rightarrow> [] | Some d \<Rightarrow> parseScutilDnsServers d)"

definition resolvConfDnsServers :: "dns_system \<Rightarrow> dnsServer list" where
  "resolvConfDnsServers sys = (case ds_resolvConf sys of None \<Rightarrow> [] | Some d \<Rightarrow> parseResolvConfDnsServers d)"

definition systemDnsServers :: "dns_system \<Rightarrow> dnsServer list" where
  "systemDnsServers sys =
     (if ds_GOOS sys = ''darwin'' \<and> darwinDnsServers sys \<noteq> [] then darwinDnsServers sys
      else if ds_GOOS sys = ''windows'' then ds_adapters sys
      else resolvConfDnsServers sys)"

definition dnsServers :: "dns_system \<Rightarrow> dnsServer \<Rightarrow> dnsServer list" where
  "dnsServers sys custom = (if addr custom \<noteq> [] then [custom] else systemDnsServers sys)"

section \<open>Properties\<close>

lemma checkResponse_ok:
  "checkResponse i name rrType r = Some (Inr r') \<Longrightarrow> r' = r \<and> Response r \<and> Id r = i \<and> Opcode r = 0 \<and> Rcode r = 0 \<and>
     (\<exists>qname. Question r = [(qname, rrType, ClassINET)] \<and> EqualFold qname name)"
  by (auto simp: checkResponse_def split: if_splits list.splits prod.splits)

lemma readResponse_ok:
  "readResponse lib net i name rrType conn = Inr r \<Longrightarrow> checkResponse i name rrType r = Some (Inr r)"
proof (induction lib net i name rrType conn rule: readResponse.induct)
  case (1 lib net i name rrType conn)
  from 1(3) show ?case
    by (subst (asm) readResponse.simps)
      (auto split: prod.splits sum.splits option.splits dest: checkResponse_ok 1(1) [OF sym] 1(2) [OF sym])
qed

lemma queryDNSSECServer_ok:
  "queryDNSSECServer lib dial server request i name rrType = Inr r \<Longrightarrow> checkResponse i name rrType r = Some (Inr r)"
  by (auto simp: queryDNSSECServer_def split: sum.splits dest: readResponse_ok)

lemma queryServers_ok:
  "queryServers lib dial request i name rrType lastErr servers = Inr r \<Longrightarrow> checkResponse i name rrType r = Some (Inr r)"
  by (induction servers arbitrary: lastErr)
    (auto split: sum.splits if_splits dest: queryDNSSECServer_ok)

text \<open>C13: a DNS response is used only when it answers the query: it is a successful response with the id of the
  query, and its single question is the queried name (in any letter case), type and class, whichever
  server, transport and number of stray packets it took.\<close>

theorem queryDNSSEC_answers_query:
  assumes "queryDNSSEC lib dial servers host rrType = Inr r"
  shows "\<exists>request qname. PackQuery lib (Fqdn lib host) rrType = Inr (request, Id r) \<and> Response r \<and>
    Opcode r = 0 \<and> Rcode r = 0 \<and> Question r = [(qname, rrType, ClassINET)] \<and> EqualFold qname (Fqdn lib host)"
  using assms
  by (auto simp: queryDNSSEC_def Let_def split: if_splits sum.splits prod.splits dest!: queryServers_ok checkResponse_ok)

definition demo_query_lib :: dns_lib where
  "demo_query_lib = \<lparr>CanonicalName = (\<lambda>s. s), Fqdn = (\<lambda>s. s @ ''.''), IsSubDomain = (\<lambda>_ _. True), KeyTag = (\<lambda>_. 0),
     ToDS = (\<lambda>_ _. None), Verify = (\<lambda>_ _ _. True),
     Unpack = (\<lambda>b. case b of [] \<Rightarrow> None
       | x # _ \<Rightarrow> Some \<lparr>Response = True, Id = ucast x, Opcode = 0, Rcode = 0, Truncated = False,
           Question = [(''h.'', TypeSSHFP, ClassINET)], Answer = []\<rparr>),
     PackQuery = (\<lambda>_ _. Inr ([1, 2], 7))\<rparr>"

text \<open>A server that first sends an empty datagram and one with another id.\<close>

definition demo_query :: "dnsMsg result" where
  "demo_query = queryDNSSEC demo_query_lib
     (\<lambda>_. Inr \<lparr>dc_write = (\<lambda>b. (length b, None)), dc_datagrams = [[], [3], [7]], dc_stream = []\<rparr>)
     [\<lparr>network = ''udp'', addr = ''192.0.2.1:53''\<rparr>] ''h'' TypeSSHFP"

theorem queryDNSSEC_answers_query_witness: "\<exists>r. demo_query = Inr r \<and> Response r \<and> Id r = 7"
proof -
  have "\<exists>r. demo_query = Inr r"
    by (simp add: demo_query_def queryDNSSEC_def demo_query_lib_def queryDNSSECServer_def writeDNSMessage_def
        writeResult_def readResponse.simps readDNSMessage_def checkResponse_def EqualFold_def)
  then obtain r where r: "demo_query = Inr r" by blast
  then show ?thesis
    using queryDNSSEC_answers_query [OF r [unfolded demo_query_def]] by (auto simp: demo_query_lib_def)
qed

lemma u16_bytes: "(ucast (ucast (drop_bit 8 l) :: byte) :: u16) * 256 + ucast (ucast l :: byte) = l" for l :: u16
proof -
  have m: "(ucast (ucast (drop_bit 8 l) :: byte) :: u16) * 256 = push_bit 8 (ucast (ucast (drop_bit 8 l) :: byte))"
    by (simp add: push_bit_eq_mult)
  have d: "push_bit 8 (ucast (ucast (drop_bit 8 l) :: byte) :: u16) AND ucast (ucast l :: byte) = 0"
    by (rule bit_word_eqI) (auto simp: bit_simps)
  show ?thesis
    unfolding m disjunctive_add_eq_or [OF d] by (rule bit_word_eqI) (auto simp: bit_simps)
qed

text \<open>A DNS message written on a TCP connection is read back exactly by the other side, with the rest of the
  stream untouched, when it has between 1 and 65535 bytes.\<close>

theorem tcp_message_roundtrip:
  assumes "request \<noteq> []" "writeDNSMessage conn ''tcp'' request = Inr ()"
  shows "readDNSMessage (peer\<lparr>dc_stream := tcpFrame request @ rest\<rparr>) ''tcp'' = (Inr request, peer\<lparr>dc_stream := rest\<rparr>)"
proof -
  have len: "length request < 65536"
    using assms(2) by (auto simp: writeDNSMessage_def split: if_splits)
  then have "unat (of_nat (length request) :: u16) = length request"
    by (simp add: unat_of_nat take_bit_nat_eq_self_iff)
  then show ?thesis
    using assms(1) by (simp add: readDNSMessage_def tcpFrame_def Let_def u16_bytes)
qed

theorem tcp_message_roundtrip_witness:
  "readDNSMessage \<lparr>dc_write = (\<lambda>b. (length b, None)), dc_datagrams = [], dc_stream = tcpFrame [5, 6, 7] @ [1]\<rparr> ''tcp'' =
     (Inr [5, 6, 7], \<lparr>dc_write = (\<lambda>b. (length b, None)), dc_datagrams = [], dc_stream = [1]\<rparr>)"
  using tcp_message_roundtrip [of "[5, 6, 7]" "\<lparr>dc_write = (\<lambda>b. (length b, None)), dc_datagrams = [], dc_stream = []\<rparr>"
      "[1]" "\<lparr>dc_write = (\<lambda>b. (length b, None)), dc_datagrams = [], dc_stream = []\<rparr>"]
  by (simp add: writeDNSMessage_def writeResult_def)

text \<open>The invariant of the list of servers: \<open>seen\<close> is the set of addresses, without repetition, each an IP
  address with port 53 on UDP.\<close>

definition servers_ok :: "dnsServer list \<times> string set \<Rightarrow> bool" where
  "servers_ok st \<longleftrightarrow> (case st of (servers, seen) \<Rightarrow> distinct (map addr servers) \<and> set (map addr servers) = seen \<and>
     list_all (\<lambda>s. network s = ''udp'' \<and> (\<exists>host. ParseAddr host \<and> addr s = JoinHostPort host ''53'')) servers)"

lemma appendDnsServer_ok: "servers_ok st \<Longrightarrow> servers_ok (appendDnsServer st host)"
  by (auto simp: servers_ok_def appendDnsServer_def newDnsServer_def Let_def split: prod.splits)

text \<open>A parser of name server lists goes through the lines of a text and may add a server for each.\<close>

locale server_lines =
  fixes step :: "dnsServer list \<times> string set \<Rightarrow> string \<Rightarrow> dnsServer list \<times> string set"
  assumes step_ok: "servers_ok st \<Longrightarrow> servers_ok (step st line)"
begin

lemma scan_ok: "servers_ok st \<Longrightarrow> servers_ok (foldl step st ls)"
  by (induction ls arbitrary: st) (simp_all add: step_ok del: split_paired_All)

lemma scan_distinct: "distinct (map addr (fst (foldl step ([], {}) ls)))"
  using scan_ok [of "([], {})" ls] by (auto simp: servers_ok_def split: prod.splits)

lemma scan_addresses:
  "s \<in> set (fst (foldl step ([], {}) ls)) \<Longrightarrow>
     network s = ''udp'' \<and> (\<exists>host. ParseAddr host \<and> addr s = JoinHostPort host ''53'')"
  using scan_ok [of "([], {})" ls] by (auto simp: servers_ok_def list_all_iff split: prod.splits)

end

interpretation resolv: server_lines resolvConfLine
  by unfold_locales (auto simp: resolvConfLine_def Let_def intro: appendDnsServer_ok split: list.splits)

interpretation scutil: server_lines scutilLine
  by unfold_locales (auto simp: scutilLine_def Let_def intro: appendDnsServer_ok split: option.splits)

lemma systemDnsServers_sound:
  assumes "s \<in> set (systemDnsServers sys)" "ds_GOOS sys \<noteq> ''windows''"
  shows "network s = ''udp'' \<and> (\<exists>host. ParseAddr host \<and> addr s = JoinHostPort host ''53'')"
  using assms resolv.scan_addresses scutil.scan_addresses
  by (fastforce simp: systemDnsServers_def darwinDnsServers_def resolvConfDnsServers_def
      parseResolvConfDnsServers_def parseScutilDnsServers_def split: if_splits option.splits)

lemma systemDnsServers_distinct:
  assumes "ds_GOOS sys \<noteq> ''windows''"
  shows "distinct (map addr (systemDnsServers sys))"
  using assms resolv.scan_distinct scutil.scan_distinct
  by (auto simp: systemDnsServers_def darwinDnsServers_def resolvConfDnsServers_def
      parseResolvConfDnsServers_def parseScutilDnsServers_def split: option.splits)

end
