(* ===== verification/DnsProps.thy ===== *)
theory DnsProps
  imports Dns
begin

text \<open>
  The DNSSEC validation of \<open>tssh/dns.go\<close>: what an accepted answer rests on (a chain of signatures from the
  pinned root anchors), that the walk to the root ends, and which records of an answer the validation covers.
\<close>

section \<open>Chains of trust\<close>

text \<open>A set of records signed by a key, at time \<open>now\<close>.\<close>

definition signed_by :: "dns_lib \<Rightarrow> u32 \<Rightarrow> RR list \<Rightarrow> rrsig_rr \<Rightarrow> dnskey_rr \<Rightarrow> bool" where
  "signed_by lib now rrset s key \<longleftrightarrow> rrset \<noteq> [] \<and> Inception s \<le> now \<and> now \<le> Expiration s \<and>
     key_Algorithm key = sig_Algorithm s \<and> KeyTag lib key = sig_KeyTag s \<and>
     EqualFold (Name (key_Hdr key)) (SignerName s) \<and> Verify lib s key rrset"

lemma verifyRRSet_iff: "verifyRRSet lib now rrset s keys = Inr () \<longleftrightarrow> (\<exists>k\<in>set keys. signed_by lib now rrset s k)"
  by (auto simp: verifyRRSet_def signed_by_def list_ex_iff)

text \<open>The records of an answer for one owner and type, all of the Internet class.\<close>

definition rrset_of :: "dns_lib \<Rightarrow> string \<Rightarrow> u16 \<Rightarrow> RR list \<Rightarrow> bool" where
  "rrset_of lib owner typ rrset \<longleftrightarrow>
     (\<forall>r\<in>set rrset. Rrtype (Header r) = typ \<and> Class (Header r) = ClassINET \<and>
       CanonicalName lib (Name (Header r)) = CanonicalName lib owner)"

text \<open>A signature record of the owner for the type.\<close>

definition sig_of :: "dns_lib \<Rightarrow> string \<Rightarrow> u16 \<Rightarrow> rrsig_rr \<Rightarrow> bool" where
  "sig_of lib owner covered s \<longleftrightarrow> TypeCovered s = covered \<and> rrset_of lib owner TypeRRSIG [RRSIG s]"

text \<open>The keys of a zone are trusted when one of them, vouched for by trusted DS records, signs the set of
  keys.  The DS records of the root are the pinned anchors; those of another zone are signed by a
  trusted key of its parent.\<close>

inductive trusted_zone :: "dns_lib \<Rightarrow> u32 \<Rightarrow> string \<Rightarrow> dnskey_rr list \<Rightarrow> bool"
  and trusted_ds :: "dns_lib \<Rightarrow> u32 \<Rightarrow> string \<Rightarrow> ds_rr list \<Rightarrow> bool"
  for lib :: dns_lib and now :: u32 where
  zone_keys: "\<lbrakk>trusted_ds lib now zone ds; rrset_of lib zone TypeDNSKEY rrset; sig_of lib zone TypeDNSKEY s;
      key \<in> set (dnskeyRecords rrset); dnskeyMatchesAnyDS lib key ds; signed_by lib now rrset s key\<rbrakk>
    \<Longrightarrow> trusted_zone lib now zone (dnskeyRecords rrset)"
| root_anchors: "trusted_ds lib now ''.'' dnssecRootTrustAnchors"
| signed_ds: "\<lbrakk>zone \<noteq> ''.''; trusted_zone lib now (CanonicalName lib (parentDNSName lib zone)) parentKeys;
      rrset_of lib zone TypeDS dsRRSet; sig_of lib zone TypeDS s;
      key \<in> set parentKeys; signed_by lib now dsRRSet s key\<rbrakk>
    \<Longrightarrow> trusted_ds lib now zone (dsRecords dsRRSet)"

definition trusted_cache :: "dns_lib \<Rightarrow> u32 \<Rightarrow> dnskeyCache \<Rightarrow> bool" where
  "trusted_cache lib now cache \<longleftrightarrow> (\<forall>zone keys. cache zone = Some keys \<longrightarrow> trusted_zone lib now zone keys)"

lemma rrset_of_dnssecRecords: "rrset_of lib owner typ (dnssecRecords lib rs owner typ)"
  by (simp add: rrset_of_def dnssecRecords_def)

lemma sig_of_rrsigRecords: "s \<in> set (rrsigRecords lib rs owner typ) \<Longrightarrow> sig_of lib owner typ s"
  by (auto simp: rrsigRecords_def sig_of_def rrset_of_def dnssecRecords_def List.map_filter_def
      split: RR.splits if_splits)

lemma selfSigned_trusted:
  assumes "selfSigned lib now (dnssecRecords lib rs zone TypeDNSKEY)
      (dnskeyRecords (dnssecRecords lib rs zone TypeDNSKEY)) (rrsigRecords lib rs zone TypeDNSKEY) ds"
    and "trusted_ds lib now zone ds"
  shows "trusted_zone lib now zone (dnskeyRecords (dnssecRecords lib rs zone TypeDNSKEY))"
proof -
  obtain key s where "key \<in> set (dnskeyRecords (dnssecRecords lib rs zone TypeDNSKEY))"
    "dnskeyMatchesAnyDS lib key ds" "s \<in> set (rrsigRecords lib rs zone TypeDNSKEY)"
    "signed_by lib now (dnssecRecords lib rs zone TypeDNSKEY) s key"
    using assms(1) by (auto simp: selfSigned_def list_ex_iff verifyRRSet_iff)
  then show ?thesis
    using zone_keys [OF assms(2) rrset_of_dnssecRecords sig_of_rrsigRecords] by blast
qed

lemma validatedDS_trusted:
  assumes "validatedDS lib now resp zone parentKeys \<noteq> []" "zone \<noteq> ''.''"
    "trusted_zone lib now (CanonicalName lib (parentDNSName lib zone)) parentKeys"
  shows "trusted_ds lib now zone (validatedDS lib now resp zone parentKeys)"
proof -
  obtain s where s: "s \<in> set (rrsigRecords lib (Answer resp) zone TypeDS)"
    "verifyRRSet lib now (dnssecRecords lib (Answer resp) zone TypeDS) s parentKeys = Inr ()"
    and eq: "validatedDS lib now resp zone parentKeys = dsRecords (dnssecRecords lib (Answer resp) zone TypeDS)"
    using assms(1)
    by (auto simp: validatedDS_def Let_def find_Some_iff split: option.splits) (metis nth_mem)
  then obtain key where "key \<in> set parentKeys"
    "signed_by lib now (dnssecRecords lib (Answer resp) zone TypeDS) s key"
    by (auto simp: verifyRRSet_iff)
  then show ?thesis
    unfolding eq using signed_ds [OF assms(2,3) rrset_of_dnssecRecords sig_of_rrsigRecords [OF s(1)]] by blast
qed

lemma trusted_cache_upd:
  "trusted_cache lib now cache \<Longrightarrow> trusted_zone lib now zone keys \<Longrightarrow> trusted_cache lib now (cache(zone \<mapsto> keys))"
  by (simp add: trusted_cache_def)

lemma validateDNSKEY_trusted:
  assumes "validateDNSKEY n lib now lookup cache w zone = Some (res, cache', w')" "trusted_cache lib now cache"
  shows "trusted_cache lib now cache' \<and> (\<forall>keys. res = Inr keys \<longrightarrow> trusted_zone lib now (CanonicalName lib zone) keys)"
  using assms
proof (induction n arbitrary: cache w zone res cache' w')
  case (Suc n)
  show ?case
  proof (cases "cache (CanonicalName lib zone)")
    case (Some keys)
    with Suc.prems show ?thesis by (auto simp: trusted_cache_def)
  next
    case None
    note step = Suc.prems(1) [simplified None Let_def validateDNSKEY.simps option.case]
    have parent: "trusted_cache lib now c \<and> (\<forall>keys. r = Inr keys \<longrightarrow>
        trusted_zone lib now (CanonicalName lib (parentDNSName lib z)) keys)"
      if "validateDNSKEY n lib now lookup cache w1 (parentDNSName lib z) = Some (r, c, w2)" for z r c w1 w2
      using Suc.IH [OF that Suc.prems(2)] .
    from step Suc.prems(2) show ?thesis
      by (auto split: prod.splits sum.splits if_splits option.splits
          intro!: trusted_cache_upd dest!: parent
          intro: selfSigned_trusted root_anchors validatedDS_trusted)
  qed
qed simp

lemma validateSigs_trusted:
  assumes "validateSigs n lib now lookup cache w rrset owner sigs = Some (True, w')" "trusted_cache lib now cache"
  shows "\<exists>s\<in>set sigs. \<exists>keys. \<exists>key\<in>set keys. IsSubDomain lib (SignerName s) owner \<and>
    trusted_zone lib now (CanonicalName lib (SignerName s)) keys \<and> signed_by lib now rrset s key"
  using assms
proof (induction sigs arbitrary: cache w)
  case (Cons s sigs)
  show ?case
  proof (cases "IsSubDomain lib (SignerName s) owner")
    case False
    with Cons show ?thesis by auto
  next
    case True
    then obtain res cache' w1 where v: "validateDNSKEY n lib now lookup cache w (SignerName s) = Some (res, cache', w1)"
      using Cons.prems(1) by (auto split: option.splits)
    note t = validateDNSKEY_trusted [OF v Cons.prems(2)]
    show ?thesis
      using Cons.prems(1) Cons.IH [of cache' w1] True v t
      by (auto simp: verifyRRSet_iff split: sum.splits if_splits)
  qed
qed simp

lemma validate_chain:
  assumes "validateSSHFPDNSSEC n lib now lookup w response owner = Some (True, w')"
  shows "\<exists>s keys key. s \<in> set (rrsigRecords lib (Answer response) owner TypeSSHFP) \<and>
    IsSubDomain lib (SignerName s) owner \<and> trusted_zone lib now (CanonicalName lib (SignerName s)) keys \<and>
    key \<in> set keys \<and> signed_by lib now (dnssecRecords lib (Answer response) owner TypeSSHFP) s key"
proof -
  have "validateSigs n lib now lookup Map.empty w (dnssecRecords lib (Answer response) owner TypeSSHFP) owner
      (rrsigRecords lib (Answer response) owner TypeSSHFP) = Some (True, w')"
    using assms by (auto simp: validateSSHFPDNSSEC_def Let_def split: if_splits)
  moreover have "trusted_cache lib now Map.empty" by (simp add: trusted_cache_def)
  ultimately show ?thesis by (auto dest!: validateSigs_trusted)
qed

section \<open>The walk to the root\<close>

text \<open>A fully qualified name: a final dot that is not escaped.\<close>

definition is_fqdn :: "string \<Rightarrow> bool" where
  "is_fqdn s \<longleftrightarrow> (\<exists>n. s = n @ ''.'' \<and> even (length (takeWhile (\<lambda>c. c = CHR 0x5C) (rev n))))"

text \<open>What the walk needs of \<open>dns.CanonicalName\<close>: on a fully qualified name it only changes letters.\<close>

definition canon_ok :: "dns_lib \<Rightarrow> bool" where
  "canon_ok lib \<longleftrightarrow> (\<forall>s. is_fqdn s \<longrightarrow> is_fqdn (CanonicalName lib s) \<and> length (CanonicalName lib s) = length s)"

lemma is_fqdn_dot [simp]: "is_fqdn ''.''"
  by (simp add: is_fqdn_def)

lemma Split_tail:
  assumes "length (Split n c) > 1"
  shows "\<exists>a r. n = a @ c # r \<and> Join (drop 1 (Split n c)) [c] = r"
proof -
  have "c \<in> set n" using assms Split_notin [of c n] by (cases "c \<in> set n") auto
  then obtain a r where "n = a @ c # r" "c \<notin> set a" by (auto dest: split_list_first)
  then show ?thesis by (auto simp: Split_append)
qed

lemma parentDNSName_shorter:
  assumes "canon_ok lib" "is_fqdn zone" "zone \<noteq> ''.''"
  shows "is_fqdn (parentDNSName lib zone) \<and> length (parentDNSName lib zone) < length zone"
proof -
  obtain n where n: "CanonicalName lib zone = n @ ''.''" "even (length (takeWhile (\<lambda>c. c = CHR 0x5C) (rev n)))"
    and len: "length zone = Suc (length n)"
    using assms(1,2) by (auto simp: canon_ok_def is_fqdn_def)
  obtain m where "zone = m @ ''.''" using assms(2) by (auto simp: is_fqdn_def)
  then have "n \<noteq> []" using len assms(3) by auto
  have trim: "TrimSuffix (CanonicalName lib zone) ''.'' = n"
    by (simp add: n TrimSuffix_def HasSuffix_def HasPrefix_def)
  show ?thesis
  proof (cases "length (Split n (CHR ''.'')) \<le> 1")
    case True
    then show ?thesis using trim \<open>n \<noteq> []\<close> len by (simp add: parentDNSName_def Let_def)
  next
    case False
    then obtain a r where ar: "n = a @ CHR ''.'' # r" "Join (drop 1 (Split n (CHR ''.''))) ''.'' = r"
      using Split_tail [of n "CHR ''.''"] by auto
    then have "parentDNSName lib zone = r @ ''.''"
      using False trim \<open>n \<noteq> []\<close> by (simp add: parentDNSName_def Let_def)
    moreover have "takeWhile (\<lambda>c. c = CHR 0x5C) (rev n) = takeWhile (\<lambda>c. c = CHR 0x5C) (rev r)"
      using takeWhile_tail [of "\<lambda>c. c = CHR 0x5C" "CHR ''.''" "rev r" "rev a"] by (simp add: ar(1))
    ultimately show ?thesis using n(2) ar(1) len by (auto simp: is_fqdn_def)
  qed
qed

lemma validateDNSKEY_total:
  assumes "canon_ok lib" "is_fqdn zone" "length zone \<le> n"
  shows "validateDNSKEY n lib now lookup cache w zone \<noteq> None"
  using assms(2,3)
proof (induction n arbitrary: cache w zone)
  case 0
  then show ?case by (auto simp: is_fqdn_def)
next
  case (Suc n)
  let ?z = "CanonicalName lib zone"
  have z: "is_fqdn ?z" "length ?z = length zone"
    using assms(1) Suc.prems(1) by (auto simp: canon_ok_def)
  have parent: "False" if "validateDNSKEY n lib now lookup cache w1 (parentDNSName lib ?z) = None" "?z \<noteq> ''.''" for w1
    using parentDNSName_shorter [OF assms(1) z(1) that(2)] z(2) Suc.prems(2)
      Suc.IH [of "parentDNSName lib ?z" cache w1] that(1) by auto
  show ?case
    by (auto simp: Let_def split: option.splits prod.splits sum.splits if_splits dest: parent)
qed

section \<open>Properties\<close>

text \<open>C3: DNSSEC validation is sound.  When the validation of an SSHFP answer succeeds, whatever the network answered
  to its queries, the answer's SSHFP records of the Internet class are signed, at this time, by a key of a
  zone that contains the owner, and the keys of that zone are trusted: a chain of DNSKEY and DS
  records, each signed by a trusted key of the level above, ends in the pinned root anchors.\<close>

theorem dnssec_chain_of_trust:
  assumes "validateSSHFPDNSSEC n lib now lookup w response owner = Some (True, w')"
  shows "\<exists>s keys key. s \<in> set (rrsigRecords lib (Answer response) owner TypeSSHFP) \<and>
    IsSubDomain lib (SignerName s) owner \<and> trusted_zone lib now (CanonicalName lib (SignerName s)) keys \<and>
    key \<in> set keys \<and> signed_by lib now (dnssecRecords lib (Answer response) owner TypeSSHFP) s key"
  by (rule validate_chain [OF assms])

definition demo_hdr :: "string \<Rightarrow> u16 \<Rightarrow> rr_hdr" where
  "demo_hdr name typ = \<lparr>Name = name, Rrtype = typ, Class = ClassINET\<rparr>"

definition demo_key :: "string \<Rightarrow> dnskey_rr" where
  "demo_key zone = \<lparr>key_Hdr = demo_hdr zone TypeDNSKEY, key_Protocol = 3, key_Algorithm = 8, key_PublicKey = []\<rparr>"

definition demo_sig :: "string \<Rightarrow> string \<Rightarrow> u16 \<Rightarrow> RR" where
  "demo_sig owner signer typ = RRSIG \<lparr>sig_Hdr = demo_hdr owner TypeRRSIG, TypeCovered = typ, sig_Algorithm = 8,
     sig_KeyTag = 20326, SignerName = signer, Inception = 1, Expiration = 9, Signature = []\<rparr>"

definition demo_ds :: "string \<Rightarrow> ds_rr" where
  "demo_ds zone = \<lparr>ds_Hdr = demo_hdr zone TypeDS, ds_KeyTag = 20326, ds_Algorithm = 8, ds_DigestType = 2,
     ds_Digest = ''e06d44b80b8f1d39a95c0b0d7c65d08458e880409bbc683457104237c7f8ec8d''\<rparr>"

text \<open>A package whose keys all have the tag and digest of the first anchor.\<close>

definition demo_lib :: dns_lib where
  "demo_lib = \<lparr>CanonicalName = (\<lambda>s. s), Fqdn = (\<lambda>s. s @ ''.''), IsSubDomain = (\<lambda>p c. HasSuffix c p),
     KeyTag = (\<lambda>_. 20326),
     ToDS = (\<lambda>_ _. Some ''e06d44b80b8f1d39a95c0b0d7c65d08458e880409bbc683457104237c7f8ec8d''),
     Verify = (\<lambda>s k rs. Name (key_Hdr k) = SignerName s), Unpack = (\<lambda>_. None), PackQuery = (\<lambda>_ _. Inl [])\<rparr>"

definition demo_msg :: "RR list \<Rightarrow> dnsMsg" where
  "demo_msg rs = \<lparr>Response = True, Id = 0, Opcode = 0, Rcode = 0, Truncated = False, Question = [], Answer = rs\<rparr>"

definition demo_parent :: "string \<Rightarrow> string" where
  "demo_parent zone = ''.''"

definition demo_lookup :: "unit lookup" where
  "demo_lookup w zone typ =
     (Inr (demo_msg (if typ = TypeDNSKEY then [DNSKEY (demo_key zone), demo_sig zone zone TypeDNSKEY]
        else [DS (demo_ds zone), demo_sig zone (demo_parent zone) TypeDS])), w)"

definition demo_answer :: dnsMsg where
  "demo_answer = demo_msg
     [SSHFP (demo_hdr ''h.t.'' TypeSSHFP) 1 2 ''00'', demo_sig ''h.t.'' ''t.'' TypeSSHFP]"

lemmas demo_defs = demo_hdr_def demo_key_def demo_sig_def demo_ds_def demo_lib_def demo_msg_def
  demo_lookup_def demo_answer_def demo_parent_def

lemma demo_validates: "validateSSHFPDNSSEC 5 demo_lib 5 demo_lookup () demo_answer ''h.t.'' = Some (True, ())"
  by code_simp

theorem dnssec_chain_of_trust_witness:
  "\<exists>s keys key. s \<in> set (rrsigRecords demo_lib (Answer demo_answer) ''h.t.'' TypeSSHFP) \<and>
    trusted_zone demo_lib 5 (SignerName s) keys \<and> key \<in> set keys"
  using dnssec_chain_of_trust [OF demo_validates] by (auto simp: demo_lib_def)

text \<open>The validation always ends, after at most as many zones as the signer's name has characters, when the
  names of the answer are fully qualified.\<close>

theorem validateSSHFPDNSSEC_total:
  assumes "canon_ok lib"
    and "\<forall>s\<in>set (rrsigRecords lib (Answer response) owner TypeSSHFP). is_fqdn (SignerName s) \<and> length (SignerName s) \<le> n"
  shows "\<exists>b w'. validateSSHFPDNSSEC n lib now lookup w response owner = Some (b, w')"
proof -
  have sigs: "validateSigs n lib now lookup cache w rrset owner sigs \<noteq> None"
    if "\<forall>s\<in>set sigs. is_fqdn (SignerName s) \<and> length (SignerName s) \<le> n" for sigs cache w rrset
    using that
  proof (induction sigs arbitrary: cache w)
    case (Cons s sigs)
    then show ?case
      using validateDNSKEY_total [OF assms(1), of "SignerName s" n now lookup cache w]
      by (auto split: option.splits sum.splits)
  qed simp
  from sigs [OF assms(2)] show ?thesis
    by (auto simp: validateSSHFPDNSSEC_def Let_def)
qed

theorem validateSSHFPDNSSEC_total_witness:
  "\<exists>b w'. validateSSHFPDNSSEC 2 demo_lib 5 demo_lookup () demo_answer ''h.t.'' = Some (b, w')"
proof (rule validateSSHFPDNSSEC_total)
  show "canon_ok demo_lib" by (simp add: canon_ok_def demo_lib_def)
  show "\<forall>s\<in>set (rrsigRecords demo_lib (Answer demo_answer) ''h.t.'' TypeSSHFP).
      is_fqdn (SignerName s) \<and> length (SignerName s) \<le> 2"
    by (simp add: demo_defs rrsigRecords_def dnssecRecords_def List.map_filter_def is_fqdn_def)
qed

text \<open>A record for the owner with the fingerprint of the key, of another class.\<close>

definition other_class :: "string \<Rightarrow> pubKey \<Rightarrow> RR" where
  "other_class owner key = SSHFP \<lparr>Name = owner, Rrtype = TypeSSHFP, Class = 3\<rparr> (sshfpAlgorithm (pk_Type key)) 2
     (hex_bytes (sha256_Sum (pk_blob key)))"

lemma parseSSHFP_append: "parseSSHFP (rs @ rs') owner = parseSSHFP rs owner @ parseSSHFP rs' owner"
  by (induction rs owner rule: parseSSHFP.induct) (auto split: option.splits)

text \<open>C27: the validation does not cover every record that is compared with the host key.  A response to which anybody
  adds an SSHFP record of a class other than the Internet class, with the fingerprint of any key, matches
  that key, and validates exactly as it did before: \<open>parseSSHFP\<close> does not look at the class and
  \<open>dnssecRecords\<close> leaves the record out of the signed set.\<close>

theorem sshfp_class_confusion:
  assumes "sshfpAlgorithm (pk_Type key) \<noteq> 0"
  shows "matchSSHFP (parseSSHFP (Answer response @ [other_class owner key]) owner) key \<and>
    validateSSHFPDNSSEC n lib now lookup w (response\<lparr>Answer := Answer response @ [other_class owner key]\<rparr>) owner =
    validateSSHFPDNSSEC n lib now lookup w response owner"
proof
  show "matchSSHFP (parseSSHFP (Answer response @ [other_class owner key]) owner) key"
    using assms
    by (simp add: parseSSHFP_append other_class_def hex_decode_bytes matchSSHFP_def matchRecord_def)
  have "dnssecRecords lib (Answer response @ [other_class owner key]) owner ty =
      dnssecRecords lib (Answer response) owner ty" for ty
    by (simp add: dnssecRecords_def other_class_def)
  then show "validateSSHFPDNSSEC n lib now lookup w (response\<lparr>Answer := Answer response @ [other_class owner key]\<rparr>) owner =
    validateSSHFPDNSSEC n lib now lookup w response owner"
    by (simp add: validateSSHFPDNSSEC_def rrsigRecords_def)
qed

text \<open>The answer of the example is signed and has no fingerprint of the key; with the added record it has.\<close>

theorem sshfp_class_confusion_witness:
  "\<not> matchSSHFP (parseSSHFP (Answer demo_answer) ''h.t.'') \<lparr>pk_Type = ''ssh-ed25519'', pk_blob = [1]\<rparr> \<and>
   matchSSHFP (parseSSHFP (Answer demo_answer @ [other_class ''h.t.'' \<lparr>pk_Type = ''ssh-ed25519'', pk_blob = [1]\<rparr>]) ''h.t.'')
     \<lparr>pk_Type = ''ssh-ed25519'', pk_blob = [1]\<rparr> \<and>
   validateSSHFPDNSSEC 5 demo_lib 5 demo_lookup ()
     (demo_answer\<lparr>Answer := Answer demo_answer @ [other_class ''h.t.'' \<lparr>pk_Type = ''ssh-ed25519'', pk_blob = [1]\<rparr>]\<rparr>) ''h.t.'' =
   Some (True, ())"
proof -
  have alg: "sshfpAlgorithm (pk_Type \<lparr>pk_Type = ''ssh-ed25519'', pk_blob = [1]\<rparr>) = 4"
    by (simp add: sshfpAlgorithm_def)
  have "\<not> matchSSHFP (parseSSHFP (Answer demo_answer) ''h.t.'') \<lparr>pk_Type = ''ssh-ed25519'', pk_blob = [1]\<rparr>"
    using alg by (auto simp: matchSSHFP_def demo_answer_def demo_msg_def demo_sig_def demo_hdr_def matchRecord_def
        split: option.splits)
  then show ?thesis
    using sshfp_class_confusion [of "\<lparr>pk_Type = ''ssh-ed25519'', pk_blob = [1]\<rparr>" demo_answer "''h.t.''" 5 demo_lib 5 demo_lookup "()"]
      demo_validates alg by simp
qed

text \<open>The converse: without such records the fingerprint that matches is in the signed set.\<close>

definition inet_only :: "RR list \<Rightarrow> bool" where
  "inet_only rs \<longleftrightarrow> (\<forall>r\<in>set rs. case r of SSHFP h _ _ _ \<Rightarrow> Rrtype h = TypeSSHFP \<and> Class h = ClassINET \<and> ascii (Name h)
     | _ \<Rightarrow> True)"

text \<open>\<open>dns.CanonicalName\<close> lower-cases: it does not tell names apart that differ in the case of letters.\<close>

definition canon_fold :: "dns_lib \<Rightarrow> bool" where
  "canon_fold lib \<longleftrightarrow> (\<forall>a b. ascii a \<and> ascii b \<and> EqualFold a b \<longrightarrow> CanonicalName lib a = CanonicalName lib b)"

text \<open>A record of the set carries a fingerprint of the key.\<close>

definition fingerprint_in :: "RR list \<Rightarrow> pubKey \<Rightarrow> bool" where
  "fingerprint_in rs key \<longleftrightarrow> (\<exists>h alg typ fp d. SSHFP h alg typ fp \<in> set rs \<and> hex_decode fp = Some d \<and>
     alg = sshfpAlgorithm (pk_Type key) \<and> alg \<noteq> 0 \<and>
     (typ = sshfpTypeSHA1 \<and> d = sha1_Sum (pk_blob key) \<or> typ = sshfpTypeSHA256 \<and> d = sha256_Sum (pk_blob key)))"

lemma parseSSHFP_in:
  "r \<in> set (parseSSHFP rs owner) \<Longrightarrow> \<exists>h fp. SSHFP h (algorithm r) (fpType r) fp \<in> set rs \<and>
     EqualFold (Name h) owner \<and> hex_decode fp = Some (fingerprint r)"
  by (induction rs owner rule: parseSSHFP.induct) (auto split: option.splits if_splits, blast)

lemma match_in_rrset:
  assumes "matchSSHFP (parseSSHFP rs owner) key" "inet_only rs" "canon_fold lib" "ascii owner"
  shows "fingerprint_in (dnssecRecords lib rs owner TypeSSHFP) key"
proof -
  obtain r where r: "r \<in> set (parseSSHFP rs owner)" "sshfpAlgorithm (pk_Type key) \<noteq> 0"
    "matchRecord (sshfpAlgorithm (pk_Type key)) (sha1_Sum (pk_blob key)) (sha256_Sum (pk_blob key)) r"
    using assms(1) by (auto simp: matchSSHFP_def list_ex_iff Let_def)
  then obtain h fp where h: "SSHFP h (algorithm r) (fpType r) fp \<in> set rs" "EqualFold (Name h) owner"
    "hex_decode fp = Some (fingerprint r)"
    by (blast dest: parseSSHFP_in)
  then have "SSHFP h (algorithm r) (fpType r) fp \<in> set (dnssecRecords lib rs owner TypeSSHFP)"
    using assms(2-4) by (auto simp: dnssecRecords_def inet_only_def canon_fold_def)
  then show ?thesis
    using r h unfolding fingerprint_in_def matchRecord_def
    by (intro exI [of _ h] exI [of _ "algorithm r"] exI [of _ "fpType r"] exI [of _ fp] exI [of _ "fingerprint r"]) simp
qed

end
