(* ===== verification/KnownHosts.thy ===== *)
theory KnownHosts
  imports Tokens Dns
begin

text \<open>
  \<open>tssh/known_hosts.go\<close>: the files of known host keys, the recovery from malformed lines, the removal of
  outdated keys, and the callback that decides whether the key of a server is accepted.  The packages
  \<open>skeema/knownhosts\<close> and \<open>x/crypto/ssh\<close> are the record \<open>kh_lib\<close> and the parameters \<open>newDB\<close> and \<open>khdb\<close>; the
  file system is a map from paths to contents.
\<close>

section \<open>Malformed files\<close>

record malformedKnownHost =
  mk_path :: string
  mk_line :: nat
  mk_reason :: string

record knownHostsSnapshot =
  originalPath :: string
  temporaryPath :: string
  snap_lines :: "string list"

type_synonym fs = "string \<Rightarrow> string option"

definition readFile :: "fs \<Rightarrow> string \<Rightarrow> string result" where
  "readFile fs path = (case fs path of None \<Rightarrow> Inl (''open '' @ path @ '': no such file or directory'') | Some d \<Rightarrow> Inr d)"

text \<open>The snapshots; \<open>temp\<close> creates a temporary file with a content and gives its name.\<close>

fun createKnownHostsSnapshots :: "fs \<Rightarrow> (string \<Rightarrow> string result) \<Rightarrow> string list \<Rightarrow> knownHostsSnapshot list result" where
  "createKnownHostsSnapshots fs temp [] = Inr []"
| "createKnownHostsSnapshots fs temp (path # files) =
     (case readFile fs path of Inl e \<Rightarrow> Inl e
      | Inr input \<Rightarrow>
          (case temp path of Inl e \<Rightarrow> Inl e
           | Inr t \<Rightarrow>
               (case createKnownHostsSnapshots fs temp files of Inl e \<Rightarrow> Inl e
                | Inr ss \<Rightarrow> Inr (\<lparr>originalPath = path, temporaryPath = t, snap_lines = Split input (CHR 0x0A)\<rparr> # ss))))"

text \<open>The index of the snapshot, the line (from 1) and the reason that an error of the parser names.\<close>

fun parseKnownHostsLineError :: "string \<Rightarrow> knownHostsSnapshot list \<Rightarrow> (nat \<times> nat \<times> string) option" where
  "parseKnownHostsLineError message [] = None"
| "parseKnownHostsLineError message (s # ss) =
     (let pre = ''knownhosts: '' @ temporaryPath s @ '':'' in
      if \<not> HasPrefix message pre then
        map_option (\<lambda>(i, l, r). (Suc i, l, r)) (parseKnownHostsLineError message ss)
      else case Cut (TrimPrefix message pre) (CHR '':'') of None \<Rightarrow> None
        | Some (lineText, reason) \<Rightarrow>
            (case Atoi lineText of None \<Rightarrow> None
             | Some line \<Rightarrow>
                 if line < 1 \<or> line > int (length (snap_lines s)) then None
                 else Some (0, nat line, TrimSpace reason)))"

definition snapshotFile :: "knownHostsSnapshot \<Rightarrow> string \<times> string" where
  "snapshotFile s = (temporaryPath s, Join (snap_lines s) [CHR 0x0A])"

text \<open>\<open>strings.ReplaceAll\<close> for a non-empty text.\<close>

function ReplaceAll :: "string \<Rightarrow> string \<Rightarrow> string \<Rightarrow> string" where
  "ReplaceAll s old new =
     (case s of [] \<Rightarrow> []
      | c # r \<Rightarrow> if old \<noteq> [] \<and> HasPrefix s old then new @ ReplaceAll (drop (length old) s) old new
                 else c # ReplaceAll r old new)"
  by pat_completeness auto
termination by (relation "measure (\<lambda>(s, _, _). length s)") auto

declare ReplaceAll.simps [simp del]

definition restoreKnownHostsPaths :: "string \<Rightarrow> knownHostsSnapshot list \<Rightarrow> string" where
  "restoreKnownHostsPaths message snapshots =
     foldl (\<lambda>m s. ReplaceAll m (temporaryPath s) (originalPath s)) message snapshots"

text \<open>The loop of \<open>newKnownHostsDB\<close>; \<open>rewrite\<close> is the error of rewriting a temporary file, if any.  The first
  argument bounds the number of turns.\<close>

fun malformedLoop :: "nat \<Rightarrow> ((string \<times> string) list \<Rightarrow> 'db result) \<Rightarrow> (string \<Rightarrow> go_error option)
    \<Rightarrow> knownHostsSnapshot list \<Rightarrow> malformedKnownHost list \<Rightarrow> ('db \<times> malformedKnownHost list) result option" where
  "malformedLoop 0 newDB rewrite snapshots malformed = None"
| "malformedLoop (Suc n) newDB rewrite snapshots malformed =
     (case newDB (map snapshotFile snapshots) of
        Inr db \<Rightarrow> Some (Inr (db, malformed))
      | Inl e \<Rightarrow>
          (case parseKnownHostsLineError e snapshots of
             None \<Rightarrow> Some (Inl (restoreKnownHostsPaths e snapshots))
           | Some (i, line, reason) \<Rightarrow>
               let s = snapshots ! i; s' = s\<lparr>snap_lines := (snap_lines s)[line - 1 := []]\<rparr> in
               (case rewrite (temporaryPath s) of Some err \<Rightarrow> Some (Inl err)
                | None \<Rightarrow> malformedLoop n newDB rewrite (snapshots[i := s'])
                    (malformed @ [\<lparr>mk_path = originalPath s, mk_line = line, mk_reason = reason\<rparr>]))))"

definition newKnownHostsDB :: "nat \<Rightarrow> ((string \<times> string) list \<Rightarrow> 'db result) \<Rightarrow> (string \<Rightarrow> go_error option)
    \<Rightarrow> (string \<Rightarrow> string result) \<Rightarrow> fs \<Rightarrow> string list \<Rightarrow> ('db \<times> malformedKnownHost list) result option" where
  "newKnownHostsDB n newDB rewrite temp fs files =
     (case newDB (map (\<lambda>p. (p, case fs p of None \<Rightarrow> [] | Some d \<Rightarrow> d)) files) of
        Inr db \<Rightarrow> Some (Inr (db, []))
      | Inl _ \<Rightarrow>
          (case createKnownHostsSnapshots fs temp files of
             Inl e \<Rightarrow> Some (Inl e)
           | Inr snapshots \<Rightarrow> malformedLoop n newDB rewrite snapshots []))"

section \<open>Adding a host key\<close>

record kh_lib =
  Line :: "string list \<Rightarrow> pubKey \<Rightarrow> string"
  Normalize :: "string \<Rightarrow> string"
  HashHostname :: "string \<Rightarrow> string"
  FingerprintSHA256 :: "pubKey \<Rightarrow> string"

record kh_cfg =
  VerifyHostKeyDNS :: string
  StrictHostKeyChecking :: string
  HashKnownHosts :: string

text \<open>The input and output of one call: the errors of opening the file, of writing the missing line end and
  of writing the line (after so many bytes), and the lines typed at the terminal.\<close>

record kh_io =
  io_open :: "go_error option"
  io_newline :: "go_error option"
  io_write :: "(nat \<times> go_error) option"
  io_input :: "string list result"

record kh_state =
  acceptHostKeys :: "string list"
  sshLoginSuccess :: bool
  kh_fs :: fs

definition isAcceptedHostKey :: "kh_state \<Rightarrow> string \<Rightarrow> bool" where
  "isAcceptedHostKey st line \<longleftrightarrow> line \<in> set (acceptHostKeys st)"

definition addAcceptedHostKey :: "kh_state \<Rightarrow> string \<Rightarrow> kh_state" where
  "addAcceptedHostKey st line = st\<lparr>acceptHostKeys := acceptHostKeys st @ [line]\<rparr>"

definition ensureNewline :: "kh_io \<Rightarrow> string \<Rightarrow> unit result \<times> string" where
  "ensureNewline io content =
     (if content = [] \<or> last content = CHR 0x0A then (Inr (), content)
      else case io_newline io of Some e \<Rightarrow> (Inl e, content) | None \<Rightarrow> (Inr (), content @ [CHR 0x0A]))"

definition writeKnownHost :: "kh_lib \<Rightarrow> kh_cfg \<Rightarrow> kh_io \<Rightarrow> fs \<Rightarrow> string \<Rightarrow> string \<Rightarrow> pubKey \<Rightarrow> unit result \<times> fs" where
  "writeKnownHost lib cfg io fs path host key =
     (case io_open io of Some e \<Rightarrow> (Inl e, fs)
      | None \<Rightarrow>
          let content = (case fs path of None \<Rightarrow> [] | Some d \<Rightarrow> d) in
          (case ensureNewline io content of
             (Inl e, c) \<Rightarrow> (Inl e, fs(path \<mapsto> c))
           | (Inr _, c) \<Rightarrow>
               let hostNormalized = Normalize lib host in
               if IndexAny hostNormalized [CHR 0x09, CHR '' ''] \<noteq> None
               then (Inl (''host '' @ hostNormalized @ '' contains spaces''), fs(path \<mapsto> c))
               else let address = (if EqualFold (HashKnownHosts cfg) ''yes'' then HashHostname lib hostNormalized
                                   else hostNormalized);
                        line = Line lib [address] key @ [CHR 0x0A] in
                 (case io_write io of
                    Some (k, e) \<Rightarrow> (Inl e, fs(path \<mapsto> c @ take k line))
                  | None \<Rightarrow> (Inr (), fs(path \<mapsto> c @ line)))))"

text \<open>The question to the user: the fingerprint or \<open>yes\<close> accepts, \<open>no\<close> refuses, anything else asks again, and
  the end of the input is an error.\<close>

fun askLoop :: "string \<Rightarrow> string list \<Rightarrow> unit result" where
  "askLoop fp [] = Inl ''EOF''"
| "askLoop fp (line # lines) =
     (let input = TrimSpace line in
      if input = fp \<or> EqualFold input ''yes'' then Inr ()
      else if EqualFold input ''no'' then Inl ''host key not trusted''
      else askLoop fp lines)"

definition askUser :: "kh_lib \<Rightarrow> kh_io \<Rightarrow> pubKey \<Rightarrow> unit result" where
  "askUser lib io key = (case io_input io of Inl e \<Rightarrow> Inl e | Inr lines \<Rightarrow> askLoop (FingerprintSHA256 lib key) lines)"

definition addHostKey :: "kh_lib \<Rightarrow> kh_cfg \<Rightarrow> kh_io \<Rightarrow> kh_state \<Rightarrow> string \<Rightarrow> string \<Rightarrow> pubKey \<Rightarrow> bool
    \<Rightarrow> unit result \<times> kh_state" where
  "addHostKey lib cfg io st path host key ask =
     (if sshLoginSuccess st then (Inl ''host key changed'', st)
      else case (if ask then askUser lib io key else Inr ()) of
          Inl e \<Rightarrow> (Inl e, st)
        | Inr _ \<Rightarrow> (Inr (), st\<lparr>kh_fs := snd (writeKnownHost lib cfg io (kh_fs st) path host key)\<rparr>))"

section \<open>The callback\<close>

text \<open>What the database says of a host and key.\<close>

datatype kh_verdict = KeyKnown | KeyChanged go_error | HostUnknown go_error | KeyError go_error

definition dnsWanted :: "kh_cfg \<Rightarrow> bool" where
  "dnsWanted cfg \<longleftrightarrow> EqualFold (VerifyHostKeyDNS cfg) ''yes'' \<or> EqualFold (VerifyHostKeyDNS cfg) ''true'' \<or>
     EqualFold (VerifyHostKeyDNS cfg) ''ask''"

definition dnsTrusted :: "kh_cfg \<Rightarrow> bool" where
  "dnsTrusted cfg \<longleftrightarrow> EqualFold (VerifyHostKeyDNS cfg) ''yes'' \<or> EqualFold (VerifyHostKeyDNS cfg) ''true''"

text \<open>Whether a fingerprint in DNS alone lets the key in; the authentication runs only for a match.\<close>

definition dnsAccepts :: "nat \<Rightarrow> dns_lib \<Rightarrow> u32 \<Rightarrow> 'w lookup \<Rightarrow> kh_cfg \<Rightarrow> string \<Rightarrow> pubKey \<Rightarrow> 'w \<Rightarrow> (bool \<times> 'w) option" where
  "dnsAccepts n dlib now lookup cfg host key w =
     (if \<not> dnsWanted cfg then Some (False, w)
      else case verifyHostKeyDNS dlib lookup w host key of
          (Inl _, w') \<Rightarrow> Some (False, w')
        | (Inr v, w') \<Rightarrow>
            if dv_found v \<and> dnsTrusted cfg \<and> dv_matched v then
              (case dv_auth v of None \<Rightarrow> Some (False, w')
               | Some (response, owner) \<Rightarrow> validateSSHFPDNSSEC n dlib now lookup w' response owner)
            else Some (False, w'))"

text \<open>The decision when the database does not know the key and DNS did not settle it.\<close>

definition hostKeyDecision :: "kh_lib \<Rightarrow> kh_cfg \<Rightarrow> kh_io \<Rightarrow> string \<Rightarrow> string \<Rightarrow> pubKey \<Rightarrow> kh_state \<Rightarrow> kh_verdict
    \<Rightarrow> unit result \<times> kh_state" where
  "hostKeyDecision lib cfg io primaryPath host key st v =
     (let strict = ToLower (StrictHostKeyChecking cfg);
          final = (\<lambda>e. (if strict \<in> {''no'', ''off'', ''false''} then Inr () else Inl e, st)) in
      case v of
        KeyKnown \<Rightarrow> (Inr (), st)
      | KeyChanged e \<Rightarrow> final e
      | KeyError e \<Rightarrow> final e
      | HostUnknown e \<Rightarrow>
          if primaryPath = [] then final e
          else if strict \<in> {''yes'', ''true''} then (Inl e, st)
          else addHostKey lib cfg io st primaryPath host key (strict \<notin> {''accept-new'', ''no'', ''off'', ''false''}))"

definition hostKeyCallback :: "nat \<Rightarrow> kh_lib \<Rightarrow> dns_lib \<Rightarrow> u32 \<Rightarrow> 'w lookup \<Rightarrow> (string \<Rightarrow> pubKey \<Rightarrow> kh_verdict) \<Rightarrow> kh_cfg
    \<Rightarrow> kh_io \<Rightarrow> string \<Rightarrow> string \<Rightarrow> pubKey \<Rightarrow> kh_state \<Rightarrow> 'w \<Rightarrow> (unit result \<times> kh_state \<times> 'w) option" where
  "hostKeyCallback n lib dlib now lookup khdb cfg io primaryPath host key st w =
     (let line = Line lib [host] key in
      if isAcceptedHostKey st line then Some (Inr (), st, w)
      else if khdb host key = KeyKnown then Some (Inr (), addAcceptedHostKey st line, w)
      else case dnsAccepts n dlib now lookup cfg host key w of
          None \<Rightarrow> None
        | Some (True, w') \<Rightarrow> Some (Inr (), addAcceptedHostKey st line, w')
        | Some (False, w') \<Rightarrow>
            (case hostKeyDecision lib cfg io primaryPath host key st (khdb host key) of
               (Inl e, st') \<Rightarrow> Some (Inl e, st', w')
             | (Inr _, st') \<Rightarrow> Some (Inr (), addAcceptedHostKey st' line, w')))"

section \<open>Removing a host key\<close>

definition matchHashed :: "string \<Rightarrow> string \<Rightarrow> bool" where
  "matchHashed hashedPart target =
     (case Split hashedPart (CHR ''|'') of
        _ # _ # saltB64 # hashB64 # _ \<Rightarrow>
          (case (base64_decode saltB64, base64_decode hashB64) of
             (Some salt, Some expectedHash) \<Rightarrow> hmac_sha1 salt (bytes_of_string target) = expectedHash
           | _ \<Rightarrow> False)
      | _ \<Rightarrow> False)"

definition matchKnownHosts :: "string \<Rightarrow> string \<Rightarrow> bool" where
  "matchKnownHosts hosts target =
     list_ex (\<lambda>part. if HasPrefix part ''|1|'' then matchHashed part target else EqualFold part target)
       (Split hosts (CHR '',''))"

text \<open>Whether a line of the file is an entry for the host.\<close>

definition outdatedLine :: "string \<Rightarrow> string \<Rightarrow> bool" where
  "outdatedLine target line =
     (let trimedLine = TrimSpace line in
      if trimedLine = [] \<or> hd trimedLine = CHR ''#'' then False
      else case Fields trimedLine of
          [] \<Rightarrow> False
        | f # fs \<Rightarrow>
            matchKnownHosts (if HasPrefix f ''@'' \<and> fs \<noteq> [] then hd fs else f) target)"

text \<open>\<open>wr\<close> is the error of writing a file, if any.\<close>

definition removeHostKey :: "kh_lib \<Rightarrow> (string \<Rightarrow> go_error option) \<Rightarrow> string \<Rightarrow> string \<Rightarrow> fs \<Rightarrow> unit result \<times> fs" where
  "removeHostKey lib wr path address fs =
     (case readFile fs path of Inl e \<Rightarrow> (Inl e, fs)
      | Inr input \<Rightarrow>
          let target = Normalize lib address;
              inputLines = Split input (CHR 0x0A);
              outputLines = filter (\<lambda>l. \<not> outdatedLine target l) inputLines in
          if length outputLines = length inputLines then (Inr (), fs)
          else case wr (path @ ''.old'') of Some e \<Rightarrow> (Inl e, fs)
            | None \<Rightarrow>
                (case wr path of Some e \<Rightarrow> (Inl e, fs(path @ ''.old'' \<mapsto> input))
                 | None \<Rightarrow> (Inr (), fs(path @ ''.old'' \<mapsto> input, path \<mapsto> Join outputLines [CHR 0x0A]))))"

section \<open>The files\<close>

text \<open>The environment: token expansion, the home directory, and which files can be read.\<close>

record kh_env =
  ke_tokens :: tokenEnv
  ke_home :: "string \<Rightarrow> string"
  ke_readable :: "string \<Rightarrow> bool"
  ke_userFiles :: "string list"
  ke_globalFiles :: "string list"
  ke_remove :: bool
  ke_addr :: string

definition resolveHomeDir :: "(string \<Rightarrow> string) \<Rightarrow> string \<Rightarrow> string" where
  "resolveHomeDir home path =
     (if HasPrefix path ''~/'' \<or> HasPrefix path [CHR ''~'', CHR 0x5C] then home (drop 2 path) else path)"

fun addFiles :: "kh_env \<Rightarrow> fs \<Rightarrow> bool \<Rightarrow> string list \<times> string \<Rightarrow> string list \<Rightarrow> (string list \<times> string) result" where
  "addFiles env fs user st [] = Inr st"
| "addFiles env fs user (files, primaryPath) (path # paths) =
     (case (if user then (case expandTokens path (ke_tokens env) ''%CdhijkLlnpru'' of
              Inl e \<Rightarrow> Inl (''expand UserKnownHostsFile ['' @ path @ ''] failed: '' @ e)
            | Inr p \<Rightarrow> Inr (resolveHomeDir (ke_home env) p)) else Inr path) of
        Inl e \<Rightarrow> Inl e
      | Inr resolved \<Rightarrow>
          let primary = (if user \<and> primaryPath = [] then resolved else primaryPath) in
          if fs resolved = None \<or> \<not> ke_readable env resolved then addFiles env fs user (files, primary) paths
          else addFiles env fs user (files @ [resolved], primary) paths)"

definition addKnownHostsFiles :: "kh_env \<Rightarrow> fs \<Rightarrow> bool \<Rightarrow> string list \<Rightarrow> string list \<Rightarrow> string list \<times> string
    \<Rightarrow> (string list \<times> string) result" where
  "addKnownHostsFiles env fs user configured defaults st =
     (let knownHostsFiles = (if configured = [] then defaults else configured) in
      if length knownHostsFiles = 1 \<and> EqualFold (hd knownHostsFiles) ''none'' then Inr st
      else addFiles env fs user st knownHostsFiles)"

text \<open>Removal in every user file; a failure is only a warning.\<close>

definition removeAll_keys :: "kh_lib \<Rightarrow> (string \<Rightarrow> go_error option) \<Rightarrow> string \<Rightarrow> string list \<Rightarrow> fs \<Rightarrow> fs" where
  "removeAll_keys lib wr address files fs = foldl (\<lambda>f path. snd (removeHostKey lib wr path address f)) fs files"

text \<open>The database, the malformed lines, the files read, and the file that new keys are added to.\<close>

definition getHostKeyCallback :: "nat \<Rightarrow> kh_lib \<Rightarrow> ((string \<times> string) list \<Rightarrow> 'db result) \<Rightarrow> (string \<Rightarrow> go_error option)
    \<Rightarrow> (string \<Rightarrow> string result) \<Rightarrow> kh_env \<Rightarrow> fs
    \<Rightarrow> (('db \<times> malformedKnownHost list \<times> string list \<times> string) result \<times> fs) option" where
  "getHostKeyCallback n lib newDB wr temp env fs =
     (case addKnownHostsFiles env fs True (ke_userFiles env) [''~/.ssh/known_hosts'', ''~/.ssh/known_hosts2''] ([], []) of
        Inl e \<Rightarrow> Some (Inl e, fs)
      | Inr (files, primaryPath) \<Rightarrow>
          let fs' = (if ke_remove env then removeAll_keys lib wr (ke_addr env) files fs else fs) in
          (case addKnownHostsFiles env fs' False (ke_globalFiles env)
                  [''/etc/ssh/ssh_known_hosts'', ''/etc/ssh/ssh_known_hosts2''] (files, primaryPath) of
             Inl e \<Rightarrow> Some (Inl e, fs')
           | Inr (files', primary') \<Rightarrow>
               (case newKnownHostsDB n newDB wr temp fs' files' of
                  None \<Rightarrow> None
                | Some (Inl e) \<Rightarrow> Some (Inl (''new knownhosts failed: '' @ e), fs')
                | Some (Inr (db, malformed)) \<Rightarrow> Some (Inr (db, malformed, files', primary'), fs'))))"

end
