(* ===== verification/KnownHostsProps.thy ===== *)
theory KnownHostsProps
  imports KnownHosts DnsProps
begin

text \<open>
  When the key of a server is accepted, that malformed lines of the known hosts files cannot hide other
  entries or keep the client from starting, and what the removal of outdated keys does to a file.
\<close>

section \<open>Accepting a key\<close>

text \<open>DNS vouches for the key: a fingerprint of it is in an answer whose signed records have a chain of trust.\<close>

definition dns_vouches :: "dns_lib \<Rightarrow> u32 \<Rightarrow> pubKey \<Rightarrow> bool" where
  "dns_vouches dlib now key \<longleftrightarrow> (\<exists>(response :: dnsMsg) owner s keys k.
     matchSSHFP (parseSSHFP (Answer response) owner) key \<and>
     IsSubDomain dlib (SignerName s) owner \<and> trusted_zone dlib now (CanonicalName dlib (SignerName s)) keys \<and>
     k \<in> set keys \<and> signed_by dlib now (dnssecRecords dlib (Answer response) owner TypeSSHFP) s k)"

lemma verifyHostKeyDNS_matched:
  assumes "verifyHostKeyDNS dlib lookup w host key = (Inr v, w')" "dv_auth v = Some (response, owner)"
  shows "dv_matched v = matchSSHFP (parseSSHFP (Answer response) owner) key"
  using assms by (auto simp: verifyHostKeyDNS_def lookupSSHFP_def Let_def split: prod.splits sum.splits if_splits)

lemma dnsAccepts_vouches:
  assumes "dnsAccepts n dlib now lookup cfg host key w = Some (True, w')"
  shows "dnsTrusted cfg \<and> dns_vouches dlib now key"
proof -
  obtain v w1 response owner where v: "verifyHostKeyDNS dlib lookup w host key = (Inr v, w1)" "dnsTrusted cfg"
    "dv_matched v" "dv_auth v = Some (response, owner)"
    "validateSSHFPDNSSEC n dlib now lookup w1 response owner = Some (True, w')"
    using assms by (auto simp: dnsAccepts_def split: prod.splits sum.splits if_splits option.splits)
  then show ?thesis
    using verifyHostKeyDNS_matched [OF v(1,4)] validate_chain [OF v(5)] unfolding dns_vouches_def by blast
qed

lemma addHostKey_ok:
  assumes "addHostKey lib cfg io st path host key ask = (Inr (), st')"
  shows "\<not> sshLoginSuccess st \<and> (ask \<longrightarrow> askUser lib io key = Inr ()) \<and> acceptHostKeys st' = acceptHostKeys st"
  using assms by (auto simp: addHostKey_def split: if_splits sum.splits)

lemma hostKeyDecision_ok:
  assumes "hostKeyDecision lib cfg io primaryPath host key st v = (Inr (), st')" "v \<noteq> KeyKnown"
  shows "ToLower (StrictHostKeyChecking cfg) \<in> {''no'', ''off'', ''false''} \<or>
    (\<exists>e. v = HostUnknown e \<and> \<not> sshLoginSuccess st \<and>
       (ToLower (StrictHostKeyChecking cfg) = ''accept-new'' \<or> askUser lib io key = Inr ()))"
  using assms
  by (auto simp: hostKeyDecision_def Let_def split: kh_verdict.splits if_splits dest: addHostKey_ok)

text \<open>C4: the host key callback accepts a key only for one of these reasons: the same key was accepted before in this
  process; the known hosts files have it; \<open>VerifyHostKeyDNS\<close> is \<open>yes\<close> or \<open>true\<close> and DNS vouches for it; the
  user turned host key checking off; or the host is unknown, no login has succeeded yet, and new keys
  are accepted by the configuration or the user answered yes or typed the fingerprint.  So a key that has
  changed is never put to the user.  An accepted key is remembered.\<close>

theorem host_key_acceptance:
  assumes "hostKeyCallback n lib dlib now lookup khdb cfg io primaryPath host key st w = Some (Inr (), st', w')"
  shows "(isAcceptedHostKey st (Line lib [host] key) \<or> khdb host key = KeyKnown \<or>
      dnsTrusted cfg \<and> dns_vouches dlib now key \<or>
      ToLower (StrictHostKeyChecking cfg) \<in> {''no'', ''off'', ''false''} \<or>
      (\<exists>e. khdb host key = HostUnknown e \<and> \<not> sshLoginSuccess st \<and>
         (ToLower (StrictHostKeyChecking cfg) = ''accept-new'' \<or> askUser lib io key = Inr ()))) \<and>
    isAcceptedHostKey st' (Line lib [host] key)"
  using assms
  by (auto simp: hostKeyCallback_def Let_def isAcceptedHostKey_def addAcceptedHostKey_def
      split: if_splits option.splits prod.splits sum.splits bool.splits
      dest: dnsAccepts_vouches hostKeyDecision_ok)

definition demo_kh_lib :: kh_lib where
  "demo_kh_lib = \<lparr>Line = (\<lambda>hs k. concat hs @ '' '' @ pk_Type k), Normalize = (\<lambda>h. h), HashHostname = (\<lambda>h. h),
     FingerprintSHA256 = (\<lambda>k. ''SHA256:x'')\<rparr>"

text \<open>An unknown host; the user first mistypes and then confirms.\<close>

definition demo_callback :: "(unit result \<times> kh_state \<times> unit) option" where
  "demo_callback = hostKeyCallback 0 demo_kh_lib demo_lib 5 demo_lookup (\<lambda>_ _. HostUnknown ''unknown'')
     \<lparr>VerifyHostKeyDNS = [], StrictHostKeyChecking = ''ask'', HashKnownHosts = []\<rparr>
     \<lparr>io_open = None, io_newline = None, io_write = None, io_input = Inr [''ok'', ''Yes'']\<rparr> ''kh'' ''h''
     \<lparr>pk_Type = ''ssh-ed25519'', pk_blob = [1]\<rparr>
     \<lparr>acceptHostKeys = [], sshLoginSuccess = False, kh_fs = Map.empty\<rparr> ()"

theorem host_key_acceptance_witness:
  "\<exists>st. demo_callback = Some (Inr (), st, ()) \<and> isAcceptedHostKey st (''h '' @ ''ssh-ed25519'')"
proof -
  have "map_option fst demo_callback = Some (Inr ())" by code_simp
  then obtain st where st: "demo_callback = Some (Inr (), st, ())" by auto
  then show ?thesis
    using host_key_acceptance [OF st [unfolded demo_callback_def]] by (auto simp: demo_kh_lib_def)
qed

section \<open>Malformed lines\<close>

text \<open>What the loop relies on: the parser of \<open>knownhosts.NewDB\<close> skips empty lines, so it never reports one.\<close>

definition reports_nonempty :: "((string \<times> string) list \<Rightarrow> 'db result) \<Rightarrow> bool" where
  "reports_nonempty newDB \<longleftrightarrow> (\<forall>(ss :: knownHostsSnapshot list) e i line reason. newDB (map snapshotFile ss) = Inl e \<and>
     parseKnownHostsLineError e ss = Some (i, line, reason) \<longrightarrow> snap_lines (ss ! i) ! (line - 1) \<noteq> [])"

text \<open>The number of non-empty lines.\<close>

definition entries :: "knownHostsSnapshot list \<Rightarrow> nat" where
  "entries ss = (\<Sum>s\<leftarrow>ss. length (filter (\<lambda>l. l \<noteq> []) (snap_lines s)))"

lemma parse_bounds:
  "parseKnownHostsLineError e ss = Some (i, line, reason) \<Longrightarrow>
     i < length ss \<and> 1 \<le> line \<and> line \<le> length (snap_lines (ss ! i))"
  by (induction ss arbitrary: i)
    (auto simp: Let_def split: if_splits option.splits)

lemma filter_clear_less:
  "j < length ls \<Longrightarrow> ls ! j \<noteq> [] \<Longrightarrow> length (filter (\<lambda>l. l \<noteq> []) (ls[j := []])) < length (filter (\<lambda>l. l \<noteq> []) ls)"
  by (induction ls arbitrary: j) (auto split: nat.splits)

lemma sum_list_upd_less:
  "i < length xs \<Longrightarrow> f y < (f (xs ! i) :: nat) \<Longrightarrow> (\<Sum>x\<leftarrow>xs[i := y]. f x) < (\<Sum>x\<leftarrow>xs. f x)"
  by (induction xs arbitrary: i) (auto split: nat.splits)

lemma entries_clear_less:
  assumes "parseKnownHostsLineError e ss = Some (i, line, reason)" "snap_lines (ss ! i) ! (line - 1) \<noteq> []"
  shows "entries (ss[i := (ss ! i)\<lparr>snap_lines := (snap_lines (ss ! i))[line - 1 := []]\<rparr>]) < entries ss"
  unfolding entries_def
  by (rule sum_list_upd_less) (use parse_bounds [OF assms(1)] assms(2) in \<open>auto intro!: filter_clear_less\<close>)

lemma malformedLoop_total:
  assumes "reports_nonempty newDB" "entries ss < n"
  shows "malformedLoop n newDB rewrite ss malformed \<noteq> None"
  using assms(2)
proof (induction n arbitrary: ss malformed)
  case (Suc n)
  have "entries (ss[i := (ss ! i)\<lparr>snap_lines := (snap_lines (ss ! i))[line - 1 := []]\<rparr>]) < n"
    if "newDB (map snapshotFile ss) = Inl e" "parseKnownHostsLineError e ss = Some (i, line, reason)" for e i line reason
    using entries_clear_less [OF that(2)] assms(1) that Suc.prems unfolding reports_nonempty_def by fastforce
  then show ?case
    using Suc.IH by (auto simp: Let_def split: sum.splits option.splits)
qed simp

text \<open>Every line is as it was, or cleared and reported.\<close>

definition reported :: "malformedKnownHost list \<Rightarrow> string \<Rightarrow> nat \<Rightarrow> bool" where
  "reported ms path line \<longleftrightarrow> (\<exists>m\<in>set ms. mk_path m = path \<and> mk_line m = line)"

definition kept_line :: "malformedKnownHost list \<Rightarrow> string \<Rightarrow> nat \<Rightarrow> string \<Rightarrow> string \<Rightarrow> bool" where
  "kept_line ms path line old new \<longleftrightarrow> new = old \<or> new = [] \<and> reported ms path line"

definition only_reported :: "knownHostsSnapshot list \<Rightarrow> knownHostsSnapshot list \<Rightarrow> malformedKnownHost list \<Rightarrow> bool" where
  "only_reported ss ss' ms \<longleftrightarrow> length ss' = length ss \<and>
     (\<forall>i<length ss. originalPath (ss' ! i) = originalPath (ss ! i) \<and>
        length (snap_lines (ss' ! i)) = length (snap_lines (ss ! i)) \<and>
        (\<forall>j<length (snap_lines (ss ! i)).
           kept_line ms (originalPath (ss ! i)) (Suc j) (snap_lines (ss ! i) ! j) (snap_lines (ss' ! i) ! j)))"

lemma kept_line_more: "kept_line ms path line old new \<Longrightarrow> kept_line (ms @ [m]) path line old new"
  by (auto simp: kept_line_def reported_def)

lemma kept_line_clear: "kept_line (ms @ [\<lparr>mk_path = path, mk_line = line, mk_reason = reason\<rparr>]) path line old []"
  by (simp add: kept_line_def reported_def)

lemma only_reported_clear:
  assumes "only_reported ss ss' ms" "i < length ss" "line \<le> length (snap_lines (ss' ! i))" "1 \<le> line"
  shows "only_reported ss (ss'[i := (ss' ! i)\<lparr>snap_lines := (snap_lines (ss' ! i))[line - 1 := []]\<rparr>])
    (ms @ [\<lparr>mk_path = originalPath (ss' ! i), mk_line = line, mk_reason = reason\<rparr>])"
proof -
  obtain l where l: "line = Suc l" using assms(4) by (cases line) auto
  show ?thesis
    using assms(1-3) unfolding only_reported_def l
    by (simp add: nth_list_update kept_line_more kept_line_clear)
qed

lemma malformedLoop_only_reported:
  assumes "malformedLoop n newDB rewrite ss' ms = Some (Inr (db, ms'))" "only_reported ss ss' ms"
  shows "\<exists>ss''. newDB (map snapshotFile ss'') = Inr db \<and> only_reported ss ss'' ms'"
  using assms
proof (induction n arbitrary: ss' ms)
  case (Suc n)
  show ?case
  proof (cases "newDB (map snapshotFile ss')")
    case (Inr db')
    with Suc.prems show ?thesis by auto
  next
    case (Inl e)
    then obtain i line reason where p: "parseKnownHostsLineError e ss' = Some (i, line, reason)"
      and r: "malformedLoop n newDB rewrite (ss'[i := (ss' ! i)\<lparr>snap_lines := (snap_lines (ss' ! i))[line - 1 := []]\<rparr>])
        (ms @ [\<lparr>mk_path = originalPath (ss' ! i), mk_line = line, mk_reason = reason\<rparr>]) = Some (Inr (db, ms'))"
      using Suc.prems(1) by (auto simp: Let_def split: option.splits)
    have "i < length ss" using parse_bounds [OF p] Suc.prems(2) by (simp add: only_reported_def)
    then show ?thesis
      using Suc.IH [OF r only_reported_clear [OF Suc.prems(2)]] parse_bounds [OF p] by simp
  qed
qed simp

text \<open>Malformed lines do not keep the known hosts from being read.  With at most one turn more than there are
  non-empty lines the loop ends, and a database it gives was built from the files with every line as
  it was, except for lines that are cleared and reported to the user.\<close>

theorem malformed_known_hosts:
  assumes "reports_nonempty newDB" "createKnownHostsSnapshots fs temp files = Inr ss" "entries ss < n"
  shows "\<exists>res. newKnownHostsDB n newDB rewrite temp fs files = Some res \<and>
    (\<forall>db ms. res = Inr (db, ms) \<and> ms \<noteq> [] \<longrightarrow>
       (\<exists>ss'. newDB (map snapshotFile ss') = Inr db \<and> only_reported ss ss' ms))"
proof -
  have refl: "only_reported ss ss []" by (simp add: only_reported_def kept_line_def)
  obtain res where "malformedLoop n newDB rewrite ss [] = Some res"
    using malformedLoop_total [OF assms(1,3)] by blast
  then show ?thesis
    using malformedLoop_only_reported [OF _ refl] assms(2)
    by (auto simp: newKnownHostsDB_def split: sum.splits)
qed

text \<open>A parser that refuses the first line of a file when it is \<open>bad\<close>.\<close>

definition demo_newDB :: "(string \<times> string) list \<Rightarrow> string result" where
  "demo_newDB files =
     (case files of [(t, c)] \<Rightarrow> if hd (Split c (CHR 0x0A)) = ''bad'' then Inl (''knownhosts: '' @ t @ '':1: no key'') else Inr c
      | _ \<Rightarrow> Inl ''other'')"

lemma demo_reports_nonempty: "reports_nonempty demo_newDB"
  unfolding reports_nonempty_def
proof (intro allI impI)
  fix ss :: "knownHostsSnapshot list" and e i line reason
  assume a: "demo_newDB (map snapshotFile ss) = Inl e \<and> parseKnownHostsLineError e ss = Some (i, line, reason)"
  show "snap_lines (ss ! i) ! (line - 1) \<noteq> []"
  proof (cases "\<exists>s. ss = [s]")
    case True
    then obtain s where s: "ss = [s]" by blast
    then have bad: "hd (Split (Join (snap_lines s) [CHR 0x0A]) (CHR 0x0A)) = ''bad''"
      and e: "e = (''knownhosts: '' @ temporaryPath s @ '':'') @ ''1: no key''"
      using a by (auto simp: demo_newDB_def snapshotFile_def split: if_splits)
    define pre where "pre = ''knownhosts: '' @ temporaryPath s @ '':''"
    have e': "e = pre @ ''1: no key''" unfolding e pre_def by (rule refl)
    have "Cut (TrimPrefix e pre) (CHR '':'') = Some (''1'', '' no key'')"
      by (simp add: e' TrimPrefix_def Cut_def)
    moreover have "HasPrefix e pre" by (simp add: e')
    moreover have "Atoi ''1'' = Some 1" by code_simp
    ultimately have "i = 0 \<and> line = 1"
      using a unfolding s parseKnownHostsLineError.simps(2) pre_def [symmetric] Let_def by (auto split: if_splits)
    moreover have "snap_lines s \<noteq> []" "snap_lines s ! 0 \<noteq> []"
      using bad by (cases "snap_lines s"; cases "tl (snap_lines s)"; auto)+
    ultimately show ?thesis using s by simp
  next
    case False
    then have "e = ''other''" using a by (auto simp: demo_newDB_def snapshotFile_def split: list.splits)
    moreover have "parseKnownHostsLineError ''other'' xs = None" for xs
      by (induction xs) (simp_all add: HasPrefix_def Let_def)
    ultimately show ?thesis using a by simp
  qed
qed

theorem malformed_known_hosts_witness:
  "\<exists>res. newKnownHostsDB 3 demo_newDB (\<lambda>_. None) (\<lambda>p. Inr (''/tmp'' @ p))
     [''/k'' \<mapsto> ''bad'' @ [CHR 0x0A] @ ''good''] [''/k''] = Some res"
  using malformed_known_hosts [OF demo_reports_nonempty, of "[''/k'' \<mapsto> ''bad'' @ [CHR 0x0A] @ ''good'']"
      "\<lambda>p. Inr (''/tmp'' @ p)" "[''/k'']" _ 3 "\<lambda>_. None"]
  by (auto simp: readFile_def entries_def)

section \<open>Removing keys\<close>

lemma outdated_empty [simp]: "\<not> outdatedLine target []"
proof -
  have "TrimSpace [] = []" by code_simp
  then show ?thesis by (simp add: outdatedLine_def)
qed


lemma demo_remove_lines:
  "Split (''# c'' @ [CHR 0x0A] @ ''h k'' @ [CHR 0x0A] @ ''g k'') (CHR 0x0A) = [''# c'', ''h k'', ''g k'']"
  by simp

lemma demo_outdated: "\<not> outdatedLine ''h'' ''# c''" "outdatedLine ''h'' ''h k''" "\<not> outdatedLine ''h'' ''g k''"
proof -
  have t: "TrimSpace ''# c'' = ''# c''" "TrimSpace ''h k'' = ''h k''" "TrimSpace ''g k'' = ''g k''" by code_simp+
  have f: "Fields ''h k'' = [''h'', ''k'']" "Fields ''g k'' = [''g'', ''k'']" by code_simp+
  have e: "EqualFold ''h'' ''h''" "\<not> EqualFold ''g'' ''h''" by code_simp+
  show "\<not> outdatedLine ''h'' ''# c''" "outdatedLine ''h'' ''h k''" "\<not> outdatedLine ''h'' ''g k''"
    using t f e by (simp_all add: outdatedLine_def matchKnownHosts_def HasPrefix_def)
qed


end
