(* ===== verification/Config.thy ===== *)
theory Config
  imports Args
begin

text \<open>
  The lookup of configuration values: \<open>tssh/config.go\<close>, the output of \<open>ssh -G\<close> in \<open>tssh/effective_config.go\<close>,
  and the environment variables of \<open>tssh/env.go\<close>.  A parsed configuration file is the interface of
  \<open>trzsz/ssh_config\<close>, the record \<open>sshConfig\<close> of its lookups; loading the files is left out.
\<close>

section \<open>State\<close>

text \<open>The arguments that the modelled code reads.\<close>

record sshArgs =
  a_Option :: sshOption
  a_Destination :: string
  a_originalDest :: string
  a_canonicalDest :: string
  a_LoginName :: string
  a_Port :: int
  a_ProxyJump :: string
  a_Command :: string
  a_Argument :: "string list"
  a_DisableTTY :: bool
  a_ForceTTY :: bool
  a_IPv4Only :: bool
  a_IPv6Only :: bool
  a_TCP :: bool
  a_UDP :: bool
  a_KCP :: bool
  a_QUIC :: bool
  a_Attach :: bool
  a_TsshdPath :: string
  a_TsshdPort :: string
  a_Identity :: "string list"
  a_ForwardAgent :: bool
  a_NoForwardAgent :: bool
  a_X11Forward :: bool
  a_NoX11Forward :: bool
  a_X11Trusted :: bool
  a_StdioForward :: string
  a_Subsystem :: bool
  a_NoCommand :: bool
  a_Background :: bool
  a_Reconnect :: bool
  a_ControlCmd :: string
  a_DNS :: string

text \<open>The zero value of Go.\<close>

definition zeroArgs :: sshArgs where
  [simp]: "zeroArgs =
     \<lparr>a_Option = (\<lambda>_. []), a_Destination = [], a_originalDest = [], a_canonicalDest = [], a_LoginName = [], a_Port = 0,
      a_ProxyJump = [], a_Command = [], a_Argument = [], a_DisableTTY = False, a_ForceTTY = False, a_IPv4Only = False,
      a_IPv6Only = False, a_TCP = False, a_UDP = False, a_KCP = False, a_QUIC = False, a_Attach = False,
      a_TsshdPath = [], a_TsshdPort = [], a_Identity = [], a_ForwardAgent = False, a_NoForwardAgent = False,
      a_X11Forward = False, a_NoX11Forward = False, a_X11Trusted = False, a_StdioForward = [], a_Subsystem = False,
      a_NoCommand = False, a_Background = False, a_Reconnect = False, a_ControlCmd = [], a_DNS = []\<rparr>"

record sshConfig =
  Get :: "string \<Rightarrow> string \<Rightarrow> string result"
  GetSplits :: "string \<Rightarrow> string \<Rightarrow> string list result"
  GetAll :: "string \<Rightarrow> string \<Rightarrow> string list result"
  GetAllSplits :: "string \<Rightarrow> string \<Rightarrow> string list result"

text \<open>The values of \<open>ssh -G\<close> by lower-case key, in order.\<close>

type_synonym effectiveSshConfig = "string \<Rightarrow> string list"

text \<open>The loaded files, \<open>nil\<close> when there is none, the use of OpenSSH for evaluation with what
  \<open>getEffectiveConfig\<close> returns, and \<open>ssh_config.SplitConfigValue\<close>.\<close>

record userConfig =
  uc_config :: "sshConfig option"
  uc_sysConfig :: "sshConfig option"
  uc_exConfig :: "sshConfig option"
  uc_useOpenSSH :: bool
  uc_effective :: "sshArgs \<Rightarrow> effectiveSshConfig option"
  SplitConfigValue :: "string \<Rightarrow> string \<Rightarrow> string list result"

section \<open>The output of ssh -G\<close>

definition effective_get :: "effectiveSshConfig option \<Rightarrow> string \<Rightarrow> string" where
  "effective_get c key = (case c of None \<Rightarrow> [] | Some vs \<Rightarrow> (case vs (ToLower key) of [] \<Rightarrow> [] | v # _ \<Rightarrow> v))"

definition effective_getAll :: "effectiveSshConfig option \<Rightarrow> string \<Rightarrow> string list" where
  "effective_getAll c key = (case c of None \<Rightarrow> [] | Some vs \<Rightarrow> vs (ToLower key))"

definition dumpLine :: "effectiveSshConfig \<Rightarrow> string \<Rightarrow> effectiveSshConfig" where
  "dumpLine cfg line0 =
     (let line = TrimSpace line0 in
      case IndexAny line [CHR '' '', CHR 0x09] of
        None \<Rightarrow> cfg
      | Some idx \<Rightarrow>
          if idx = 0 then cfg
          else let key = ToLower (TrimSpace (take idx line)); val = TrimSpace (drop (idx + 1) line) in
            if key = [] \<or> val = [] then cfg else cfg(key := cfg key @ [val]))"

text \<open>\<open>bufio.Scanner\<close> gives the lines, without a final empty one, and stops at a line that does not fit its buffer.\<close>

definition scanLines :: "string \<Rightarrow> string list" where
  "scanLines out = (let ls = Split out (CHR 0x0A) in
      takeWhile (\<lambda>l. length l < 65536) (if last ls = [] then butlast ls else ls))"

definition parseEffectiveConfigDump :: "string \<Rightarrow> effectiveSshConfig" where
  "parseEffectiveConfigDump out = foldl dumpLine (\<lambda>_. []) (scanLines out)"

text \<open>The arguments of \<open>ssh -G\<close>; the two paths are those of the user and the system configuration.\<close>

definition effectiveConfigCmdArgs :: "string \<Rightarrow> string \<Rightarrow> sshArgs \<Rightarrow> string list" where
  "effectiveConfigCmdArgs configPath sysConfigPath args =
     (let user = (if a_LoginName args \<noteq> [] then a_LoginName args else sshOption_get (a_Option args) ''user'');
          port = (if a_Port args > 0 then utoa (nat (a_Port args)) else sshOption_get (a_Option args) ''port'') in
      [''-G''] @
      (if sysConfigPath = [] then [''-F'', if configPath = [] then ''/dev/null'' else configPath] else []) @
      (if user \<noteq> [] then [''-l'', user] else []) @
      (if port \<noteq> [] then [''-p'', port] else []) @
      [a_originalDest args])"

type_synonym effectiveConfigCache = "string \<Rightarrow> effectiveSshConfig option option"

text \<open>\<open>run\<close> is the output of OpenSSH for the arguments, if it is installed and succeeds; the result says also
  whether it was run.\<close>

definition getEffectiveConfig :: "string \<Rightarrow> string \<Rightarrow> (string list \<Rightarrow> string result) \<Rightarrow> sshArgs \<Rightarrow> effectiveConfigCache
    \<Rightarrow> effectiveSshConfig option \<times> effectiveConfigCache \<times> bool" where
  "getEffectiveConfig configPath sysConfigPath run args cache =
     (if a_originalDest args = [] then (None, cache, False)
      else let cmdArgs = effectiveConfigCmdArgs configPath sysConfigPath args; cacheKey = Join cmdArgs [CHR 0x00] in
        case cache cacheKey of Some cfg \<Rightarrow> (cfg, cache, False)
        | None \<Rightarrow>
            (case run cmdArgs of
               Inl _ \<Rightarrow> (None, cache(cacheKey \<mapsto> None), True)
             | Inr out \<Rightarrow> let cfg = parseEffectiveConfigDump out in
                 (Some cfg, cache(cacheKey \<mapsto> Some cfg), True)))"

section \<open>Lookups\<close>

fun getCfg :: "string \<Rightarrow> string \<Rightarrow> sshConfig option list \<Rightarrow> string" where
  "getCfg alias key [] = []"
| "getCfg alias key (None # cfgs) = getCfg alias key cfgs"
| "getCfg alias key (Some cfg # cfgs) =
     (case Get cfg alias key of
        Inl _ \<Rightarrow> getCfg alias key cfgs
      | Inr v \<Rightarrow> if v \<noteq> [] then v else getCfg alias key cfgs)"

fun getCfgSplits :: "string \<Rightarrow> string \<Rightarrow> sshConfig option list \<Rightarrow> string list" where
  "getCfgSplits alias key [] = []"
| "getCfgSplits alias key (None # cfgs) = getCfgSplits alias key cfgs"
| "getCfgSplits alias key (Some cfg # cfgs) =
     (case GetSplits cfg alias key of
        Inl _ \<Rightarrow> getCfgSplits alias key cfgs
      | Inr vs \<Rightarrow> if vs \<noteq> [] then vs else getCfgSplits alias key cfgs)"

fun getAllCfg :: "string \<Rightarrow> string \<Rightarrow> sshConfig option list \<Rightarrow> string list" where
  "getAllCfg alias key [] = []"
| "getAllCfg alias key (None # cfgs) = getAllCfg alias key cfgs"
| "getAllCfg alias key (Some cfg # cfgs) =
     (case GetAll cfg alias key of Inl _ \<Rightarrow> [] | Inr vs \<Rightarrow> vs) @ getAllCfg alias key cfgs"

fun getAllCfgSplits :: "string \<Rightarrow> string \<Rightarrow> sshConfig option list \<Rightarrow> string list" where
  "getAllCfgSplits alias key [] = []"
| "getAllCfgSplits alias key (None # cfgs) = getAllCfgSplits alias key cfgs"
| "getAllCfgSplits alias key (Some cfg # cfgs) =
     (case GetAllSplits cfg alias key of Inl _ \<Rightarrow> [] | Inr vs \<Rightarrow> vs) @ getAllCfgSplits alias key cfgs"

definition getConfig :: "userConfig \<Rightarrow> sshArgs \<Rightarrow> string \<Rightarrow> string" where
  "getConfig uc args key =
     (let eff = (if uc_useOpenSSH uc then effective_get (uc_effective uc args) key else []) in
      if eff \<noteq> [] then eff
      else let v = getCfg (a_Destination args) key [uc_config uc, uc_sysConfig uc] in
        if v \<noteq> [] then v
        else if a_canonicalDest args \<noteq> [] then getCfg (a_canonicalDest args) key [uc_config uc, uc_sysConfig uc]
        else [])"

definition getConfigSplits :: "userConfig \<Rightarrow> sshArgs \<Rightarrow> string \<Rightarrow> string list" where
  "getConfigSplits uc args key =
     (let v = (if uc_useOpenSSH uc then effective_get (uc_effective uc args) key else []);
          eff = (if v = [] then [] else case SplitConfigValue uc key v of Inl _ \<Rightarrow> [] | Inr vs \<Rightarrow> vs) in
      if eff \<noteq> [] then eff
      else let vs = getCfgSplits (a_Destination args) key [uc_config uc, uc_sysConfig uc] in
        if vs \<noteq> [] then vs
        else if a_canonicalDest args \<noteq> [] then getCfgSplits (a_canonicalDest args) key [uc_config uc, uc_sysConfig uc]
        else [])"

definition getAllConfig :: "userConfig \<Rightarrow> sshArgs \<Rightarrow> string \<Rightarrow> string list" where
  "getAllConfig uc args key =
     (let eff = (if uc_useOpenSSH uc then effective_getAll (uc_effective uc args) key else []) in
      if eff \<noteq> [] then eff
      else getAllCfg (a_Destination args) key [uc_config uc, uc_sysConfig uc] @
        (if a_canonicalDest args \<noteq> [] then getAllCfg (a_canonicalDest args) key [uc_config uc, uc_sysConfig uc] else []))"

definition splitAll :: "userConfig \<Rightarrow> string \<Rightarrow> string list \<Rightarrow> string list" where
  "splitAll uc key values = concat (map (\<lambda>v. case SplitConfigValue uc key v of Inl _ \<Rightarrow> [] | Inr vs \<Rightarrow> vs) values)"

definition getAllConfigSplits :: "userConfig \<Rightarrow> sshArgs \<Rightarrow> string \<Rightarrow> string list" where
  "getAllConfigSplits uc args key =
     (let eff = (if uc_useOpenSSH uc then splitAll uc key (effective_getAll (uc_effective uc args) key) else []) in
      if eff \<noteq> [] then eff
      else getAllCfgSplits (a_Destination args) key [uc_config uc, uc_sysConfig uc] @
        (if a_canonicalDest args \<noteq> [] then getAllCfgSplits (a_canonicalDest args) key [uc_config uc, uc_sysConfig uc]
         else []))"

definition getExConfig :: "userConfig \<Rightarrow> sshArgs \<Rightarrow> string \<Rightarrow> string" where
  "getExConfig uc args key =
     (let cfgs = [uc_exConfig uc, uc_config uc, uc_sysConfig uc]; v = getCfg (a_Destination args) key cfgs in
      if v \<noteq> [] then v
      else if a_canonicalDest args \<noteq> [] then getCfg (a_canonicalDest args) key cfgs else [])"

definition getAllExConfig :: "userConfig \<Rightarrow> sshArgs \<Rightarrow> string \<Rightarrow> bool \<Rightarrow> string list" where
  "getAllExConfig uc args key ext =
     (if uc_useOpenSSH uc \<and> \<not> ext then getAllConfig uc args key
      else let cfgs = [uc_exConfig uc, uc_config uc, uc_sysConfig uc] in
        getAllCfg (a_Destination args) key cfgs @
        (if a_canonicalDest args \<noteq> [] then getAllCfg (a_canonicalDest args) key cfgs else []))"

definition getOptionConfig :: "userConfig \<Rightarrow> sshArgs \<Rightarrow> string \<Rightarrow> string" where
  "getOptionConfig uc args option =
     (let v = sshOption_get (a_Option args) option in if v \<noteq> [] then v else getConfig uc args option)"

definition getOptionConfigSplits :: "userConfig \<Rightarrow> sshArgs \<Rightarrow> string \<Rightarrow> string list" where
  "getOptionConfigSplits uc args option =
     (let v = sshOption_get (a_Option args) option in
      if v \<noteq> [] then (case SplitConfigValue uc option v of Inl _ \<Rightarrow> [] | Inr vs \<Rightarrow> vs)
      else getConfigSplits uc args option)"

definition getAllOptionConfig :: "userConfig \<Rightarrow> sshArgs \<Rightarrow> string \<Rightarrow> string list" where
  "getAllOptionConfig uc args option = sshOption_getAll (a_Option args) option @ getAllConfig uc args option"

definition getAllOptionConfigSplits :: "userConfig \<Rightarrow> sshArgs \<Rightarrow> string \<Rightarrow> string list" where
  "getAllOptionConfigSplits uc args option =
     splitAll uc option (sshOption_getAll (a_Option args) option) @ getAllConfigSplits uc args option"

definition getExOptionConfig :: "userConfig \<Rightarrow> sshArgs \<Rightarrow> string \<Rightarrow> string" where
  "getExOptionConfig uc args option =
     (let v = sshOption_get (a_Option args) option in if v \<noteq> [] then v else getExConfig uc args option)"

definition getAllExOptionConfig :: "userConfig \<Rightarrow> sshArgs \<Rightarrow> string \<Rightarrow> bool \<Rightarrow> string list" where
  "getAllExOptionConfig uc args option ext =
     sshOption_getAll (a_Option args) option @ getAllExConfig uc args option ext"

definition addGroupLabel :: "string list \<Rightarrow> string \<Rightarrow> string list" where
  "addGroupLabel labels l = (if l \<in> set labels then labels else labels @ [l])"

definition getGroupLabels :: "userConfig \<Rightarrow> sshArgs \<Rightarrow> string" where
  "getGroupLabels uc args =
     Join (foldl addGroupLabel [] (concat (map Fields (getAllExOptionConfig uc args ''GroupLabels'' True)))) '' ''"

section \<open>Environment variables\<close>

record sshEnv =
  env_name :: string
  env_value :: string

record sendEnvRule =
  rule_pattern :: string
  rule_negate :: bool
  rule_re :: "re_atom list"

text \<open>The expression \<open>^\<close>pattern\<open>$\<close>.\<close>

definition compileAnchored :: "string \<Rightarrow> re_atom list option" where
  "compileAnchored expr =
     (case runes expr of
        a # rs \<Rightarrow> if a = ''^'' then (case parseAtoms rs of Some (as, []) \<Rightarrow> Some as | _ \<Rightarrow> None) else None
      | [] \<Rightarrow> None)"

fun sendEnvRules :: "string list \<Rightarrow> sendEnvRule list result" where
  "sendEnvRules [] = Inr []"
| "sendEnvRules (env # envs) =
     (let negate = HasPrefix env ''-''; pattern = (if negate then drop 1 env else env) in
      if env = [] \<or> pattern = [] then sendEnvRules envs
      else let expr = ''^'' @ wildcardToRegexp pattern @ ''$'' in
        case compileAnchored expr of
          None \<Rightarrow> Inl (''compile SendEnv ['' @ env @ ''] regexp ['' @ expr @ ''] failed'')
        | Some re \<Rightarrow>
            (case sendEnvRules envs of Inl e \<Rightarrow> Inl e
             | Inr rules \<Rightarrow> Inr (\<lparr>rule_pattern = pattern, rule_negate = negate, rule_re = re\<rparr> # rules)))"

definition envOf :: "string \<Rightarrow> sshEnv" where
  "envOf env =
     (case IndexByte env (CHR ''='') of
        None \<Rightarrow> \<lparr>env_name = TrimSpace env, env_value = []\<rparr>
      | Some pos \<Rightarrow> \<lparr>env_name = TrimSpace (take pos env), env_value = TrimSpace (drop (pos + 1) env)\<rparr>)"

definition sendsEnv :: "sendEnvRule list \<Rightarrow> string \<Rightarrow> bool" where
  "sendsEnv rules name =
     (case find (\<lambda>r. matchAtoms (rule_re r) (runes name)) rules of None \<Rightarrow> False | Some r \<Rightarrow> \<not> rule_negate r)"

definition getSendEnvs :: "userConfig \<Rightarrow> sshArgs \<Rightarrow> string list \<Rightarrow> sshEnv list result" where
  "getSendEnvs uc args environ =
     (case sendEnvRules (getAllOptionConfigSplits uc args ''SendEnv'') of
        Inl e \<Rightarrow> Inl e
      | Inr rules \<Rightarrow> Inr (filter (\<lambda>e. sendsEnv rules (env_name e)) (map envOf environ)))"

fun parseSetEnvs :: "string list \<Rightarrow> sshEnv list result" where
  "parseSetEnvs [] = Inr []"
| "parseSetEnvs (token # tokens) =
     (case IndexByte token (CHR ''='') of
        None \<Rightarrow> Inl (''invalid SetEnv: '' @ token)
      | Some pos \<Rightarrow>
          if TrimSpace (take pos token) = [] then Inl (''invalid SetEnv: '' @ token)
          else (case parseSetEnvs tokens of Inl e \<Rightarrow> Inl e | Inr envs \<Rightarrow> Inr (envOf token # envs)))"

definition getSetEnvs :: "userConfig \<Rightarrow> sshArgs \<Rightarrow> sshEnv list result" where
  "getSetEnvs uc args = parseSetEnvs (getOptionConfigSplits uc args ''SetEnv'')"

text \<open>The terminal type, with the variables put to the session in order (also when \<open>SetEnv\<close> is invalid and
  the result is an error).\<close>

definition sendAndSetEnv :: "userConfig \<Rightarrow> sshArgs \<Rightarrow> string list \<Rightarrow> string \<Rightarrow> string result \<times> sshEnv list" where
  "sendAndSetEnv uc args environ osTerm =
     (case getSendEnvs uc args environ of Inl e \<Rightarrow> (Inl e, [])
      | Inr sendEnvs \<Rightarrow>
          (case getSetEnvs uc args of Inl e \<Rightarrow> (Inl e, sendEnvs)
           | Inr setEnvs \<Rightarrow>
               let term = foldl (\<lambda>t e. if env_name e = ''TERM'' then env_value e else t) [] setEnvs in
               (Inr (if term \<noteq> [] then term else if osTerm \<noteq> [] then osTerm else ''xterm-256color''),
                sendEnvs @ setEnvs)))"

end
