(* ===== verification/Login.thy ===== *)
theory Login
  imports Config Tokens SshTime DnsQuery
begin

text \<open>
  From the arguments to the target of a login: the destination, the canonical host name, the user, the port and
  the proxies of \<open>tssh/login.go\<close>, the remote command and terminal, and the mode, port ranges and server
  command of the UDP transport in \<open>tssh/udp.go\<close>.
\<close>

section \<open>Destinations\<close>

definition joinHostPort :: "string \<Rightarrow> string \<Rightarrow> string" where
  "joinHostPort host port =
     (if \<not> HasPrefix host ''['' \<and> CHR '':'' \<in> set host then ''['' @ host @ '']:'' @ port else host @ '':'' @ port)"

text \<open>\<open>strings.Index\<close> of a text.\<close>

fun Index :: "string \<Rightarrow> string \<Rightarrow> nat option" where
  "Index [] p = (if p = [] then Some 0 else None)"
| "Index (c # s) p = (if HasPrefix (c # s) p then Some 0 else map_option Suc (Index s p))"

definition parseDestination :: "string \<Rightarrow> string \<times> string \<times> string" where
  "parseDestination dest0 =
     (let (user, dest) = (case LastIndexByte dest0 (CHR ''@'') of
            Some idx \<Rightarrow> (TrimSpace (take idx dest0), drop (Suc idx) dest0)
          | None \<Rightarrow> ([], dest0));
          (port, host) = (case (Index dest '']:'', HasPrefix dest ''['') of
            (Some idx, True) \<Rightarrow>
              (TrimSpace (drop (idx + 2) dest), drop 1 (take idx dest))
          | _ \<Rightarrow> (case Split dest (CHR '':'') of [a, b] \<Rightarrow> (TrimSpace b, a) | _ \<Rightarrow> ([], dest))) in
      (user, TrimSpace host, port))"

text \<open>\<open>resolves\<close> says which names the resolver knows.\<close>

definition canonicalizeHost :: "userConfig \<Rightarrow> (string \<Rightarrow> bool) \<Rightarrow> sshArgs \<Rightarrow> string \<Rightarrow> string result" where
  "canonicalizeHost uc resolves args host =
     (let cfg = getOptionConfig uc args ''CanonicalizeMaxDots'';
          maxDots = (if cfg = [] then 1 else case ParseUint cfg 16 of None \<Rightarrow> 1 | Some v \<Rightarrow> v) in
      if count_list host (CHR ''.'') > maxDots then Inr host
      else let domains = getOptionConfigSplits uc args ''CanonicalDomains'' in
        if domains = [] then Inr host
        else case find resolves (map (\<lambda>d. host @ ''.'' @ d) domains) of
            Some candidate \<Rightarrow> Inr candidate
          | None \<Rightarrow>
              if EqualFold (getOptionConfig uc args ''CanonicalizeFallbackLocal'') ''no''
              then Inl (''could not resolve canonical hostname for ['' @ host @ '']'') else Inr host)"

section \<open>The UDP transport\<close>

datatype udpModeType = kUdpModeNo | kUdpModeYes | kUdpModeKcp | kUdpModeQuic

definition udpModeOf :: "string \<Rightarrow> udpModeType option" where
  "udpModeOf v =
     (let l = ToLower v in
      if l = ''no'' then Some kUdpModeNo else if l = ''yes'' then Some kUdpModeYes
      else if l = ''kcp'' then Some kUdpModeKcp else if l = ''quic'' then Some kUdpModeQuic else None)"

definition getUdpMode :: "userConfig \<Rightarrow> sshArgs \<Rightarrow> udpModeType" where
  "getUdpMode uc args =
     (if a_TCP args then kUdpModeNo
      else case udpModeOf (sshOption_get (a_Option args) ''UdpMode'') of
          Some mode \<Rightarrow> mode
        | None \<Rightarrow>
            if a_KCP args then kUdpModeKcp
            else if a_QUIC args then kUdpModeQuic
            else (case udpModeOf (getExConfig uc args ''UdpMode'') of
                Some kUdpModeYes \<Rightarrow> kUdpModeYes
              | Some kUdpModeKcp \<Rightarrow> kUdpModeKcp
              | Some kUdpModeQuic \<Rightarrow> kUdpModeQuic
              | _ \<Rightarrow> if a_UDP args \<or> a_Attach args then kUdpModeYes else kUdpModeNo))"

definition addPortRange :: "string \<Rightarrow> string option \<Rightarrow> (nat \<times> nat) list \<Rightarrow> (nat \<times> nat) list" where
  "addPortRange lowPort highPort ranges =
     (case ParseUint lowPort 16 of None \<Rightarrow> ranges
      | Some low \<Rightarrow>
          if low = 0 then ranges
          else case (case highPort of None \<Rightarrow> Some low | Some h \<Rightarrow> ParseUint h 16) of
              None \<Rightarrow> ranges
            | Some high \<Rightarrow> if high = 0 \<or> low > high then ranges else ranges @ [(low, high)])"

text \<open>The loop over the tokens of one segment; \<open>k\<close> is one more than the index of the last upper bound.\<close>

function portLoop :: "string list \<Rightarrow> nat \<Rightarrow> nat \<Rightarrow> (nat \<times> nat) list \<Rightarrow> (nat \<times> nat) list" where
  "portLoop tokens k i ranges =
     (if i \<ge> length tokens then ranges
      else let token = tokens ! i in
        if CHR ''-'' \<in> set token \<and> token \<noteq> ''-'' then
          (case Split token (CHR ''-'') of
             [a, b] \<Rightarrow> portLoop tokens k (i + 1) (if a = [] \<or> b = [] then ranges else addPortRange a (Some b) ranges)
           | _ \<Rightarrow> portLoop tokens k (i + 1) ranges)
        else if token = ''-'' then
          (if i = 0 \<or> i + 1 \<ge> length tokens \<or> i \<le> k then portLoop tokens k (i + 2) ranges
           else portLoop tokens (i + 2) (i + 2) (addPortRange (tokens ! (i - 1)) (Some (tokens ! (i + 1))) ranges))
        else if i + 1 < length tokens \<and> tokens ! (i + 1) = ''-'' then portLoop tokens k (i + 1) ranges
        else if i > 0 \<and> tokens ! (i - 1) = ''-'' then portLoop tokens k (i + 1) ranges
        else portLoop tokens k (i + 1) (addPortRange token None ranges))"
  by pat_completeness auto
termination by (relation "measure (\<lambda>(tokens, _, i, _). length tokens - i)") auto

declare portLoop.simps [simp del]

definition parseTsshdPortRanges :: "string \<Rightarrow> (nat \<times> nat) list" where
  "parseTsshdPortRanges tsshdPort =
     foldl (\<lambda>ranges seg. portLoop (Fields seg) 0 0 ranges) [] (Split tsshdPort (CHR '',''))"

definition printRange :: "nat \<times> nat \<Rightarrow> string" where
  "printRange r = (if fst r = snd r then utoa (fst r) else utoa (fst r) @ ''-'' @ utoa (snd r))"

definition getTsshdPath :: "userConfig \<Rightarrow> sshArgs \<Rightarrow> string" where
  "getTsshdPath uc args =
     (if a_TsshdPath args \<noteq> [] then a_TsshdPath args
      else let p = getExOptionConfig uc args ''TsshdPath'' in if p \<noteq> [] then p else ''tsshd'')"

text \<open>The network name and the forced address families.\<close>

definition getNetworkAddressFamily :: "userConfig \<Rightarrow> sshArgs \<Rightarrow> string \<times> bool \<times> bool" where
  "getNetworkAddressFamily uc args =
     (if a_IPv4Only args then (if a_IPv6Only args then (''tcp'', False, False) else (''tcp4'', True, False))
      else if a_IPv6Only args then (''tcp6'', False, True)
      else let f = ToLower (getOptionConfig uc args ''AddressFamily'') in
        if f = ''inet'' then (''tcp4'', True, False) else if f = ''inet6'' then (''tcp6'', False, True)
        else (''tcp'', False, False))"

text \<open>The command that starts the server; the timeout is in seconds, 10 by default.\<close>

definition getTsshdCommand :: "userConfig \<Rightarrow> sshArgs \<Rightarrow> udpModeType \<Rightarrow> bool \<Rightarrow> string \<Rightarrow> nat \<Rightarrow> bool \<Rightarrow> nat \<Rightarrow> string" where
  "getTsshdCommand uc args mode debugging tsshdPath mtu tcpMode connectTimeout =
     (let (_, ipv4, ipv6) = getNetworkAddressFamily uc args;
          p1 = a_TsshdPort args;
          p2 = (if p1 = [] then getExOptionConfig uc args ''TsshdPort'' else p1);
          tsshdPort = (if p2 = [] then getExOptionConfig uc args ''UdpPort'' else p2);
          ranges = (if tsshdPort = [] then [] else parseTsshdPortRanges tsshdPort) in
      tsshdPath @ (if mode = kUdpModeKcp then '' --kcp'' else []) @ (if tcpMode then '' --tcp'' else []) @
      (if debugging then '' --debug'' else []) @ (if ipv4 then '' --ipv4'' else []) @
      (if ipv6 then '' --ipv6'' else []) @ (if mtu > 0 then '' --mtu '' @ utoa mtu else []) @
      (if ranges \<noteq> [] then '' --port '' @ Join (map printRange ranges) '','' else []) @
      (if connectTimeout \<noteq> 10 then '' --connect-timeout '' @ utoa connectTimeout else []))"

definition getUdpTimeoutConfig :: "userConfig \<Rightarrow> sshArgs \<Rightarrow> string \<Rightarrow> nat \<Rightarrow> nat" where
  "getUdpTimeoutConfig uc args timeoutOption defaultTimeout =
     (let cfg = getExOptionConfig uc args timeoutOption in
      if cfg = [] then defaultTimeout
      else case convertSshTime cfg of Inl _ \<Rightarrow> defaultTimeout
        | Inr s \<Rightarrow> if s = 0 then defaultTimeout else unat s)"

text \<open>In seconds.\<close>

definition getConnectTimeout :: "userConfig \<Rightarrow> sshArgs \<Rightarrow> nat" where
  "getConnectTimeout uc args =
     (let cfg = getOptionConfig uc args ''ConnectTimeout'' in
      if cfg = [] then 10
      else case ParseUint cfg 32 of None \<Rightarrow> 10 | Some v \<Rightarrow> if v = 0 then 3600000 else v)"

section \<open>The target of a login\<close>

record sshParam =
  sp_args :: sshArgs
  sp_host :: string
  sp_user :: string
  sp_port :: string
  sp_addr :: string
  sp_proxies :: "string list"
  sp_command :: string
  sp_udpMode :: udpModeType

text \<open>The world outside: the resolver, SRV records, the name of the user, and the local host for tokens.\<close>

record login_env =
  le_resolves :: "string \<Rightarrow> bool"
  le_srv :: "string \<Rightarrow> (string \<times> nat) list result"
  le_currentUser :: "string result"
  le_tokens :: tokenEnv

definition tokensFor :: "userConfig \<Rightarrow> login_env \<Rightarrow> sshParam \<Rightarrow> tokenEnv" where
  "tokensFor uc env p =
     (le_tokens env)\<lparr>te_host := sp_host p, te_port := sp_port p, te_user := sp_user p,
       te_destination := a_Destination (sp_args p), te_proxies := sp_proxies p,
       te_hostKeyAlias := getOptionConfig uc (sp_args p) ''HostKeyAlias''\<rparr>"

definition getProxyParam :: "userConfig \<Rightarrow> sshParam \<Rightarrow> sshParam" where
  "getProxyParam uc p =
     (let args = sp_args p;
          j = (if a_ProxyJump args \<noteq> [] then a_ProxyJump args else sshOption_get (a_Option args) ''ProxyJump'');
          c = sshOption_get (a_Option args) ''ProxyCommand'';
          j' = getConfig uc args ''ProxyJump''; c' = getConfig uc args ''ProxyCommand'' in
      if EqualFold j ''none'' then p
      else if j \<noteq> [] then p\<lparr>sp_proxies := Split j (CHR '','')\<rparr>
      else if EqualFold c ''none'' then p
      else if c \<noteq> [] then p\<lparr>sp_command := c\<rparr>
      else if j' \<noteq> [] \<and> \<not> EqualFold j' ''none'' then p\<lparr>sp_proxies := Split j' (CHR '','')\<rparr>
      else if c' \<noteq> [] \<and> \<not> EqualFold c' ''none'' then p\<lparr>sp_command := c'\<rparr>
      else p)"

fun expandProxies :: "tokenEnv \<Rightarrow> string list \<Rightarrow> string list result" where
  "expandProxies env [] = Inr []"
| "expandProxies env (proxy # ps) =
     (case expandTokens (TrimSpace proxy) env ''%hnpr'' of
        Inl e \<Rightarrow> Inl (''expand ProxyJump ['' @ TrimSpace proxy @ ''] failed: '' @ e)
      | Inr x \<Rightarrow> (case expandProxies env ps of Inl e \<Rightarrow> Inl e | Inr xs \<Rightarrow> Inr (x # xs)))"

definition canonicalDest :: "userConfig \<Rightarrow> login_env \<Rightarrow> bool \<Rightarrow> sshArgs \<Rightarrow> string \<Rightarrow> string result" where
  "canonicalDest uc env proxy args host =
     (let v = getOptionConfig uc args ''CanonicalizeHostname'' in
      if EqualFold v ''true'' \<or> EqualFold v ''always'' \<or> \<not> proxy \<and> EqualFold v ''yes''
      then canonicalizeHost uc (le_resolves env) args host else Inr host)"

definition loginUser :: "userConfig \<Rightarrow> login_env \<Rightarrow> sshArgs \<Rightarrow> string \<Rightarrow> string result" where
  "loginUser uc env args destUser =
     (let cfg = getOptionConfig uc args ''User'' in
      if a_LoginName args \<noteq> [] then Inr (a_LoginName args)
      else if destUser \<noteq> [] then Inr destUser
      else if cfg \<noteq> [] then Inr cfg
      else case le_currentUser env of
          Inl e \<Rightarrow> Inl (''get current user failed: '' @ e)
        | Inr name \<Rightarrow>
            Inr (case LastIndexByte name (CHR 0x5C) of Some idx \<Rightarrow> drop (Suc idx) name | None \<Rightarrow> name))"

definition loginPort :: "userConfig \<Rightarrow> sshArgs \<Rightarrow> string \<Rightarrow> string" where
  "loginPort uc args destPort =
     (let cfg = getOptionConfig uc args ''Port'' in
      if a_Port args > 0 then utoa (nat (a_Port args)) else if destPort \<noteq> [] then destPort
      else if cfg \<noteq> [] then cfg else ''22'')"

text \<open>The host and port of an SRV record, if one is configured and found.\<close>

definition applySrv :: "userConfig \<Rightarrow> login_env \<Rightarrow> sshArgs \<Rightarrow> string \<times> string \<Rightarrow> string \<times> string" where
  "applySrv uc env args hp =
     (let name = getExOptionConfig uc args ''DnsSrvName'' in
      if name = [] then hp else case lookupDnsSrv (le_srv env name) of Inl _ \<Rightarrow> hp | Inr hp' \<Rightarrow> hp')"

definition getSshParam :: "userConfig \<Rightarrow> login_env \<Rightarrow> sshArgs \<Rightarrow> bool \<Rightarrow> sshParam result" where
  "getSshParam uc env args0 proxy =
     (case parseDestination (a_Destination args0) of (destUser, destHost, destPort) \<Rightarrow>
      if destHost = [] then Inl (''invalid destination (empty host): '' @ a_Destination args0)
      else let args1 = args0\<lparr>a_originalDest := (if a_originalDest args0 = [] then a_Destination args0 else a_originalDest args0),
                             a_Destination := destHost\<rparr> in
        case canonicalDest uc env proxy args1 destHost of Inl e \<Rightarrow> Inl e
        | Inr host0 \<Rightarrow>
            let args = (if host0 \<noteq> destHost then args1\<lparr>a_canonicalDest := host0\<rparr> else args1);
                p0 = \<lparr>sp_args = args, sp_host = host0, sp_user = [], sp_port = [], sp_addr = [], sp_proxies = [],
                      sp_command = [], sp_udpMode = kUdpModeNo\<rparr>;
                hostName = getOptionConfig uc args ''HostName'' in
            case (if hostName = [] then Inr host0 else expandTokens hostName (tokensFor uc env p0) ''%h'') of
              Inl e \<Rightarrow> Inl (''expand HostName ['' @ hostName @ ''] failed: '' @ e)
            | Inr host1 \<Rightarrow>
                (case loginUser uc env args destUser of Inl e \<Rightarrow> Inl e
                 | Inr user \<Rightarrow>
                     (case applySrv uc env args (host1, loginPort uc args destPort) of (host, port) \<Rightarrow>
                        let p1 = getProxyParam uc (p0\<lparr>sp_host := host, sp_user := user, sp_port := port,
                                   sp_addr := joinHostPort host port\<rparr>) in
                        case expandProxies (tokensFor uc env p1) (sp_proxies p1) of Inl e \<Rightarrow> Inl e
                        | Inr ps \<Rightarrow> Inr (p1\<lparr>sp_proxies := ps, sp_udpMode := getUdpMode uc args\<rparr>))))"

section \<open>The remote command\<close>

text \<open>\<open>quote\<close> is \<open>shellescape.QuoteCommand\<close>.\<close>

definition parseRemoteCommand :: "userConfig \<Rightarrow> login_env \<Rightarrow> (string list \<Rightarrow> string) \<Rightarrow> sshParam \<Rightarrow> string result" where
  "parseRemoteCommand uc env quote p =
     (let args = sp_args p; opt = sshOption_get (a_Option args) ''RemoteCommand'' in
      if a_Command args \<noteq> [] \<and> opt \<noteq> [] \<and> \<not> EqualFold opt ''none''
      then Inl ''cannot execute command-line and remote command''
      else if a_Command args \<noteq> [] then
        Inr (if a_Argument args = [] then a_Command args else quote (a_Command args # a_Argument args))
      else let command = (if opt = [] then getConfig uc args ''RemoteCommand'' else opt) in
        if command = [] \<or> EqualFold command ''none'' then Inr []
        else (case expandTokens command (tokensFor uc env p) ''%CdhijkLlnpru'' of
            Inl e \<Rightarrow> Inl (''expand RemoteCommand ['' @ command @ ''] failed: '' @ e)
          | Inr c \<Rightarrow> Inr c))"

definition parseCmdAndTTY :: "userConfig \<Rightarrow> login_env \<Rightarrow> (string list \<Rightarrow> string) \<Rightarrow> bool \<Rightarrow> sshParam \<Rightarrow> (string \<times> bool) result" where
  "parseCmdAndTTY uc env quote isTerminal p =
     (case parseRemoteCommand uc env quote p of Inl e \<Rightarrow> Inl e
      | Inr cmd \<Rightarrow>
          let args = sp_args p; r = ToLower (getOptionConfig uc args ''RequestTTY'') in
          if a_DisableTTY args \<and> a_ForceTTY args then Inl ''cannot specify -t with -T''
          else if a_DisableTTY args then Inr (cmd, False)
          else if a_ForceTTY args then Inr (cmd, True)
          else if r = [] \<or> r = ''auto'' then Inr (cmd, isTerminal \<and> cmd = [])
          else if r = ''no'' \<or> r = ''false'' then Inr (cmd, False)
          else if r = ''force'' then Inr (cmd, True)
          else if r = ''yes'' \<or> r = ''true'' then Inr (cmd, isTerminal)
          else Inl (''unknown RequestTTY option: '' @ getOptionConfig uc args ''RequestTTY''))"

end
