(* ===== verification/LoginProps.thy ===== *)
theory LoginProps
  imports Login
begin

text \<open>
  The order in which configuration sources are consulted, which environment variables are sent, and the
  syntax of destinations and port ranges.
\<close>

section \<open>Configuration\<close>

definition first_nonempty :: "string list \<Rightarrow> string" where
  "first_nonempty vs = (case dropWhile (\<lambda>v. v = []) vs of [] \<Rightarrow> [] | v # _ \<Rightarrow> v)"

lemma first_nonempty_simps [simp]:
  "first_nonempty [] = []" "first_nonempty (v # vs) = (if v \<noteq> [] then v else first_nonempty vs)"
  by (simp_all add: first_nonempty_def)

lemma first_nonempty_append: "first_nonempty (vs @ ws) = (if first_nonempty vs \<noteq> [] then first_nonempty vs else first_nonempty ws)"
  by (induction vs) auto

text \<open>The value in one file: none for a missing file and for an error.\<close>

definition file_value :: "string \<Rightarrow> string \<Rightarrow> sshConfig option \<Rightarrow> string" where
  "file_value alias key c = (case c of None \<Rightarrow> [] | Some cfg \<Rightarrow> (case Get cfg alias key of Inl _ \<Rightarrow> [] | Inr v \<Rightarrow> v))"

lemma getCfg_first: "getCfg alias key cfgs = first_nonempty (map (file_value alias key) cfgs)"
  by (induction "alias" key cfgs rule: getCfg.induct) (auto simp: file_value_def split: sum.splits)

text \<open>The files for a destination and then for its canonical name, if it has one.\<close>

definition file_values :: "sshArgs \<Rightarrow> string \<Rightarrow> sshConfig option list \<Rightarrow> string list" where
  "file_values args key cfgs = map (file_value (a_Destination args) key) cfgs @
     (if a_canonicalDest args \<noteq> [] then map (file_value (a_canonicalDest args) key) cfgs else [])"

text \<open>The value of an option is the first non-empty one of: the command line, the evaluation by OpenSSH when it is
  used, the user's and the system's configuration for the destination, and the same for its canonical name;
  an extended option is looked up on the command line and then in the extended, the user's and the
  system's configuration.  A file that fails is passed over.\<close>

theorem config_precedence:
  "getOptionConfig uc args opt = first_nonempty
     ([sshOption_get (a_Option args) opt, if uc_useOpenSSH uc then effective_get (uc_effective uc args) opt else []] @
      file_values args opt [uc_config uc, uc_sysConfig uc]) \<and>
   getExOptionConfig uc args opt = first_nonempty
     (sshOption_get (a_Option args) opt # file_values args opt [uc_exConfig uc, uc_config uc, uc_sysConfig uc])"
  unfolding file_values_def
  by (simp add: getOptionConfig_def getExOptionConfig_def getConfig_def getExConfig_def getCfg_first
      first_nonempty_append Let_def)

section \<open>Environment variables\<close>

lemma compileAnchored_wildcard:
  assumes "ascii p"
  shows "compileAnchored (''^'' @ wildcardToRegexp p @ ''$'') = Some (map atomOf p)"
  using parseAtoms_wildcard [OF assms, of "[]"] ascii_wildcard [OF assms]
  by (simp add: compileAnchored_def runes_ascii)

text \<open>The rules as patterns, with their sign.\<close>

definition envPatterns :: "string list \<Rightarrow> (bool \<times> string) list" where
  "envPatterns envs = filter (\<lambda>(_, p). p \<noteq> [])
     (map (\<lambda>e. if HasPrefix e ''-'' then (False, drop 1 e) else (True, e)) envs)"

definition ruleOf :: "bool \<times> string \<Rightarrow> sendEnvRule" where
  "ruleOf bp = \<lparr>rule_pattern = snd bp, rule_negate = \<not> fst bp, rule_re = map atomOf (snd bp)\<rparr>"

lemma sendEnvRules_patterns:
  "\<forall>e\<in>set envs. ascii e \<Longrightarrow> sendEnvRules envs = Inr (map ruleOf (envPatterns envs))"
proof (induction envs)
  case (Cons e envs)
  have "ascii (drop 1 e)" using Cons.prems by (cases e) auto
  then have "compileAnchored (''^'' @ wildcardToRegexp (if HasPrefix e ''-'' then drop 1 e else e) @ ''$'') =
      Some (map atomOf (if HasPrefix e ''-'' then drop 1 e else e))"
    using Cons.prems by (intro compileAnchored_wildcard) auto
  then show ?case
    using Cons by (auto simp: envPatterns_def ruleOf_def Let_def HasPrefix_def simp del: append.simps split: if_splits)
qed (simp add: envPatterns_def)

text \<open>The first pattern that matches decides.\<close>

definition sent_by :: "string list \<Rightarrow> string \<Rightarrow> bool" where
  "sent_by envs name =
     (case find (\<lambda>(_, p). glob p name) (envPatterns envs) of None \<Rightarrow> False | Some (b, _) \<Rightarrow> b)"

lemma sendsEnv_sent_by:
  assumes "ascii name" "CHR 0x0A \<notin> set name"
  shows "sendsEnv (map ruleOf ps) name = (case find (\<lambda>(_, p). glob p name) ps of None \<Rightarrow> False | Some (b, _) \<Rightarrow> b)"
proof -
  have "matchAtoms (rule_re (ruleOf bp)) (runes name) = glob (snd bp) name" for bp
    by (simp only: ruleOf_def runes_ascii [OF assms(1)] matchAtoms_glob [OF assms(2)] sendEnvRule.simps)
  then have "find (\<lambda>r. matchAtoms (rule_re r) (runes name)) (map ruleOf ps) =
      map_option ruleOf (find (\<lambda>(_, p). glob p name) ps)"
    by (induction ps) (simp_all split: prod.split)
  then show ?thesis
    by (simp add: sendsEnv_def ruleOf_def split: option.split)
qed

text \<open>Exactly the variables whose first matching \<open>SendEnv\<close> pattern is positive are sent, with their values and in the
  order of the environment; patterns are wildcards, and a leading minus sign makes one negative.\<close>

theorem sendEnv_first_match:
  assumes "\<forall>e\<in>set (getAllOptionConfigSplits uc args ''SendEnv''). ascii e"
    and "\<forall>v\<in>set environ. ascii (env_name (envOf v)) \<and> CHR 0x0A \<notin> set (env_name (envOf v))"
  shows "getSendEnvs uc args environ =
    Inr (filter (\<lambda>e. sent_by (getAllOptionConfigSplits uc args ''SendEnv'') (env_name e)) (map envOf environ))"
  using sendEnvRules_patterns [OF assms(1)] assms(2)
  by (auto simp: getSendEnvs_def sent_by_def sendsEnv_sent_by intro!: filter_cong)

definition demo_uc :: userConfig where
  "demo_uc = \<lparr>uc_config = None, uc_sysConfig = None, uc_exConfig = None, uc_useOpenSSH = False,
     uc_effective = (\<lambda>_. None), SplitConfigValue = (\<lambda>_ v. Inr (Split v (CHR '' '')))\<rparr>"

definition demo_args :: sshArgs where
  "demo_args = zeroArgs\<lparr>a_Option := (\<lambda>k. if k = ''sendenv'' then [''-LC_ALL LC_*''] else []), a_Destination := ''h'',
     a_originalDest := ''h''\<rparr>"

lemma demo_sendEnv: "getAllOptionConfigSplits demo_uc demo_args ''SendEnv'' = [''-LC_ALL'', ''LC_*'']"
  by code_simp

lemma demo_envs: "map envOf [''LC_ALL=C'', ''LC_TIME=C'', ''HOME=/''] =
    [\<lparr>env_name = ''LC_ALL'', env_value = ''C''\<rparr>, \<lparr>env_name = ''LC_TIME'', env_value = ''C''\<rparr>, \<lparr>env_name = ''HOME'', env_value = ''/''\<rparr>]"
  by code_simp

theorem sendEnv_first_match_witness:
  "getSendEnvs demo_uc demo_args [''LC_ALL=C'', ''LC_TIME=C'', ''HOME=/''] = Inr [\<lparr>env_name = ''LC_TIME'', env_value = ''C''\<rparr>]"
proof -
  have s: "\<not> sent_by [''-LC_ALL'', ''LC_*''] ''LC_ALL''" "sent_by [''-LC_ALL'', ''LC_*''] ''LC_TIME''"
    "\<not> sent_by [''-LC_ALL'', ''LC_*''] ''HOME''"
    by code_simp+
  show ?thesis
    using sendEnv_first_match [of demo_uc demo_args "[''LC_ALL=C'', ''LC_TIME=C'', ''HOME=/'']"] demo_envs s
    by (simp add: demo_sendEnv)
qed

section \<open>Port ranges\<close>

definition range_ok :: "nat \<times> nat \<Rightarrow> bool" where
  "range_ok r \<longleftrightarrow> 1 \<le> fst r \<and> fst r \<le> snd r \<and> snd r \<le> 65535"

lemma ParseUint_16: "ParseUint s 16 = Some v \<Longrightarrow> v \<le> 65535"
  using ParseUint_bound [of s 16 v] by simp

lemma addPortRange_ok: "list_all range_ok ranges \<Longrightarrow> list_all range_ok (addPortRange l h ranges)"
  by (auto simp: addPortRange_def range_ok_def dest: ParseUint_16 split: option.splits)

lemma portLoop_ok: "list_all range_ok ranges \<Longrightarrow> list_all range_ok (portLoop tokens k i ranges)"
proof (induction "length tokens - i" arbitrary: k i ranges rule: less_induct)
  case less
  show ?case
  proof (cases "i \<ge> length tokens")
    case True
    then show ?thesis using less.prems by (subst portLoop.simps) simp
  next
    case False
    then have later: "list_all range_ok (portLoop tokens k' j rs)" if "i < j" "list_all range_ok rs" for k' j rs
      using less.hyps that by simp
    show ?thesis
      unfolding portLoop.simps [of tokens k i ranges] Let_def
      using less.prems by (simp add: later addPortRange_ok split: list.split)
  qed
qed

lemma parseTsshdPortRanges_ok: "list_all range_ok (parseTsshdPortRanges s)"
proof -
  have "list_all range_ok (foldl (\<lambda>ranges seg. portLoop (Fields seg) 0 0 ranges) ranges segs)"
    if "list_all range_ok ranges" for ranges segs
    using that by (induction segs arbitrary: ranges) (simp_all add: portLoop_ok)
  then show ?thesis by (simp add: parseTsshdPortRanges_def)
qed

lemma digit_facts:
  assumes "is_digit c"
  shows "\<not> IsSpace [c]" "(of_char c :: nat) < 128" "c \<noteq> CHR '',''" "c \<noteq> CHR ''-''"
  using assms by (auto simp: is_digit_def byte_in_def dest: IsSpace_small)

lemma solid_utoa [simp]: "solid (utoa n)" "CHR '','' \<notin> set (utoa n)" "CHR ''-'' \<notin> set (utoa n)"
  using list_all_digit_utoa [of n] digit_facts unfolding solid_def ascii_def list_all_iff by blast+

lemma solid_range: "solid (printRange r)" "printRange r \<noteq> []" "CHR '','' \<notin> set (printRange r)"
proof -
  have "solid ''-''" by code_simp
  then have "solid (utoa a @ ''-'' @ utoa b)" for a b
    using solid_append [of "utoa a" "''-'' @ utoa b"] solid_append [of "''-''" "utoa b"] by (simp only: solid_utoa)
  then show "solid (printRange r)" "printRange r \<noteq> []" "CHR '','' \<notin> set (printRange r)"
    by (auto simp: printRange_def simp del: solid_append)
qed

lemma portLoop_print:
  assumes "range_ok r"
  shows "portLoop [printRange r] 0 0 ranges = ranges @ [r]"
proof -
  have b: "fst r < 2 ^ 16" "snd r < 2 ^ 16" using assms by (auto simp: range_ok_def)
  have stop: "portLoop [t] 0 1 rs = rs" for t rs by (subst portLoop.simps) simp
  show ?thesis
  proof (cases "fst r = snd r")
    case True
    then have "printRange r = utoa (fst r)" by (simp add: printRange_def)
    moreover have "utoa (fst r) \<noteq> ''-''" using solid_utoa(3) [of "fst r"] by (metis list.set_intros(1))
    ultimately show ?thesis
      using True assms b stop
      by (simp add: portLoop.simps [of _ _ 0] addPortRange_def range_ok_def prod_eq_iff)
  next
    case False
    have "Split (utoa (fst r) @ ''-'' @ utoa (snd r)) (CHR ''-'') = [utoa (fst r), utoa (snd r)]"
      by (simp add: Split_append Split_notin)
    moreover have "utoa (fst r) @ ''-'' @ utoa (snd r) \<noteq> ''-''" by (cases "utoa (fst r)") auto
    ultimately show ?thesis
      using False assms b stop
      by (simp add: portLoop.simps [of _ _ 0] printRange_def addPortRange_def range_ok_def)
  qed
qed

lemma foldl_ranges:
  "list_all range_ok rs \<Longrightarrow> foldl (\<lambda>ranges seg. portLoop (Fields seg) 0 0 ranges) acc (map printRange rs) = acc @ rs"
  by (induction rs arbitrary: acc) (auto simp: Fields_solid solid_range portLoop_print)

text \<open>C28: the port ranges for the server are valid whatever the configuration says (every range goes from a low to a high
  port between 1 and 65535), and the text that is passed on to the server stands for exactly these
  ranges: parsing it again gives the same list.\<close>

theorem port_ranges_faithful:
  "list_all range_ok (parseTsshdPortRanges s) \<and>
   parseTsshdPortRanges (Join (map printRange (parseTsshdPortRanges s)) '','') = parseTsshdPortRanges s"
proof
  show ok: "list_all range_ok (parseTsshdPortRanges s)" by (rule parseTsshdPortRanges_ok)
  define rs where "rs = parseTsshdPortRanges s"
  have "parseTsshdPortRanges [] = []"
    by (simp add: parseTsshdPortRanges_def Fields_def portLoop.simps)
  moreover have "parseTsshdPortRanges (Join (map printRange rs) '','') = rs" if "rs \<noteq> []"
  proof -
    have "Split (Join (map printRange rs) '','') (CHR '','') = map printRange rs"
      using that solid_range(3) by (intro Split_Join) auto
    then show ?thesis
      using foldl_ranges [of rs "[]"] ok [folded rs_def] by (simp add: parseTsshdPortRanges_def)
  qed
  ultimately show "parseTsshdPortRanges (Join (map printRange (parseTsshdPortRanges s)) '','') = parseTsshdPortRanges s"
    unfolding rs_def [symmetric] by (cases "rs = []") auto
qed

section \<open>Destinations\<close>

text \<open>A destination as a user writes it: an optional user, the host, in brackets when a port follows and it has
  colons, and an optional port.\<close>

definition printDestination :: "string \<Rightarrow> string \<Rightarrow> string \<Rightarrow> string" where
  "printDestination user host port =
     (if user = [] then [] else user @ ''@'') @ (if port = [] then host else joinHostPort host port)"

definition host_ok :: "string \<Rightarrow> bool" where
  "host_ok host \<longleftrightarrow> solid host \<and> CHR ''@'' \<notin> set host \<and> CHR ''['' \<notin> set host \<and> CHR '']'' \<notin> set host"

definition port_ok :: "string \<Rightarrow> bool" where
  "port_ok port \<longleftrightarrow> solid port \<and> CHR ''@'' \<notin> set port \<and> CHR '':'' \<notin> set port"

lemma Index_bracket: "CHR '']'' \<notin> set a \<Longrightarrow> Index (a @ '']:'' @ r) '']:'' = Some (length a)"
  by (induction a) (auto simp: HasPrefix_def)

lemma Split_once: "CHR '':'' \<notin> set a \<Longrightarrow> CHR '':'' \<notin> set b \<Longrightarrow> Split (a @ '':'' @ b) (CHR '':'') = [a, b]"
  using Split_append [of "CHR '':''" a b] by (simp add: Split_notin)

lemma length_Split: "length (Split s c) = Suc (count_list s c)"
  by (induction s) (auto split: list.splits)

lemma Split_not_two: "count_list s c \<noteq> 1 \<Longrightarrow> (case Split s c of [a, b] \<Rightarrow> f a b | _ \<Rightarrow> g) = g"
  using length_Split [of s c] by (auto split: list.splits)

lemma no_bracket: "host_ok host \<Longrightarrow> \<not> HasPrefix (host @ r) ''['' \<or> host = []"
  by (cases host) (auto simp: host_ok_def HasPrefix_def)

text \<open>The part after the user.\<close>

lemma parseDestination_plain:
  assumes "host_ok host" "port_ok port" "host \<noteq> []" "port = [] \<Longrightarrow> count_list host (CHR '':'') \<noteq> 1"
  shows "parseDestination (if port = [] then host else joinHostPort host port) = ([], host, port)"
proof -
  have at: "LastIndexByte (if port = [] then host else joinHostPort host port) (CHR ''@'') = None"
    using assms(1,2) by (auto simp: LastIndexByte_None joinHostPort_def host_ok_def port_ok_def)
  have trim: "TrimSpace host = host" "TrimSpace port = port"
    using assms(1,2) by (auto simp: host_ok_def port_ok_def TrimSpace_solid)
  have hb: "\<not> HasPrefix (host @ r) ''[''" for r using no_bracket [OF assms(1)] assms(3) by blast
  consider (none) "port = []" | (colon) "port \<noteq> []" "CHR '':'' \<in> set host" | (plain) "port \<noteq> []" "CHR '':'' \<notin> set host"
    by blast
  then show ?thesis
  proof cases
    case none
    then show ?thesis
      using at trim hb [of "[]"] assms(4)
      by (simp add: parseDestination_def Split_not_two split: option.split)
  next
    case colon
    have "Index (''['' @ host @ '']:'' @ port) '']:'' = Some (Suc (length host))"
      using Index_bracket [of "''['' @ host" port] assms(1) by (simp add: host_ok_def)
    moreover have "joinHostPort host port = ''['' @ host @ '']:'' @ port"
      using colon hb [of "[]"] by (simp add: joinHostPort_def)
    ultimately show ?thesis
      using colon at trim by (simp add: parseDestination_def HasPrefix_def)
  next
    case plain
    then have "joinHostPort host port = host @ '':'' @ port" by (simp add: joinHostPort_def)
    moreover have "Split (host @ '':'' @ port) (CHR '':'') = [host, port]"
      using plain assms(2) by (intro Split_once) (auto simp: port_ok_def)
    ultimately show ?thesis
      using plain at trim hb by (simp add: parseDestination_def split: option.split)
  qed
qed

lemma parseDestination_user:
  assumes "CHR ''@'' \<notin> set rest"
  shows "parseDestination (user @ ''@'' @ rest) = (TrimSpace user, snd (parseDestination rest))"
proof -
  have "LastIndexByte (user @ ''@'' @ rest) (CHR ''@'') = Some (length user)"
    using LastIndexByte_append [OF assms, of user] by simp
  moreover have "LastIndexByte rest (CHR ''@'') = None" using assms by (simp add: LastIndexByte_None)
  ultimately show ?thesis by (simp add: parseDestination_def split: prod.split)
qed

text \<open>A destination is understood as it was written: user, host and port of \<open>user@host:port\<close>, with an IPv6 address
  in brackets before a port, and without brackets when there is none.  In particular the address that a
  login connects to is read back as its host and port.\<close>

theorem parseDestination_print:
  assumes "host_ok host" "port_ok port" "solid user" "host \<noteq> []" "port = [] \<Longrightarrow> count_list host (CHR '':'') \<noteq> 1"
  shows "parseDestination (printDestination user host port) = (user, host, port)"
proof -
  let ?rest = "if port = [] then host else joinHostPort host port"
  note plain = parseDestination_plain [OF assms(1,2,4,5)]
  have "CHR ''@'' \<notin> set ?rest"
    using assms(1,2) by (auto simp: joinHostPort_def host_ok_def port_ok_def)
  then show ?thesis
    using plain parseDestination_user [of ?rest user] TrimSpace_solid [OF assms(3)]
    unfolding printDestination_def by (cases "user = []") simp_all
qed

theorem parseDestination_print_witness:
  "parseDestination (printDestination ''me'' ''fe80::1'' ''22'') = (''me'', ''fe80::1'', ''22'')"
proof (rule parseDestination_print)
  show "host_ok ''fe80::1''" "port_ok ''22''" "solid ''me''" by code_simp+
qed simp_all

section \<open>The target of a login\<close>

lemma getProxyParam_keeps [simp]:
  "sp_args (getProxyParam uc q) = sp_args q" "sp_host (getProxyParam uc q) = sp_host q"
  "sp_user (getProxyParam uc q) = sp_user q" "sp_port (getProxyParam uc q) = sp_port q"
  "sp_addr (getProxyParam uc q) = sp_addr q"
  by (simp_all add: getProxyParam_def Let_def)

lemma getSshParam_fields:
  assumes "getSshParam uc env args proxy = Inr p" "parseDestination (a_Destination args) = (destUser, destHost, destPort)"
  shows "\<exists>host1. destHost \<noteq> [] \<and> a_Destination (sp_args p) = destHost \<and> a_LoginName (sp_args p) = a_LoginName args \<and>
    a_Port (sp_args p) = a_Port args \<and> loginUser uc env (sp_args p) destUser = Inr (sp_user p) \<and>
    applySrv uc env (sp_args p) (host1, loginPort uc (sp_args p) destPort) = (sp_host p, sp_port p) \<and>
    sp_addr p = joinHostPort (sp_host p) (sp_port p)"
  using assms by (auto simp: getSshParam_def Let_def split: sum.splits prod.splits if_splits)

lemma loginPort_first:
  "loginPort uc args destPort =
     first_nonempty [if a_Port args > 0 then utoa (nat (a_Port args)) else [], destPort, getOptionConfig uc args ''Port'', ''22'']"
  by (simp add: loginPort_def Let_def)

lemma loginUser_first:
  assumes "loginUser uc env args destUser = Inr user"
  shows "let given = first_nonempty [a_LoginName args, destUser, getOptionConfig uc args ''User''] in
    given \<noteq> [] \<and> user = given \<or> given = [] \<and> (\<exists>name. le_currentUser env = Inr name \<and> suffix user name)"
  using assms by (auto simp: loginUser_def Let_def suffix_drop split: if_splits sum.splits option.splits)

text \<open>The target of a login: the host is not empty, the address is the host and port, the user is the first that is
  given of \<open>-l\<close>, the destination and the configuration, or else the user of the system without its
  domain, and the port, when no SRV record is configured, is the first that is given of \<open>-p\<close>, the
  destination and the configuration, or else 22.\<close>

theorem login_target:
  assumes "getSshParam uc env args proxy = Inr p" "parseDestination (a_Destination args) = (destUser, destHost, destPort)"
  shows "destHost \<noteq> [] \<and> a_Destination (sp_args p) = destHost \<and>
    sp_addr p = joinHostPort (sp_host p) (sp_port p) \<and>
    (let given = first_nonempty [a_LoginName args, destUser, getOptionConfig uc (sp_args p) ''User''] in
     given \<noteq> [] \<and> sp_user p = given \<or>
     given = [] \<and> (\<exists>name. le_currentUser env = Inr name \<and> suffix (sp_user p) name)) \<and>
    (getExOptionConfig uc (sp_args p) ''DnsSrvName'' = [] \<longrightarrow>
       sp_port p = first_nonempty [if a_Port args > 0 then utoa (nat (a_Port args)) else [], destPort,
         getOptionConfig uc (sp_args p) ''Port'', ''22''])"
proof -
  obtain host1 where f: "destHost \<noteq> []" "a_Destination (sp_args p) = destHost" "a_LoginName (sp_args p) = a_LoginName args"
    "a_Port (sp_args p) = a_Port args" "loginUser uc env (sp_args p) destUser = Inr (sp_user p)"
    "applySrv uc env (sp_args p) (host1, loginPort uc (sp_args p) destPort) = (sp_host p, sp_port p)"
    "sp_addr p = joinHostPort (sp_host p) (sp_port p)"
    using getSshParam_fields [OF assms] by blast
  have "sp_port p = loginPort uc (sp_args p) destPort" if "getExOptionConfig uc (sp_args p) ''DnsSrvName'' = []"
    using f(6) that by (simp add: applySrv_def)
  then show ?thesis
    using f(1,2,7) loginUser_first [OF f(5)] unfolding f(3) loginPort_first f(4) by blast
qed

definition demo_login_env :: login_env where
  "demo_login_env = \<lparr>le_resolves = (\<lambda>_. False), le_srv = (\<lambda>_. Inl []), le_currentUser = Inr ''user'',
     le_tokens = \<lparr>te_host = [], te_port = [], te_user = [], te_destination = [], te_proxies = [], te_hostname = [],
       te_openSSH = None, te_openSshPath = [], te_hostKeyAlias = []\<rparr>\<rparr>"

lemma demo_target: "map_sum id sp_addr (getSshParam demo_uc (demo_login_env) (demo_args\<lparr>a_Destination := ''me@h:2222''\<rparr>) False)
    = Inr ''h:2222''"
  by code_simp

lemma demo_destination: "parseDestination ''me@h:2222'' = (''me'', ''h'', ''2222'')"
  by code_simp

theorem login_target_witness:
  "\<exists>p. getSshParam demo_uc demo_login_env (demo_args\<lparr>a_Destination := ''me@h:2222''\<rparr>) False = Inr p \<and> sp_user p = ''me'' \<and>
     sp_addr p = ''h:2222''"
proof -
  obtain p where p: "getSshParam demo_uc demo_login_env (demo_args\<lparr>a_Destination := ''me@h:2222''\<rparr>) False = Inr p"
    "sp_addr p = ''h:2222''"
    using demo_target by (cases "getSshParam demo_uc demo_login_env (demo_args\<lparr>a_Destination := ''me@h:2222''\<rparr>) False") auto
  have "sp_user p = ''me''"
    using login_target [OF p(1), of "''me''" "''h''" "''2222''"] demo_destination by (simp add: Let_def demo_args_def)
  then show ?thesis using p by blast
qed

end
