(* ===== verification/Expect.thy ===== *)
theory Expect
  imports Login
begin

text \<open>
  \<open>tssh/expect.go\<close>: answers that are typed for the user when the server's output matches a pattern.  The
  secrets of the configuration (\<open>decodeSecret\<close>, an AES-GCM decryption) and one-time passwords are
  parameters; the output of the server is the sequence of chunks that the loop receives.
\<close>

section \<open>Quoted output\<close>

text \<open>The number of a rune, from its UTF-8 bytes.\<close>

fun rune_value :: "string \<Rightarrow> nat" where
  "rune_value [a] = of_char a"
| "rune_value [a, b] = (of_char a mod 32) * 64 + of_char b mod 64"
| "rune_value [a, b, c] = (of_char a mod 16) * 4096 + (of_char b mod 64) * 64 + of_char c mod 64"
| "rune_value [a, b, c, d] =
     (of_char a mod 8) * 262144 + (of_char b mod 64) * 4096 + (of_char c mod 64) * 64 + of_char d mod 64"
| "rune_value _ = 0"

fun hex_digits :: "nat \<Rightarrow> nat \<Rightarrow> string" where
  "hex_digits 0 n = []"
| "hex_digits (Suc k) n = hex_digits k (n div 16) @ [hex_digit (n mod 16)]"

text \<open>One rune of \<open>strconv.QuoteToASCII\<close>, with the bytes it comes from; a rune below \<open>utf8.RuneSelf\<close> is one byte.\<close>

definition quoteASCII :: "string \<times> string \<Rightarrow> string" where
  "quoteASCII sr =
     (case sr of (src, r) \<Rightarrow>
      let v = rune_value r; esc = (\<lambda>c. [CHR 0x5C, c]) in
      if length src = 1 \<and> r = rune_error then [CHR 0x5C, CHR ''x''] @ hex_digits 2 (of_char (hd src))
      else if r = [CHR 0x22] \<or> r = [CHR 0x5C] then CHR 0x5C # r
      else if length r = 1 \<and> v \<ge> 32 \<and> v < 127 then r
      else if v = 7 then esc (CHR ''a'') else if v = 8 then esc (CHR ''b'')
      else if v = 12 then esc (CHR ''f'') else if v = 10 then esc (CHR ''n'')
      else if v = 13 then esc (CHR ''r'') else if v = 9 then esc (CHR ''t'')
      else if v = 11 then esc (CHR ''v'')
      else if v < 32 \<or> v = 127 then [CHR 0x5C, CHR ''x''] @ hex_digits 2 v
      else if v < 65536 then [CHR 0x5C, CHR ''u''] @ hex_digits 4 v
      else [CHR 0x5C, CHR ''U''] @ hex_digits 8 v)"

text \<open>The text between the quotes.\<close>

definition QuoteToASCII :: "string \<Rightarrow> string" where
  "QuoteToASCII s = concat (map quoteASCII (range_runes s))"

section \<open>Patterns\<close>

text \<open>An expression without anchors, and the search for it anywhere in a text.\<close>

definition compileFree :: "string \<Rightarrow> re_atom list option" where
  "compileFree expr = (case parseAtoms (runes expr @ [''$'']) of Some (as, []) \<Rightarrow> Some as | _ \<Rightarrow> None)"

definition searchAtoms :: "re_atom list \<Rightarrow> string list \<Rightarrow> bool" where
  "searchAtoms as s = list_ex (\<lambda>i. list_ex (\<lambda>k. matchAtoms as (take k (drop i s))) [0..<Suc (length s)]) [0..<Suc (length s)]"

section \<open>Writing\<close>

text \<open>The server's input: the writes so far, and how many more succeed, if not all.\<close>

record exp_writer =
  xw_out :: "string list"
  xw_left :: "nat option"

definition xwrite :: "string \<Rightarrow> exp_writer \<Rightarrow> bool \<times> exp_writer" where
  "xwrite s w =
     (case xw_left w of
        None \<Rightarrow> (True, w\<lparr>xw_out := xw_out w @ [s]\<rparr>)
      | Some 0 \<Rightarrow> (False, w)
      | Some (Suc n) \<Rightarrow> (True, w\<lparr>xw_out := xw_out w @ [s], xw_left := Some n\<rparr>))"

fun xwrites :: "string list \<Rightarrow> exp_writer \<Rightarrow> bool \<times> exp_writer" where
  "xwrites [] w = (True, w)"
| "xwrites (s # ss) w = (case xwrite s w of (ok, w') \<Rightarrow> if ok then xwrites ss w' else (False, w'))"

section \<open>Senders\<close>

record expectSender =
  es_passwd :: bool
  es_input :: string

definition newPassSender :: "string \<Rightarrow> expectSender option" where
  "newPassSender input = (if input = [] then None else Some \<lparr>es_passwd = True, es_input = input\<rparr>)"

definition newTextSender :: "string \<Rightarrow> expectSender option" where
  "newTextSender input = (if input = [] then None else Some \<lparr>es_passwd = False, es_input = input\<rparr>)"

record expectSendText =
  showText :: string
  sendText :: string

text \<open>A text whose tokens cannot be expanded is sent as it is.\<close>

definition newSendText :: "tokenEnv \<Rightarrow> bool \<Rightarrow> string \<Rightarrow> string \<Rightarrow> expectSendText" where
  "newSendText env debugging shown sent =
     (let expand = (\<lambda>t. case expandTokens t env ''%hprnLlj'' of Inl _ \<Rightarrow> t | Inr x \<Rightarrow> x) in
      \<lparr>showText = (if debugging then expand shown else []), sendText = expand sent\<rparr>)"

text \<open>The loop of \<open>decodeText\<close>: \<open>i\<close> is the position of the next rune, \<open>idx\<close> the start of the current text.\<close>

fun decodeLoop :: "string \<Rightarrow> nat \<Rightarrow> nat \<Rightarrow> bool \<Rightarrow> string \<Rightarrow> (string \<times> string) list \<Rightarrow> (string \<times> string) list" where
  "decodeLoop text i idx esc buf [] = [(drop idx text, if esc then buf @ [CHR 0x5C] else buf)]"
| "decodeLoop text i idx esc buf ((src, c) # rs) =
     (let j = i + length src in
      if \<not> esc then
        (if c = [CHR 0x5C] then decodeLoop text j idx True buf rs
         else decodeLoop text j idx False (buf @ c) rs)
      else if c = [CHR 0x5C] then decodeLoop text j idx False (buf @ [CHR 0x5C]) rs
      else if c = ''r'' then decodeLoop text j idx False (buf @ [CHR 0x0D]) rs
      else if c = ''n'' then decodeLoop text j idx False (buf @ [CHR 0x0A]) rs
      else if c = ''t'' then decodeLoop text j idx False (buf @ [CHR 0x09]) rs
      else if c = ''|'' then (drop idx (take (i - 1) text), buf) # decodeLoop text j (i + 1) False [] rs
      else decodeLoop text j idx False (buf @ [CHR 0x5C] @ c) rs)"

definition decodeText :: "tokenEnv \<Rightarrow> bool \<Rightarrow> string \<Rightarrow> expectSendText list" where
  "decodeText env debugging text =
     map (\<lambda>(shown, sent). newSendText env debugging shown sent) (decodeLoop text 0 0 False [] (range_runes text))"

text \<open>A password is sent byte by byte, and then a carriage return; the pauses are left out.\<close>

definition sendInput :: "tokenEnv \<Rightarrow> bool \<Rightarrow> expectSender option \<Rightarrow> exp_writer \<Rightarrow> bool \<times> exp_writer" where
  "sendInput env debugging sender w =
     (case sender of None \<Rightarrow> (True, w)
      | Some s \<Rightarrow>
          if es_passwd s then xwrites (map (\<lambda>c. [c]) (es_input s) @ [[CHR 0x0D]]) w
          else xwrites (filter (\<lambda>t. t \<noteq> []) (map sendText (decodeText env debugging (es_input s)))) w)"

definition getExpectSleepTime :: "userConfig \<Rightarrow> sshArgs \<Rightarrow> string \<Rightarrow> nat" where
  "getExpectSleepTime uc args pre =
     (let v = getExOptionConfig uc args (pre @ ''ExpectSleepMS'') in
      if v = [] then 100 else case ParseUint v 32 of None \<Rightarrow> 100 | Some n \<Rightarrow> n)"

definition getExpectPsssSleep :: "userConfig \<Rightarrow> sshArgs \<Rightarrow> string \<Rightarrow> bool \<times> bool" where
  "getExpectPsssSleep uc args pre =
     (let v = ToLower (getExOptionConfig uc args (pre @ ''ExpectPassSleep'')) in
      if v = ''each'' then (True, False) else if v = ''enter'' then (False, True) else (False, False))"

section \<open>Cases\<close>

record caseSend =
  cs_pattern :: string
  cs_sender :: "expectSender option"
  cs_re :: "re_atom list"
  cs_buffer :: string

text \<open>\<open>strings.IndexFunc(config, unicode.IsSpace)\<close>.\<close>

fun indexSpace :: "nat \<Rightarrow> (string \<times> string) list \<Rightarrow> nat option" where
  "indexSpace i [] = None"
| "indexSpace i ((src, r) # rs) = (if IsSpace r then Some i else indexSpace (i + length src) rs)"

definition splitConfig :: "string \<Rightarrow> (string \<times> string) result" where
  "splitConfig config =
     (let invalid = Inl (''invalid expect case send: '' @ config) in
      case indexSpace 0 (range_runes config) of
        None \<Rightarrow> invalid
      | Some index \<Rightarrow>
          let pattern = TrimSpace (take index config); send = TrimSpace (drop (index + 1) config) in
          if index = 0 \<or> pattern = [] \<or> send = [] then invalid else Inr (pattern, send))"

definition addCase :: "re_atom list \<Rightarrow> string \<Rightarrow> expectSender option \<Rightarrow> caseSend list \<Rightarrow> caseSend list" where
  "addCase re pattern sender cs = cs @ [\<lparr>cs_pattern = pattern, cs_sender = sender, cs_re = re, cs_buffer = []\<rparr>]"

definition addCaseSendPass :: "(string \<Rightarrow> string result) \<Rightarrow> string \<Rightarrow> caseSend list \<Rightarrow> caseSend list result" where
  "addCaseSendPass decodeSecret config cs =
     (case splitConfig config of Inl e \<Rightarrow> Inl e
      | Inr (pattern, secret) \<Rightarrow>
          (case compileFree (wildcardToRegexp pattern) of
             None \<Rightarrow> Inl (''compile expect expr ['' @ wildcardToRegexp pattern @ ''] failed'')
           | Some re \<Rightarrow>
               (case decodeSecret secret of
                  Inl e \<Rightarrow> Inl (''decode secret ['' @ secret @ ''] failed: '' @ e)
                | Inr pass \<Rightarrow> Inr (addCase re pattern (newPassSender pass) cs))))"

definition addCaseSendText :: "string \<Rightarrow> caseSend list \<Rightarrow> caseSend list result" where
  "addCaseSendText config cs =
     (case splitConfig config of Inl e \<Rightarrow> Inl e
      | Inr (pattern, text) \<Rightarrow>
          (case compileFree (wildcardToRegexp pattern) of
             None \<Rightarrow> Inl (''compile expect expr ['' @ wildcardToRegexp pattern @ ''] failed'')
           | Some re \<Rightarrow> Inr (addCase re pattern (newTextSender text) cs)))"

text \<open>An invalid case is only a warning.\<close>

definition addCases :: "(string \<Rightarrow> caseSend list \<Rightarrow> caseSend list result) \<Rightarrow> string list \<Rightarrow> caseSend list \<Rightarrow> caseSend list" where
  "addCases add cfgs cs = foldl (\<lambda>c cfg. case add cfg c of Inl _ \<Rightarrow> c | Inr c' \<Rightarrow> c') cs cfgs"

fun handleOutput :: "tokenEnv \<Rightarrow> bool \<Rightarrow> string \<Rightarrow> caseSend list \<Rightarrow> exp_writer \<Rightarrow> caseSend list \<times> exp_writer" where
  "handleOutput env debugging output [] w = ([], w)"
| "handleOutput env debugging output (c # cs) w =
     (let buf = cs_buffer c @ output; hit = searchAtoms (cs_re c) (runes buf);
          w1 = (if hit then snd (sendInput env debugging (cs_sender c) w) else w);
          (cs', w') = handleOutput env debugging output cs w1 in
      (c\<lparr>cs_buffer := if hit then [] else buf\<rparr> # cs', w'))"

section \<open>Interactions\<close>

text \<open>What the loop receives: a chunk of output (an empty one from a closed channel), or the end of the context.
  Chunks that are drained after a match are not received.\<close>

datatype exp_event = Output string | CtxDone

text \<open>The environment: token values, debug output, the decryption of secrets, and one-time passwords.\<close>

record exp_env =
  xe_uc :: userConfig
  xe_args :: sshArgs
  xe_pre :: string
  xe_tokens :: tokenEnv
  xe_debug :: bool
  decodeSecret :: "string \<Rightarrow> string result"
  getTotpCode :: "string \<Rightarrow> string"
  getOtpCommandOutput :: "string \<Rightarrow> string \<Rightarrow> string"

text \<open>The loop of \<open>waitForPattern\<close>: the output seen at the match, with the events left and the writer, or
  \<^term>\<open>None\<close> while it is still waiting.\<close>

fun waitLoop :: "exp_env \<Rightarrow> string \<Rightarrow> re_atom list \<Rightarrow> caseSend list \<Rightarrow> string \<Rightarrow> exp_writer \<Rightarrow> exp_event list
    \<Rightarrow> (string result \<times> exp_event list) option \<times> exp_writer" where
  "waitLoop env pattern re cs builder w [] = (None, w)"
| "waitLoop env pattern re cs builder w (CtxDone # es) = (Some (Inl ''context done'', es), w)"
| "waitLoop env pattern re cs builder w (Output buf # es) =
     (if buf = [] then waitLoop env pattern re cs builder w es
      else let output = QuoteToASCII buf;
               (cs', w') = handleOutput (xe_tokens env) (xe_debug env) output cs w;
               b = builder @ output in
        if pattern \<noteq> [] \<and> searchAtoms re (runes b) then (Some (Inr b, es), w')
        else waitLoop env pattern re cs' b w' es)"

definition waitForPattern :: "exp_env \<Rightarrow> string \<Rightarrow> caseSend list \<Rightarrow> exp_writer \<Rightarrow> exp_event list
    \<Rightarrow> (string result \<times> exp_event list) option \<times> exp_writer" where
  "waitForPattern env pattern cs w es =
     (case compileFree (wildcardToRegexp pattern) of
        None \<Rightarrow> (Some (Inl (''compile expect expr ['' @ wildcardToRegexp pattern @ ''] failed''), es), w)
      | Some re \<Rightarrow> waitLoop env pattern re cs [] w es)"

definition expectOption :: "exp_env \<Rightarrow> string \<Rightarrow> nat \<Rightarrow> string" where
  "expectOption env name idx = getExOptionConfig (xe_uc env) (xe_args env) (xe_pre env @ name @ utoa idx)"

definition getExpectSender :: "exp_env \<Rightarrow> nat \<Rightarrow> string \<Rightarrow> expectSender option" where
  "getExpectSender env idx question =
     (let pass = expectOption env ''ExpectSendPass'' idx; text = expectOption env ''ExpectSendText'' idx;
          encTotp = expectOption env ''ExpectSendEncTotp'' idx; encOtp = expectOption env ''ExpectSendEncOtp'' idx;
          totp = expectOption env ''ExpectSendTotp'' idx; otp = expectOption env ''ExpectSendOtp'' idx in
      if pass \<noteq> [] then (case decodeSecret env pass of Inl _ \<Rightarrow> None | Inr s \<Rightarrow> newPassSender s)
      else if text \<noteq> [] then newTextSender text
      else if encTotp \<noteq> [] then (case decodeSecret env encTotp of Inl _ \<Rightarrow> None | Inr s \<Rightarrow> newPassSender (getTotpCode env s))
      else if encOtp \<noteq> [] then
        (case decodeSecret env encOtp of Inl _ \<Rightarrow> None | Inr c \<Rightarrow> newPassSender (getOtpCommandOutput env c question))
      else if totp \<noteq> [] then newPassSender (getTotpCode env totp)
      else if otp \<noteq> [] then newPassSender (getOtpCommandOutput env otp question)
      else None)"

definition expectCases :: "exp_env \<Rightarrow> nat \<Rightarrow> caseSend list" where
  "expectCases env idx =
     (let all = (\<lambda>name. getAllExOptionConfig (xe_uc env) (xe_args env) (xe_pre env @ name @ utoa idx) True) in
      addCases addCaseSendText (all ''ExpectCaseSendText'')
        (addCases (addCaseSendPass (decodeSecret env)) (all ''ExpectCaseSendPass'') []))"

text \<open>The interactions from number \<open>idx\<close>, of which \<open>n\<close> are left; the context is done when its end is received next.\<close>

fun execInteractions :: "exp_env \<Rightarrow> nat \<Rightarrow> nat \<Rightarrow> exp_writer \<Rightarrow> exp_event list \<Rightarrow> exp_writer" where
  "execInteractions env idx 0 w es = w"
| "execInteractions env idx (Suc n) w es =
     (case waitForPattern env (expectOption env ''ExpectPattern'' idx) (expectCases env idx) w es of
        (None, w') \<Rightarrow> w'
      | (Some (Inl e, _), w') \<Rightarrow> w'
      | (Some (Inr question, es'), w') \<Rightarrow>
          if es' \<noteq> [] \<and> hd es' = CtxDone then w'
          else (case sendInput (xe_tokens env) (xe_debug env) (getExpectSender env idx question) w' of
              (ok, w2) \<Rightarrow> if ok then execInteractions env (Suc idx) n w2 es' else w2))"

definition getExpectCount :: "userConfig \<Rightarrow> sshArgs \<Rightarrow> string \<Rightarrow> nat" where
  "getExpectCount uc args pre =
     (let v = getExOptionConfig uc args (pre @ ''ExpectCount'') in
      if v = [] then 0 else case ParseUint v 32 of None \<Rightarrow> 0 | Some n \<Rightarrow> n)"

definition getExpectTimeout :: "userConfig \<Rightarrow> sshArgs \<Rightarrow> string \<Rightarrow> nat" where
  "getExpectTimeout uc args pre =
     (let v = getExOptionConfig uc args (pre @ ''ExpectTimeout'') in
      if v = [] then 30 else case ParseUint v 32 of None \<Rightarrow> 30 | Some n \<Rightarrow> n)"

end
