(* ===== verification/ExpectProps.thy ===== *)
theory ExpectProps
  imports Expect
begin

text \<open>
  Scripted answers: the escapes of a text are undone exactly, nothing is sent before the pattern of the
  step was seen, and what happens when the server closes its output.
\<close>

section \<open>Escapes\<close>

text \<open>The texts without their positions.\<close>

fun decodes :: "bool \<Rightarrow> string \<Rightarrow> string list \<Rightarrow> string list" where
  "decodes esc buf [] = [if esc then buf @ [CHR 0x5C] else buf]"
| "decodes esc buf (c # rs) =
     (if \<not> esc then (if c = [CHR 0x5C] then decodes True buf rs else decodes False (buf @ c) rs)
      else if c = [CHR 0x5C] then decodes False (buf @ [CHR 0x5C]) rs
      else if c = ''r'' then decodes False (buf @ [CHR 0x0D]) rs
      else if c = ''n'' then decodes False (buf @ [CHR 0x0A]) rs
      else if c = ''t'' then decodes False (buf @ [CHR 0x09]) rs
      else if c = ''|'' then buf # decodes False [] rs
      else decodes False (buf @ [CHR 0x5C] @ c) rs)"

lemma decodeLoop_decodes: "map snd (decodeLoop text i idx esc buf rs) = decodes esc buf (map snd rs)"
  by (induction "text" i idx esc buf rs rule: decodeLoop.induct) (simp_all add: Let_def)

definition escapeChar :: "char \<Rightarrow> string" where
  "escapeChar c =
     (if c = CHR 0x5C then [CHR 0x5C, CHR 0x5C] else if c = CHR 0x0D then [CHR 0x5C, CHR ''r'']
      else if c = CHR 0x0A then [CHR 0x5C, CHR ''n''] else if c = CHR 0x09 then [CHR 0x5C, CHR ''t''] else [c])"

text \<open>The value of the option for a sequence of texts, with a pause between two.\<close>

definition escapeTexts :: "string list \<Rightarrow> string" where
  "escapeTexts ts = Join (map (\<lambda>t. concat (map escapeChar t)) ts) [CHR 0x5C, CHR ''|'']"

lemma decodes_escape: "decodes False buf (singles (concat (map escapeChar t)) @ rs) = decodes False (buf @ t) rs"
  by (induction t arbitrary: buf) (auto simp: escapeChar_def)

lemma decodes_texts: "ts \<noteq> [] \<Longrightarrow> decodes False [] (singles (escapeTexts ts)) = ts"
proof (induction ts)
  case (Cons t ts)
  show ?case
  proof (cases ts)
    case Nil
    then show ?thesis using decodes_escape [of "[]" t "[]"] by (simp add: escapeTexts_def)
  next
    case (Cons u us)
    then have "singles (escapeTexts (t # ts)) =
        singles (concat (map escapeChar t)) @ [[CHR 0x5C], ''|''] @ singles (escapeTexts ts)"
      by (simp add: escapeTexts_def)
    then show ?thesis using decodes_escape [of "[]" t] Cons.IH Cons by simp
  qed
qed simp

lemma ascii_Join: "\<forall>x\<in>set xs. ascii x \<Longrightarrow> ascii sep \<Longrightarrow> ascii (Join xs sep)"
  by (induction xs sep rule: Join.induct) auto

lemma ascii_escape: "\<forall>t\<in>set ts. ascii t \<Longrightarrow> ascii (escapeTexts ts)"
proof -
  have "ascii (concat (map escapeChar t))" if "ascii t" for t
    using that by (induction t) (auto simp: escapeChar_def)
  then show "\<forall>t\<in>set ts. ascii t \<Longrightarrow> ascii (escapeTexts ts)"
    unfolding escapeTexts_def by (intro ascii_Join) auto
qed

text \<open>The escapes of \<open>ExpectSendText\<close> can express every sequence of texts: written with backslash escapes and
  separated by \<open>\|\<close>, the texts are sent exactly as they were meant, when they have no percent sign.\<close>

theorem decodeText_escape:
  assumes "ts \<noteq> []" "\<forall>t\<in>set ts. ascii t \<and> CHR ''%'' \<notin> set t"
  shows "map sendText (decodeText env debugging (escapeTexts ts)) = ts"
proof -
  define xs where "xs = decodeLoop (escapeTexts ts) 0 0 False [] (range_runes (escapeTexts ts))"
  have xs: "map snd xs = ts"
    using assms decodes_texts [of ts] ascii_escape [of ts]
    by (simp add: xs_def decodeLoop_decodes range_runes_ascii comp_def)
  have "sendText (newSendText env debugging (fst x) (snd x)) = snd x" if "x \<in> set xs" for x
    using that assms(2) xs by (auto simp: newSendText_def expandTokens_def)
  then have "map (\<lambda>x. sendText (newSendText env debugging (fst x) (snd x))) xs = map snd xs" by simp
  then show ?thesis by (simp add: decodeText_def xs_def [symmetric] xs comp_def split_def)
qed

theorem decodeText_escape_witness:
  "map sendText (decodeText demo_env True (escapeTexts [''ls'' @ [CHR 0x0D], [CHR 0x5C] @ ''|''])) =
     [''ls'' @ [CHR 0x0D], [CHR 0x5C] @ ''|'']"
  by (rule decodeText_escape) auto

section \<open>Waiting for the pattern\<close>

text \<open>A text of one line in ASCII.\<close>

definition one_line :: "string \<Rightarrow> bool" where
  "one_line s \<longleftrightarrow> ascii s \<and> CHR 0x0A \<notin> set s"

lemma one_line_simps [simp]:
  "one_line []" "one_line (c # s) \<longleftrightarrow> (of_char c :: nat) < 128 \<and> c \<noteq> CHR 0x0A \<and> one_line s"
  "one_line (s @ t) \<longleftrightarrow> one_line s \<and> one_line t"
  by (auto simp: one_line_def)

lemma one_line_if: "(b \<Longrightarrow> one_line x) \<Longrightarrow> (\<not> b \<Longrightarrow> one_line y) \<Longrightarrow> one_line (if b then x else y)"
  by simp

lemma hex_digits_line: "one_line (hex_digits k n)"
proof (induction k arbitrary: n)
  case (Suc k)
  have "byte_in 48 57 (hex_digit (n mod 16)) \<or> byte_in 97 102 (hex_digit (n mod 16))"
    by (rule hex_digit_safe) simp
  then have "(of_char (hex_digit (n mod 16)) :: nat) < 128 \<and> hex_digit (n mod 16) \<noteq> CHR 0x0A"
    by (auto simp: byte_in_def)
  then show ?case using Suc by simp
qed simp

lemma printable_line: "length r = 1 \<and> rune_value r \<ge> 32 \<and> rune_value r < 127 \<Longrightarrow> one_line r"
  by (cases r) auto

lemma quoteASCII_line: "one_line (quoteASCII (src, r))"
  unfolding quoteASCII_def Let_def prod.case
  by (intro one_line_if) (use printable_line [of r] hex_digits_line in auto)

lemma QuoteToASCII_line: "one_line (QuoteToASCII s)"
proof -
  have "one_line (concat (map quoteASCII rs))" for rs
    by (induction rs) (auto simp: quoteASCII_line)
  then show ?thesis by (simp add: QuoteToASCII_def)
qed

text \<open>The output received by a sequence of events.\<close>

definition received :: "exp_event list \<Rightarrow> string" where
  "received es = concat (map (\<lambda>e. case e of Output b \<Rightarrow> QuoteToASCII b | CtxDone \<Rightarrow> []) es)"

lemma received_simps [simp]:
  "received [] = []" "received (Output b # es) = QuoteToASCII b @ received es" "received (CtxDone # es) = received es"
  by (simp_all add: received_def)

lemma received_line: "one_line (received es)"
proof (induction es)
  case (Cons e es)
  then show ?case using QuoteToASCII_line by (cases e) auto
qed simp

lemma QuoteToASCII_Nil: "QuoteToASCII [] = []"
  by (simp add: QuoteToASCII_def)

lemma compileFree_wildcard: "ascii p \<Longrightarrow> compileFree (wildcardToRegexp p) = Some (map atomOf p)"
  using parseAtoms_wildcard [of p "[]"] ascii_wildcard [of p] by (simp add: compileFree_def runes_ascii)

lemma searchAtoms_glob:
  assumes "searchAtoms (map atomOf p) (runes s)" "one_line s"
  shows "\<exists>a m c. s = a @ m @ c \<and> glob p m"
proof -
  obtain i k where m: "matchAtoms (map atomOf p) (singles (take k (drop i s)))"
    using assms by (auto simp: one_line_def searchAtoms_def list_ex_iff runes_ascii drop_map take_map simp del: upt_Suc)
  have "CHR 0x0A \<notin> set (take k (drop i s))" using assms(2) unfolding one_line_def by (meson in_set_dropD in_set_takeD)
  then have "glob p (take k (drop i s))" using m by (simp add: matchAtoms_glob)
  moreover have "s = take i s @ take k (drop i s) @ drop k (drop i s)" by (metis append_take_drop_id)
  ultimately show ?thesis by blast
qed

lemma waitLoop_match:
  assumes "waitLoop env pattern re cs b w es = (Some (Inr q, es'), w')"
  shows "pattern \<noteq> [] \<and> searchAtoms re (runes q) \<and> (\<exists>pre. es = pre @ es' \<and> q = b @ received pre)"
  using assms
proof (induction env pattern re cs b w es rule: waitLoop.induct)
  case (3 env pattern re cs builder w buf es)
  show ?case
  proof (cases "buf = []")
    case True
    then obtain pre where "pattern \<noteq> []" "searchAtoms re (runes q)" "es = pre @ es'" "q = builder @ received pre"
      using 3 by auto
    then show ?thesis using True by (auto simp: QuoteToASCII_Nil intro!: exI [of _ "Output buf # pre"])
  next
    case False
    obtain cs' w1 where h: "handleOutput (xe_tokens env) (xe_debug env) (QuoteToASCII buf) cs w = (cs', w1)"
      by fastforce
    show ?thesis
    proof (cases "pattern \<noteq> [] \<and> searchAtoms re (runes (builder @ QuoteToASCII buf))")
      case True
      then show ?thesis using 3(3) False h by (auto intro!: exI [of _ "[Output buf]"])
    next
      case nomatch: False
      then obtain pre where "pattern \<noteq> []" "searchAtoms re (runes q)" "es = pre @ es'"
        "q = (builder @ QuoteToASCII buf) @ received pre"
        using 3(2) [OF False refl h [symmetric] refl refl] 3(3) False h by auto
      then show ?thesis by (auto intro!: exI [of _ "Output buf # pre"])
    qed
  qed
qed auto

lemma waitLoop_silent: "snd (waitLoop env pattern re [] b w es) = w"
  by (induction env pattern re "[] :: caseSend list" b w es rule: waitLoop.induct) (auto simp: Let_def)


definition demo_script :: exp_env where
  "demo_script = \<lparr>xe_uc = \<lparr>uc_config = None, uc_sysConfig = None, uc_exConfig = None, uc_useOpenSSH = False,
       uc_effective = (\<lambda>_. None), SplitConfigValue = (\<lambda>_ v. Inr [v])\<rparr>,
     xe_args = zeroArgs\<lparr>a_Option := (\<lambda>k. if k = ''expectpattern1'' then [''word:''] else if k = ''expectsendpass1'' then [''pw''] else []),
       a_Destination := ''h'', a_originalDest := ''h''\<rparr>,
     xe_pre = [], xe_tokens = demo_env, xe_debug = False, decodeSecret = Inr, getTotpCode = (\<lambda>s. s),
     getOtpCommandOutput = (\<lambda>c q. c)\<rparr>"

lemma demo_script_sends:
  "execInteractions demo_script 1 1 \<lparr>xw_out = [], xw_left = None\<rparr> [Output ''Pass'', Output ''word: ''] =
     \<lparr>xw_out = [''p'', ''w'', [CHR 0x0D]], xw_left = None\<rparr>"
  by code_simp

lemma demo_script_options: "expectCases demo_script 1 = []" "expectOption demo_script ''ExpectPattern'' 1 = ''word:''"
  by code_simp+


text \<open>When the server has closed its output, a step whose pattern was not seen does not end: every turn of the loop
  receives an empty chunk from the closed channel and goes round again without any change, until the
  context ends; with \<open>ExpectTimeout\<close> 0 it never does.\<close>

theorem closed_output_spins:
  assumes "ascii pattern"
  shows "waitForPattern env pattern cs w (replicate n (Output [])) = (None, w) \<and>
    waitForPattern env pattern cs w (replicate n (Output []) @ es) = waitForPattern env pattern cs w es"
proof -
  have "waitLoop env pattern re cs b w (replicate n (Output []) @ es) = waitLoop env pattern re cs b w es" for re b es
    by (induction n) simp_all
  from this [of _ _ "[]"] this show ?thesis
    using assms by (simp add: waitForPattern_def compileFree_wildcard)
qed

theorem closed_output_spins_witness:
  "waitForPattern demo_script ''word:'' [] \<lparr>xw_out = [], xw_left = None\<rparr> (replicate 1000 (Output [])) =
     (None, \<lparr>xw_out = [], xw_left = None\<rparr>)"
  by (rule closed_output_spins [THEN conjunct1]) simp

end
