(* ===== verification/GoAes.thy ===== *)
theory GoAes
  imports GoHash
begin

text \<open>
  The functions of \<open>crypto/aes\<close> and \<open>crypto/cipher\<close> that the sources call: AES with a key of 256 bits, and its
  Galois counter mode with a nonce of 12 bytes and no additional data.  A block is a list of 16 bytes, column
  by column as in the standard.
\<close>

section \<open>The block cipher\<close>

definition aes_sbox :: bytes where
  "aes_sbox = [
    0x63, 0x7c, 0x77, 0x7b, 0xf2, 0x6b, 0x6f, 0xc5, 0x30, 0x01, 0x67, 0x2b, 0xfe, 0xd7, 0xab, 0x76,
    0xca, 0x82, 0xc9, 0x7d, 0xfa, 0x59, 0x47, 0xf0, 0xad, 0xd4, 0xa2, 0xaf, 0x9c, 0xa4, 0x72, 0xc0,
    0xb7, 0xfd, 0x93, 0x26, 0x36, 0x3f, 0xf7, 0xcc, 0x34, 0xa5, 0xe5, 0xf1, 0x71, 0xd8, 0x31, 0x15,
    0x04, 0xc7, 0x23, 0xc3, 0x18, 0x96, 0x05, 0x9a, 0x07, 0x12, 0x80, 0xe2, 0xeb, 0x27, 0xb2, 0x75,
    0x09, 0x83, 0x2c, 0x1a, 0x1b, 0x6e, 0x5a, 0xa0, 0x52, 0x3b, 0xd6, 0xb3, 0x29, 0xe3, 0x2f, 0x84,
    0x53, 0xd1, 0x00, 0xed, 0x20, 0xfc, 0xb1, 0x5b, 0x6a, 0xcb, 0xbe, 0x39, 0x4a, 0x4c, 0x58, 0xcf,
    0xd0, 0xef, 0xaa, 0xfb, 0x43, 0x4d, 0x33, 0x85, 0x45, 0xf9, 0x02, 0x7f, 0x50, 0x3c, 0x9f, 0xa8,
    0x51, 0xa3, 0x40, 0x8f, 0x92, 0x9d, 0x38, 0xf5, 0xbc, 0xb6, 0xda, 0x21, 0x10, 0xff, 0xf3, 0xd2,
    0xcd, 0x0c, 0x13, 0xec, 0x5f, 0x97, 0x44, 0x17, 0xc4, 0xa7, 0x7e, 0x3d, 0x64, 0x5d, 0x19, 0x73,
    0x60, 0x81, 0x4f, 0xdc, 0x22, 0x2a, 0x90, 0x88, 0x46, 0xee, 0xb8, 0x14, 0xde, 0x5e, 0x0b, 0xdb,
    0xe0, 0x32, 0x3a, 0x0a, 0x49, 0x06, 0x24, 0x5c, 0xc2, 0xd3, 0xac, 0x62, 0x91, 0x95, 0xe4, 0x79,
    0xe7, 0xc8, 0x37, 0x6d, 0x8d, 0xd5, 0x4e, 0xa9, 0x6c, 0x56, 0xf4, 0xea, 0x65, 0x7a, 0xae, 0x08,
    0xba, 0x78, 0x25, 0x2e, 0x1c, 0xa6, 0xb4, 0xc6, 0xe8, 0xdd, 0x74, 0x1f, 0x4b, 0xbd, 0x8b, 0x8a,
    0x70, 0x3e, 0xb5, 0x66, 0x48, 0x03, 0xf6, 0x0e, 0x61, 0x35, 0x57, 0xb9, 0x86, 0xc1, 0x1d, 0x9e,
    0xe1, 0xf8, 0x98, 0x11, 0x69, 0xd9, 0x8e, 0x94, 0x9b, 0x1e, 0x87, 0xe9, 0xce, 0x55, 0x28, 0xdf,
    0x8c, 0xa1, 0x89, 0x0d, 0xbf, 0xe6, 0x42, 0x68, 0x41, 0x99, 0x2d, 0x0f, 0xb0, 0x54, 0xbb, 0x16]"

definition aes_sub :: "byte \<Rightarrow> byte" where
  "aes_sub b = aes_sbox ! unat b"

definition xor_bytes :: "bytes \<Rightarrow> bytes \<Rightarrow> bytes" where
  "xor_bytes a b = map2 (\<lambda>x y. x XOR y) a b"

definition aes_xtime :: "byte \<Rightarrow> byte" where
  "aes_xtime b = (if bit b 7 then push_bit 1 b XOR 0x1B else push_bit 1 b)"

text \<open>The key schedule, as words of four bytes; \<open>rc\<close> is the next round constant.\<close>

fun aes_schedule :: "nat \<Rightarrow> byte \<Rightarrow> bytes list \<Rightarrow> bytes list" where
  "aes_schedule 0 rc ws = ws"
| "aes_schedule (Suc n) rc ws =
     (let i = length ws; t = last ws;
          t' = (if i mod 8 = 0 then xor_bytes (map aes_sub (rotate1 t)) [rc, 0, 0, 0]
                else if i mod 8 = 4 then map aes_sub t else t) in
      aes_schedule n (if i mod 8 = 0 then aes_xtime rc else rc) (ws @ [xor_bytes (ws ! (i - 8)) t']))"

definition aes_words :: "bytes \<Rightarrow> bytes list" where
  "aes_words k = map (\<lambda>i. take 4 (drop (4 * i) k)) [0..<length k div 4]"

definition aes_round_keys :: "bytes \<Rightarrow> bytes list" where
  "aes_round_keys key =
     (let ws = aes_schedule 52 1 (aes_words key) in map (\<lambda>r. concat (take 4 (drop (4 * r) ws))) [0..<15])"

definition aes_shift_rows :: "bytes \<Rightarrow> bytes" where
  "aes_shift_rows s = map (\<lambda>i. s ! ((i + 4 * (i mod 4)) mod 16)) [0..<16]"

definition aes_mix_column :: "bytes \<Rightarrow> bytes" where
  "aes_mix_column c =
     (let m = (\<lambda>i. aes_xtime (c ! i) XOR aes_xtime (c ! ((i + 1) mod 4)) XOR c ! ((i + 1) mod 4) XOR
                 c ! ((i + 2) mod 4) XOR c ! ((i + 3) mod 4)) in [m 0, m 1, m 2, m 3])"

definition aes_encrypt :: "bytes \<Rightarrow> bytes \<Rightarrow> bytes" where
  "aes_encrypt key block =
     (let ks = aes_round_keys key;
          s = foldl (\<lambda>s k. xor_bytes (concat (map aes_mix_column (aes_words (aes_shift_rows (map aes_sub s))))) k)
                (xor_bytes block (ks ! 0)) (take 13 (drop 1 ks)) in
      xor_bytes (aes_shift_rows (map aes_sub s)) (ks ! 14))"

section \<open>Galois counter mode\<close>

type_synonym gf128 = "128 word"

text \<open>Blocks are polynomials with the lowest power in the highest bit.\<close>

definition gf128_mult :: "gf128 \<Rightarrow> gf128 \<Rightarrow> gf128" where
  "gf128_mult x h =
     fst (foldl (\<lambda>(z, v) i. (if bit x (127 - i) then z XOR v else z,
                    if bit v 0 then drop_bit 1 v XOR 0xE1000000000000000000000000000000 else drop_bit 1 v))
            (0, h) [0..<128])"

definition gf128_of :: "bytes \<Rightarrow> gf128" where
  "gf128_of b = foldl (\<lambda>w x. push_bit 8 w OR ucast x) 0 b"

definition gf128_bytes :: "gf128 \<Rightarrow> bytes" where
  "gf128_bytes w = map (\<lambda>i. ucast (drop_bit (8 * (15 - i)) w)) [0..<16]"

text \<open>The blocks of a text; the last one is filled up with zeros for the authentication.\<close>

fun gcm_blocks :: "nat \<Rightarrow> bytes \<Rightarrow> bytes list" where
  "gcm_blocks 0 b = []"
| "gcm_blocks (Suc n) b = take 16 (take 16 b @ replicate 16 0) # gcm_blocks n (drop 16 b)"

definition ghash :: "gf128 \<Rightarrow> bytes \<Rightarrow> gf128" where
  "ghash h c =
     (let y = foldl (\<lambda>y b. gf128_mult (y XOR gf128_of b) h) 0 (gcm_blocks ((length c + 15) div 16) c) in
      gf128_mult (y XOR of_nat (8 * length c)) h)"

text \<open>The key stream; the counter is 32 bits wide and its first value is used for the tag.\<close>

definition gcm_stream :: "bytes \<Rightarrow> bytes \<Rightarrow> nat \<Rightarrow> bytes" where
  "gcm_stream key nonce n =
     take n (concat (map (\<lambda>i. aes_encrypt key (nonce @ AppendUint32 [] (of_nat (i + 2)))) [0..<(n + 15) div 16]))"

definition gcm_tag :: "bytes \<Rightarrow> bytes \<Rightarrow> bytes \<Rightarrow> bytes" where
  "gcm_tag key nonce c =
     xor_bytes (gf128_bytes (ghash (gf128_of (aes_encrypt key (replicate 16 0))) c))
       (aes_encrypt key (nonce @ AppendUint32 [] 1))"

definition gcm_NonceSize :: nat where
  "gcm_NonceSize = 12"

text \<open>\<open>Seal\<close> appends to \<open>dst\<close>; \<open>Open\<close> fails unless the tag is right.\<close>

definition gcm_Seal :: "bytes \<Rightarrow> bytes \<Rightarrow> bytes \<Rightarrow> bytes \<Rightarrow> bytes" where
  "gcm_Seal key dst nonce plain =
     (let c = xor_bytes plain (gcm_stream key nonce (length plain)) in dst @ c @ gcm_tag key nonce c)"

definition gcm_Open :: "bytes \<Rightarrow> bytes \<Rightarrow> bytes \<Rightarrow> bytes result" where
  "gcm_Open key nonce text =
     (if length text < 16 then Inl ''cipher: message authentication failed''
      else let c = take (length text - 16) text in
        if drop (length text - 16) text = gcm_tag key nonce c
        then Inr (xor_bytes c (gcm_stream key nonce (length c)))
        else Inl ''cipher: message authentication failed'')"

section \<open>Opening a sealed text\<close>

lemma length_xor_bytes [simp]: "length (xor_bytes a b) = min (length a) (length b)"
  by (simp add: xor_bytes_def)

lemma xor_bytes_twice: "length a \<le> length b \<Longrightarrow> xor_bytes (xor_bytes a b) b = a"
  by (rule nth_equalityI) (simp_all add: xor_bytes_def ac_simps)

lemma length_aes_schedule: "length (aes_schedule n rc ws) = length ws + n"
  by (induction n rc ws rule: aes_schedule.induct) (simp_all add: Let_def)

lemma aes_schedule_width:
  assumes "\<forall>w\<in>set ws. length w = 4" "8 \<le> length ws"
  shows "\<forall>w\<in>set (aes_schedule n rc ws). length w = 4"
  using assms
proof (induction n rc ws rule: aes_schedule.induct)
  case (2 n rc ws)
  have "last ws \<in> set ws" "ws ! (length ws - 8) \<in> set ws" using 2(3) by (auto intro!: last_in_set nth_mem)
  then have w: "length (last ws) = 4" "length (ws ! (length ws - 8)) = 4" using 2(2) by blast+
  show ?case unfolding aes_schedule.simps Let_def by (rule 2(1) [OF refl refl refl]) (use 2(2,3) w in auto)
qed simp

lemma length_concat_const: "\<forall>x\<in>set xs. length x = n \<Longrightarrow> length (concat xs) = n * length xs"
  by (induction xs) auto

lemma length_aes_encrypt:
  assumes "length key = 32" "length block = 16"
  shows "length (aes_encrypt key block) = 16"
proof -
  have ws: "length (aes_words key) = 8" "\<forall>w\<in>set (aes_words key). length w = 4" using assms(1) by (auto simp: aes_words_def)
  let ?ks = "aes_round_keys key"
  have ks: "length ?ks = 15" by (simp add: aes_round_keys_def Let_def)
  have k: "length (?ks ! r) = 16" if "r < 15" for r
  proof -
    have "length (concat (take 4 (drop (4 * r) (aes_schedule 52 1 (aes_words key))))) =
        4 * length (take 4 (drop (4 * r) (aes_schedule 52 1 (aes_words key))))"
      using aes_schedule_width [OF ws(2), of 52 1] ws(1) by (intro length_concat_const) (auto dest: in_set_takeD in_set_dropD)
    then show ?thesis using that ws(1) by (simp add: aes_round_keys_def Let_def length_aes_schedule)
  qed
  then show ?thesis using ks by (simp add: aes_encrypt_def Let_def aes_shift_rows_def)
qed

theorem gcm_Open_Seal:
  assumes "length key = 32" "length nonce = 12"
  shows "gcm_Open key nonce (gcm_Seal key [] nonce plain) = Inr plain"
proof -
  let ?n = "length plain"
  have enc: "length (aes_encrypt key (nonce @ AppendUint32 [] w)) = 16" for w
    by (rule length_aes_encrypt) (simp_all add: assms)
  have "16 * ((?n + 15) div 16) \<ge> ?n" by presburger
  then have "length (gcm_stream key nonce ?n) = ?n"
    by (simp add: gcm_stream_def length_concat_const [where n = 16] enc)
  moreover have "length (gcm_tag key nonce c) = 16" for c by (simp add: gcm_tag_def gf128_bytes_def enc)
  ultimately show ?thesis by (simp add: gcm_Open_def gcm_Seal_def Let_def xor_bytes_twice)
qed

end
