(* ===== verification/Secrets.thy ===== *)
theory Secrets
  imports GoAes Login
begin

text \<open>
  The secrets of the configuration (\<open>tssh/config.go\<close>) and the answers to the questions of a server, with one-time
  passwords (\<open>tssh/otp.go\<close>, \<open>readQuestionAnswerConfig\<close> of \<open>tssh/auth_method.go\<close>).  A secret is written
  plainly, encoded with a fixed key, or given by a command.
\<close>

section \<open>Encoded secrets\<close>

definition secretEncodeKey :: bytes where
  "secretEncodeKey = bytes_of_string ''THE_UNSAFE_KEY_FOR_ENCODING_ONLY''"

text \<open>\<open>rnd\<close> is what \<open>rand.Reader\<close> gives for the nonce.\<close>

definition encodeSecret :: "bytes result \<Rightarrow> bytes \<Rightarrow> string result" where
  "encodeSecret rnd secret =
     (case rnd of Inl e \<Rightarrow> Inl e
      | Inr nonce \<Rightarrow> Inr (hex_bytes (gcm_Seal secretEncodeKey nonce nonce secret)))"

definition decodeSecret :: "string \<Rightarrow> string result" where
  "decodeSecret secret =
     (case hex_decode secret of
        None \<Rightarrow> Inl ''encoding/hex: invalid''
      | Some cipherSecret \<Rightarrow>
          if length cipherSecret < gcm_NonceSize then Inl ''too short''
          else case gcm_Open secretEncodeKey (take gcm_NonceSize cipherSecret) (drop gcm_NonceSize cipherSecret) of
              Inl e \<Rightarrow> Inl e
            | Inr plainSecret \<Rightarrow> Inr (string_of_bytes plainSecret))"

section \<open>Lookup of a secret\<close>

text \<open>The environment: the configuration, the split of a command line (\<open>shlex.Split\<close>), running a program for its
  output, and the code of \<open>pquerna/otp\<close> at the present time.\<close>

record secret_env =
  se_uc :: userConfig
  se_login :: login_env
  splitCommandLine :: "string \<Rightarrow> string list result"
  runCommand :: "string list \<Rightarrow> string result"
  GenerateCode :: "string \<Rightarrow> string result"

definition execSecretCommand :: "secret_env \<Rightarrow> sshParam \<Rightarrow> string \<Rightarrow> string" where
  "execSecretCommand env p command =
     (case expandTokens command (tokensFor (se_uc env) (se_login env) p) ''%hnpr'' of
        Inl _ \<Rightarrow> []
      | Inr expanded \<Rightarrow>
          (case splitCommandLine env expanded of
             Inl _ \<Rightarrow> []
           | Inr argv \<Rightarrow>
               if argv = [] then []
               else case runCommand env argv of Inl _ \<Rightarrow> [] | Inr out \<Rightarrow> TrimSpace out))"

definition getSecretConfig :: "secret_env \<Rightarrow> sshParam \<Rightarrow> string \<Rightarrow> string" where
  "getSecretConfig env p key =
     (let value = getExConfig (se_uc env) (sp_args p) (''enc'' @ key);
          decoded = (if value = [] then [] else case decodeSecret value of Inl _ \<Rightarrow> [] | Inr secret \<Rightarrow> secret);
          command = getExConfig (se_uc env) (sp_args p) (key @ ''Command'');
          executed = (if command = [] then [] else execSecretCommand env p command) in
      if decoded \<noteq> [] then decoded
      else if executed \<noteq> [] then executed
      else getExConfig (se_uc env) (sp_args p) key)"

section \<open>Answers to questions\<close>

definition otpArgs :: "string \<Rightarrow> string list \<Rightarrow> string list" where
  "otpArgs question argv =
     (case argv of [] \<Rightarrow> [] | prog # args \<Rightarrow> prog # map (\<lambda>arg. if arg = ''%q'' then question else arg) args)"

definition getOtpCommandOutput :: "secret_env \<Rightarrow> string \<Rightarrow> string \<Rightarrow> string" where
  "getOtpCommandOutput env command question =
     (case splitCommandLine env command of
        Inl _ \<Rightarrow> []
      | Inr argv \<Rightarrow>
          if argv = [] then []
          else case runCommand env (otpArgs question argv) of Inl _ \<Rightarrow> [] | Inr out \<Rightarrow> TrimSpace out)"

definition getTotpCode :: "secret_env \<Rightarrow> string \<Rightarrow> string" where
  "getTotpCode env secret = (case GenerateCode env secret of Inl _ \<Rightarrow> [] | Inr code \<Rightarrow> code)"

definition readQuestionAnswerConfig :: "secret_env \<Rightarrow> sshParam \<Rightarrow> nat \<Rightarrow> string \<Rightarrow> string" where
  "readQuestionAnswerConfig env p idx question =
     (let qhex = hex_bytes (bytes_of_string question);
          totp = (\<lambda>key. let secret = getSecretConfig env p key in if secret = [] then [] else getTotpCode env secret);
          otp = (\<lambda>key. let command = getSecretConfig env p key in
                   if command = [] then [] else getOtpCommandOutput env command question) in
      if getSecretConfig env p qhex \<noteq> [] then getSecretConfig env p qhex
      else if totp (''totp'' @ qhex) \<noteq> [] then totp (''totp'' @ qhex)
      else if otp (''otp'' @ qhex) \<noteq> [] then otp (''otp'' @ qhex)
      else if getSecretConfig env p (''QuestionAnswer'' @ utoa idx) \<noteq> [] then getSecretConfig env p (''QuestionAnswer'' @ utoa idx)
      else if totp (''TotpSecret'' @ utoa idx) \<noteq> [] then totp (''TotpSecret'' @ utoa idx)
      else otp (''OtpCommand'' @ utoa idx))"

section \<open>Properties\<close>

lemma length_secretEncodeKey: "length secretEncodeKey = 32"
  by (simp add: secretEncodeKey_def)

text \<open>C37: a secret that was encoded is decoded exactly, whatever its bytes and whatever random nonce was drawn.\<close>

theorem secret_roundtrip:
  assumes "length nonce = gcm_NonceSize"
  shows "\<exists>e. encodeSecret (Inr nonce) secret = Inr e \<and> decodeSecret e = Inr (string_of_bytes secret)"
proof -
  have len: "length nonce = 12" using assms by (simp add: gcm_NonceSize_def)
  have seal: "gcm_Seal secretEncodeKey nonce nonce secret = nonce @ gcm_Seal secretEncodeKey [] nonce secret"
    by (simp add: gcm_Seal_def Let_def)
  show ?thesis
    using gcm_Open_Seal [OF length_secretEncodeKey len, of secret]
    by (simp add: encodeSecret_def decodeSecret_def hex_decode_bytes seal gcm_NonceSize_def len)
qed

theorem secret_roundtrip_witness:
  "\<exists>e. encodeSecret (Inr (replicate 12 7)) [1, 2] = Inr e \<and> decodeSecret e = Inr (string_of_bytes [1, 2])"
  by (rule secret_roundtrip) (simp add: gcm_NonceSize_def)

text \<open>A question, which the server chooses, can only be an argument of a one-time password command: the program and
  the number of arguments are those of the configuration, and each other argument is unchanged.\<close>

theorem otp_question_is_argument:
  assumes "argv \<noteq> []"
  shows "length (otpArgs question argv) = length argv \<and> otpArgs question argv ! 0 = argv ! 0 \<and>
    (\<forall>i<length argv. otpArgs question argv ! i = argv ! i \<or> 0 < i \<and> argv ! i = ''%q'' \<and> otpArgs question argv ! i = question)"
  using assms by (auto simp: otpArgs_def nth_Cons split: list.splits nat.splits)

end
