(* ===== verification/Keys.thy ===== *)
theory Keys
  imports GoStrings
begin

text \<open>
  \<open>tssh/keys.go\<close>: private keys on security keys.  The file of such a key is parsed far enough to find its public key and flags, and
  signing is left to the program \<open>ssh-sk-helper\<close>.  The codec and the key parsers of \<open>x/crypto/ssh\<close>, PEM, the
  key derivation and the ciphers are the parameter \<open>key_lib\<close>; a public key is a value of any type.
\<close>

section \<open>Messages to the helper\<close>

text \<open>A message is its length in four bytes and its payload; a length that does not fit is cut to 32 bits.\<close>

definition writeMessage :: "bytes \<Rightarrow> bytes" where
  "writeMessage payload = AppendUint32 [] (of_nat (length payload)) @ payload"

definition readMessage :: "bytes \<Rightarrow> (bytes \<times> bytes) result" where
  "readMessage r =
     (if r = [] then Inl ''EOF''
      else if length r < 4 then Inl ''unexpected EOF''
      else let n = unat (Uint32 r); rest = drop 4 r in
        if n = 0 then Inr ([], rest)
        else if rest = [] then Inl ''EOF''
        else if length rest < n then Inl ''unexpected EOF''
        else Inr (take n rest, drop n rest))"

section \<open>Key types\<close>

definition KeyAlgoSKECDSA256 :: string where
  "KeyAlgoSKECDSA256 = ''sk-ecdsa-sha2-nistp256@openssh.com''"

definition KeyAlgoSKED25519 :: string where
  "KeyAlgoSKED25519 = ''sk-ssh-ed25519@openssh.com''"

definition shortKeyType :: "string \<Rightarrow> string" where
  "shortKeyType keyType =
     (if keyType \<in> set [''ssh-rsa'', ''rsa-sha2-256'', ''rsa-sha2-512''] then ''RSA''
      else if keyType \<in> set [''ssh-rsa-cert-v01@openssh.com'', ''rsa-sha2-256-cert-v01@openssh.com'', ''rsa-sha2-512-cert-v01@openssh.com'']
      then ''RSA-CERT''
      else if keyType = ''ssh-ed25519'' then ''ED25519''
      else if keyType = ''ssh-ed25519-cert-v01@openssh.com'' then ''ED25519-CERT''
      else if keyType \<in> set [''ecdsa-sha2-nistp256'', ''ecdsa-sha2-nistp384'', ''ecdsa-sha2-nistp521''] then ''ECDSA''
      else if keyType \<in> set [''ecdsa-sha2-nistp256-cert-v01@openssh.com'', ''ecdsa-sha2-nistp384-cert-v01@openssh.com'',
        ''ecdsa-sha2-nistp521-cert-v01@openssh.com''] then ''ECDSA-CERT''
      else if keyType = KeyAlgoSKECDSA256 then ''ECDSA-SK''
      else if keyType = ''sk-ecdsa-sha2-nistp256-cert-v01@openssh.com'' then ''ECDSA-SK-CERT''
      else if keyType = KeyAlgoSKED25519 then ''ED25519-SK''
      else if keyType = ''sk-ssh-ed25519-cert-v01@openssh.com'' then ''ED25519-SK-CERT''
      else keyType)"

section \<open>Private keys\<close>

text \<open>The errors that the callers tell apart; a wrong slice index panics.\<close>

datatype 'k key_error =
    PassphraseMissingError "'k option"
  | UnsupportedSecurityKeyError 'k byte bytes
  | IncorrectPasswordError
  | KeyError string
  | KeyPanic

record openSSHEncryptedPrivateKey =
  CipherName :: string
  KdfName :: string
  KdfOpts :: bytes
  NumKeys :: u32
  PubKey :: bytes
  PrivKeyBlock :: bytes
  enc_Rest :: bytes

record openSSHPrivateKey =
  Check1 :: u32
  Check2 :: u32
  Keytype :: string
  priv_Rest :: bytes

record pem_block =
  pem_Type :: string
  pem_ProcType :: string
  pem_Bytes :: bytes

record ('k, 's) key_lib =
  UnmarshalEncrypted :: "bytes \<Rightarrow> openSSHEncryptedPrivateKey result"
  UnmarshalPrivate :: "bytes \<Rightarrow> openSSHPrivateKey result"
  UnmarshalKdf :: "bytes \<Rightarrow> (bytes \<times> u32) result"
  ParsePublicKey :: "bytes \<Rightarrow> 'k result"
  pemDecode :: "bytes \<Rightarrow> pem_block option"
  bcryptKey :: "bytes \<Rightarrow> bytes \<Rightarrow> nat \<Rightarrow> bytes result"
  aesCtr :: "bytes \<Rightarrow> bytes \<Rightarrow> bytes \<Rightarrow> bytes"
  aesCbc :: "bytes \<Rightarrow> bytes \<Rightarrow> bytes \<Rightarrow> bytes"
  lib_ParsePrivateKey :: "bytes \<Rightarrow> 'k key_error + 's"
  lib_ParsePrivateKeyWithPassphrase :: "bytes \<Rightarrow> bytes \<Rightarrow> 'k key_error + 's"

text \<open>The fields before the flags are skipped; the lengths are compared and the index is added at 32 bits.\<close>

fun skipFields :: "nat \<Rightarrow> bytes \<Rightarrow> 'k key_error + bytes" where
  "skipFields 0 buf = Inr buf"
| "skipFields (Suc n) buf =
     (if length buf < 4 then Inl (KeyError ''ssh: truncated security key data'')
      else let fieldLen = Uint32 buf in
        if (of_nat (length buf - 4) :: u32) < fieldLen then Inl (KeyError ''ssh: truncated security key data'')
        else if unat (4 + fieldLen) > length buf then Inl KeyPanic
        else skipFields n (drop (unat (4 + fieldLen)) buf))"

definition skFlagsFromRest :: "string \<Rightarrow> bytes \<Rightarrow> 'k key_error + byte" where
  "skFlagsFromRest keyType rest =
     (let skipCount = (if keyType = KeyAlgoSKECDSA256 then Some 2 else if keyType = KeyAlgoSKED25519 then Some 1 else None) in
      case skipCount of
        None \<Rightarrow> Inl (KeyError (''ssh: not a security key type: '' @ keyType))
      | Some n \<Rightarrow>
          (case skipFields (n + 1) rest of
             Inl e \<Rightarrow> Inl e
           | Inr [] \<Rightarrow> Inl (KeyError ''ssh: truncated security key data'')
           | Inr (flags # _) \<Rightarrow> Inr flags))"

definition encryptedBlock :: "pem_block \<Rightarrow> bool" where
  "encryptedBlock block = Contains (pem_ProcType block) ''ENCRYPTED''"

type_synonym 'k decrypt = "string \<Rightarrow> string \<Rightarrow> bytes \<Rightarrow> bytes \<Rightarrow> 'k key_error + bytes"

definition unencryptedOpenSSHKey :: "'k decrypt" where
  "unencryptedOpenSSHKey cipherName kdfName kdfOpts privKeyBlock =
     (if kdfName \<noteq> ''none'' \<or> cipherName \<noteq> ''none'' then Inl (PassphraseMissingError None)
      else if kdfOpts \<noteq> [] then Inl (KeyError ''ssh: invalid openssh private key'')
      else Inr privKeyBlock)"

text \<open>\<open>aes.NewCipher\<close> accepts every key of 32 bytes.\<close>

definition passphraseProtectedOpenSSHKey :: "('k, 's) key_lib \<Rightarrow> bytes \<Rightarrow> 'k decrypt" where
  "passphraseProtectedOpenSSHKey lib passphrase cipherName kdfName kdfOpts privKeyBlock =
     (if kdfName = ''none'' \<or> cipherName = ''none'' then Inl (KeyError ''ssh: key is not password protected'')
      else if kdfName \<noteq> ''bcrypt'' then Inl (KeyError (''ssh: unknown KDF '' @ kdfName))
      else case UnmarshalKdf lib kdfOpts of
          Inl e \<Rightarrow> Inl (KeyError e)
        | Inr (salt, rounds) \<Rightarrow>
            (case bcryptKey lib passphrase salt (unat rounds) of
               Inl e \<Rightarrow> Inl (KeyError e)
             | Inr k \<Rightarrow>
                 let key = take 32 k; iv = drop 32 k in
                 if cipherName = ''aes256-ctr'' then Inr (aesCtr lib key iv privKeyBlock)
                 else if cipherName = ''aes256-cbc'' then
                   (if length privKeyBlock mod 16 \<noteq> 0
                    then Inl (KeyError ''ssh: invalid encrypted private key length, not a multiple of the block size'')
                    else Inr (aesCbc lib key iv privKeyBlock))
                 else Inl (KeyError (''ssh: unknown cipher '' @ cipherName))))"

definition privateKeyAuthMagic :: bytes where
  "privateKeyAuthMagic = bytes_of_string (''openssh-key-v1'' @ [CHR 0x00])"

text \<open>The parser never returns a key: a security key is reported as an error with its parts.\<close>

definition parseOpenSSHPrivateKey :: "('k, 's) key_lib \<Rightarrow> bytes \<Rightarrow> 'k decrypt \<Rightarrow> 'k key_error" where
  "parseOpenSSHPrivateKey lib key dec =
     (if length key < length privateKeyAuthMagic \<or> take (length privateKeyAuthMagic) key \<noteq> privateKeyAuthMagic
      then KeyError ''ssh: invalid openssh private key format''
      else case UnmarshalEncrypted lib (drop (length privateKeyAuthMagic) key) of
          Inl e \<Rightarrow> KeyError e
        | Inr w \<Rightarrow>
            if NumKeys w \<noteq> 1 then KeyError ''ssh: multi-key files are not supported''
            else case dec (CipherName w) (KdfName w) (KdfOpts w) (PrivKeyBlock w) of
                Inl (PassphraseMissingError _) \<Rightarrow>
                  (case ParsePublicKey lib (PubKey w) of
                     Inl e \<Rightarrow> KeyError (''ssh: failed to parse embedded public key: '' @ e)
                   | Inr pub \<Rightarrow> PassphraseMissingError (Some pub))
              | Inl e \<Rightarrow> e
              | Inr privKeyBlock \<Rightarrow>
                  let bad = (if CipherName w \<noteq> ''none'' then IncorrectPasswordError else KeyError ''ssh: malformed OpenSSH key'') in
                  (case UnmarshalPrivate lib privKeyBlock of
                     Inl _ \<Rightarrow> bad
                   | Inr pk1 \<Rightarrow>
                       if Check1 pk1 \<noteq> Check2 pk1 then bad
                       else if Keytype pk1 = KeyAlgoSKED25519 \<or> Keytype pk1 = KeyAlgoSKECDSA256 then
                         (case ParsePublicKey lib (PubKey w) of
                            Inl e \<Rightarrow> KeyError (''ssh: failed to parse security key public key: '' @ e)
                          | Inr pubKey \<Rightarrow>
                              (case skFlagsFromRest (Keytype pk1) (priv_Rest pk1) of
                                 Inl e \<Rightarrow> e
                               | Inr flags \<Rightarrow> UnsupportedSecurityKeyError pubKey flags (drop 8 privKeyBlock)))
                       else KeyError ''ssh: unhandled key type''))"

definition kUnhandledKeyTypeError :: string where
  "kUnhandledKeyTypeError = ''ssh: unhandled key type''"

definition parsePrivateKey :: "('k, 's) key_lib \<Rightarrow> bytes \<Rightarrow> 'k key_error + 's" where
  "parsePrivateKey lib pemBytes =
     (case lib_ParsePrivateKey lib pemBytes of
        Inl (KeyError e) \<Rightarrow>
          if e \<noteq> kUnhandledKeyTypeError then Inl (KeyError e)
          else (case pemDecode lib pemBytes of
              None \<Rightarrow> Inl (KeyError ''ssh: no key found'')
            | Some block \<Rightarrow>
                if encryptedBlock block then Inl (PassphraseMissingError None)
                else if pem_Type block = ''OPENSSH PRIVATE KEY''
                then Inl (parseOpenSSHPrivateKey lib (pem_Bytes block) unencryptedOpenSSHKey)
                else Inl (KeyError e))
      | r \<Rightarrow> r)"

definition parsePrivateKeyWithPassphrase :: "('k, 's) key_lib \<Rightarrow> bytes \<Rightarrow> bytes \<Rightarrow> 'k key_error + 's" where
  "parsePrivateKeyWithPassphrase lib pemBytes passphrase =
     (case lib_ParsePrivateKeyWithPassphrase lib pemBytes passphrase of
        Inl (KeyError e) \<Rightarrow>
          if e \<noteq> kUnhandledKeyTypeError then Inl (KeyError e)
          else (case pemDecode lib pemBytes of
              None \<Rightarrow> Inl (KeyError ''ssh: no key found'')
            | Some block \<Rightarrow>
                if pem_Type block = ''OPENSSH PRIVATE KEY''
                then Inl (parseOpenSSHPrivateKey lib (pem_Bytes block) (passphraseProtectedOpenSSHKey lib passphrase))
                else Inl (KeyError e))
      | r \<Rightarrow> r)"

section \<open>Signing\<close>

record 'k skSigner =
  sk_path :: string
  sk_pubKey :: 'k
  sk_keyBuf :: bytes
  sk_flags :: byte

definition parseSecurityKey :: "string \<Rightarrow> 'k \<Rightarrow> byte \<Rightarrow> bytes \<Rightarrow> 'k skSigner" where
  "parseSecurityKey path pubKey flags raw = \<lparr>sk_path = path, sk_pubKey = pubKey, sk_keyBuf = raw, sk_flags = flags\<rparr>"

record skSignRequest =
  Version :: nat
  ReqType :: nat
  LogStderr :: nat
  LogLevel :: nat
  Key :: bytes
  Provider :: string
  Data_ :: bytes
  Algorithm :: string
  Compat :: nat
  Pin :: string

text \<open>The environment: two variables, the files, the codec, the program (which confirms the user's presence when asked to) and the
  answers to questions for a PIN, by the number of the attempt.\<close>

record 'sig sk_env =
  SSH_SK_PROVIDER :: string
  SSH_SK_HELPER :: string
  kDefaultSshSkHelperPath :: string
  sk_fileExists :: "string \<Rightarrow> bool"
  sk_debug :: bool
  MarshalRequest :: "skSignRequest \<Rightarrow> bytes"
  UnmarshalResponse :: "bytes \<Rightarrow> (byte \<times> u32 \<times> bytes) result"
  UnmarshalSkSignature :: "bytes \<Rightarrow> bytes result"
  UnmarshalSignature :: "bytes \<Rightarrow> 'sig result"
  runHelper :: "string \<Rightarrow> bool \<Rightarrow> nat \<Rightarrow> bytes \<Rightarrow> bytes result"
  readPin :: "nat \<Rightarrow> string result"

definition signRequest :: "'sig sk_env \<Rightarrow> 'k skSigner \<Rightarrow> bytes \<Rightarrow> string \<Rightarrow> string \<Rightarrow> skSignRequest" where
  "signRequest env s data algorithm pin =
     \<lparr>Version = 5, ReqType = 1, LogStderr = 1, LogLevel = (if sk_debug env then 7 else 2), Key = sk_keyBuf s,
      Provider = (if SSH_SK_PROVIDER env = [] then ''internal'' else SSH_SK_PROVIDER env), Data_ = data, Algorithm = algorithm,
      Compat = 0, Pin = pin\<rparr>"

datatype 'sig sk_answer = SkDone "'sig result" | SkWrongPin

text \<open>What the answer of the program means.\<close>

definition signResponse :: "'sig sk_env \<Rightarrow> bytes \<Rightarrow> 'sig sk_answer" where
  "signResponse env out =
     (case readMessage out of
        Inl e \<Rightarrow> SkDone (Inl (''read response failed: '' @ e))
      | Inr (payload, _) \<Rightarrow>
          (case UnmarshalResponse env payload of
             Inl e \<Rightarrow> SkDone (Inl (''unmarshal response failed: '' @ e))
           | Inr (version, respType, rest) \<Rightarrow>
               if version \<noteq> 5 then SkDone (Inl ''unexpected ssh-sk-helper version'')
               else if respType = 0 then
                 (if length rest < 4 then SkDone (Inl ''ssh-sk-helper response invalid'')
                  else if Uint32 rest = 60 then SkDone (Inl ''device not found'')
                  else if Uint32 rest = 43 then SkWrongPin
                  else SkDone (Inl ''ssh-sk-helper error''))
               else if respType = 1 then
                 (case UnmarshalSkSignature env rest of
                    Inl e \<Rightarrow> SkDone (Inl (''unmarshal sk_signature failed: '' @ e))
                  | Inr sg \<Rightarrow>
                      (case UnmarshalSignature env sg of
                         Inl e \<Rightarrow> SkDone (Inl (''unmarshal signature failed: '' @ e))
                       | Inr sign \<Rightarrow> SkDone (Inr sign)))
               else SkDone (Inl ''unexpected ssh-sk-helper response type'')))"

text \<open>The loop over attempt \<open>i\<close>, of which \<open>n\<close> are left, with the requests that were sent.\<close>

fun signLoop :: "'sig sk_env \<Rightarrow> string \<Rightarrow> 'k skSigner \<Rightarrow> bytes \<Rightarrow> string \<Rightarrow> nat \<Rightarrow> nat \<Rightarrow> 'sig result \<times> skSignRequest list" where
  "signLoop env helper s data algorithm i 0 = (Inl ''PIN incorrect'', [])"
| "signLoop env helper s data algorithm i (Suc n) =
     (case (if i > 0 then readPin env i else Inr []) of
        Inl e \<Rightarrow> (Inl (''read pin failed: '' @ e), [])
      | Inr pin \<Rightarrow>
          let req = signRequest env s data algorithm pin in
          (case runHelper env helper (sk_flags s AND 1 \<noteq> 0) i (writeMessage (MarshalRequest env req)) of
             Inl e \<Rightarrow> (Inl e, [req])
           | Inr out \<Rightarrow>
               (case signResponse env out of
                  SkDone r \<Rightarrow> (r, [req])
                | SkWrongPin \<Rightarrow> (case signLoop env helper s data algorithm (i + 1) n of (r, reqs) \<Rightarrow> (r, req # reqs)))))"

definition SignWithAlgorithm :: "'sig sk_env \<Rightarrow> 'k skSigner \<Rightarrow> bytes \<Rightarrow> string \<Rightarrow> 'sig result \<times> skSignRequest list" where
  "SignWithAlgorithm env s data algorithm =
     (let helper = (if SSH_SK_HELPER env = [] then kDefaultSshSkHelperPath env else SSH_SK_HELPER env) in
      if \<not> sk_fileExists env helper then (Inl (''ssh-sk-helper not found: '' @ helper), [])
      else signLoop env helper s data algorithm 0 4)"

section \<open>Properties\<close>

lemma AppendUint32_ne: "AppendUint32 [] v \<noteq> []"
  by (simp add: AppendUint32_def)

text \<open>The message that was written is read back, with the rest of the input untouched, up to the largest length that fits.\<close>

lemma helper_message:
  assumes "length payload < 2 ^ 32"
  shows "readMessage (writeMessage payload @ rest) = Inr (payload, rest)"
proof -
  have "unat (of_nat (length payload) :: u32) = length payload" using assms by (simp add: unat_of_nat_u32)
  then show ?thesis by (simp add: readMessage_def writeMessage_def Let_def AppendUint32_ne)
qed

text \<open>A string in the ssh wire format.\<close>

definition ssh_string :: "bytes \<Rightarrow> bytes" where
  "ssh_string s = AppendUint32 [] (of_nat (length s)) @ s"

lemma length_ssh_string [simp]: "length (ssh_string s) = 4 + length s"
  by (simp add: ssh_string_def)

lemma skipFields_strings:
  "length (concat (map ssh_string fs) @ rest) < 2 ^ 32 \<Longrightarrow>
   skipFields (length fs) (concat (map ssh_string fs) @ rest) = (Inr rest :: 'k key_error + bytes)"
proof (induction fs)
  case (Cons f fs)
  let ?r = "concat (map ssh_string fs) @ rest" and ?l = "of_nat (length f) :: u32"
  have lt: "length f + length ?r < 2 ^ 32 - 4" using Cons.prems by simp
  then have len: "unat ?l = length f" by (intro unat_of_nat_u32) simp
  have idx: "unat (4 + ?l) = 4 + length f" using lt len by (subst unat_add_u32) simp_all
  have "unat (of_nat (length f + length ?r) :: u32) = length f + length ?r" using lt by (intro unat_of_nat_u32) simp
  then have ok: "\<not> (of_nat (length f + length ?r) :: u32) < ?l" using len by (simp add: word_less_nat_alt)
  have "skipFields (length (f # fs)) (AppendUint32 [] ?l @ f @ ?r) = (skipFields (length fs) ?r :: 'k key_error + bytes)"
    using ok idx by (simp add: Let_def)
  moreover have "concat (map ssh_string (f # fs)) @ rest = AppendUint32 [] ?l @ f @ ?r" by (simp add: ssh_string_def [of f])
  moreover have "skipFields (length fs) ?r = (Inr rest :: 'k key_error + bytes)" using lt by (intro Cons.IH) simp
  ultimately show ?case by (simp only:)
qed simp

lemma Uint32_take: "4 \<le> length b \<Longrightarrow> Uint32 (take 4 b) = Uint32 b"
  by (simp add: Uint32_def)

lemma first_string:
  assumes "4 + unat (Uint32 buf) \<le> length buf"
  shows "buf = ssh_string (take (unat (Uint32 buf)) (drop 4 buf)) @ drop (4 + unat (Uint32 buf)) buf"
proof -
  have "take 4 buf = AppendUint32 [] (Uint32 buf)"
    using assms AppendUint32_Uint32 [of "take 4 buf"] by (simp add: Uint32_take)
  moreover have "buf = take 4 buf @ take (unat (Uint32 buf)) (drop 4 buf) @ drop (unat (Uint32 buf)) (drop 4 buf)"
    by (metis append_take_drop_id)
  ultimately show ?thesis using assms by (simp add: ssh_string_def add.commute)
qed

lemma skipFields_only:
  assumes "length buf < 2 ^ 32"
  shows "(skipFields n buf :: 'k key_error + bytes) \<noteq> Inl KeyPanic \<and>
    (\<forall>rest. skipFields n buf = (Inr rest :: 'k key_error + bytes) \<longrightarrow> (\<exists>fs. length fs = n \<and> buf = concat (map ssh_string fs) @ rest))"
  using assms
proof (induction n arbitrary: buf)
  case (Suc n)
  let ?l = "Uint32 buf"
  show ?case
  proof (cases "length buf < 4 \<or> (of_nat (length buf - 4) :: u32) < ?l")
    case True
    then have "skipFields (Suc n) buf = (Inl (KeyError ''ssh: truncated security key data'') :: 'k key_error + bytes)"
      by (auto simp only: skipFields.simps Let_def split: if_split)
    then show ?thesis by (simp del: skipFields.simps)
  next
    case False
    have "unat (of_nat (length buf - 4) :: u32) = length buf - 4" using Suc.prems by (intro unat_of_nat_u32) simp
    then have le: "4 + unat ?l \<le> length buf" using False unfolding word_less_nat_alt by linarith
    then have idx: "unat (4 + ?l) = 4 + unat ?l" using Suc.prems by (subst unat_add_u32) simp_all
    have eq: "skipFields (Suc n) buf = (skipFields n (drop (4 + unat ?l) buf) :: 'k key_error + bytes)" using False le idx by (simp add: Let_def)
    have lt: "length (drop (4 + unat ?l) buf) < 2 ^ 32" using Suc.prems by (simp add: less_imp_diff_less)
    have "\<exists>fs. length fs = Suc n \<and> buf = concat (map ssh_string fs) @ rest" if r: "skipFields (Suc n) buf = (Inr rest :: 'k key_error + bytes)" for rest
    proof -
      obtain fs where fs: "length fs = n" "drop (4 + unat ?l) buf = concat (map ssh_string fs) @ rest"
        using Suc.IH [OF lt] r [unfolded eq] by auto
      then have "buf = concat (map ssh_string (take (unat ?l) (drop 4 buf) # fs)) @ rest" using first_string [OF le] by simp
      then show ?thesis using fs(1) by (intro exI [of _ "take (unat ?l) (drop 4 buf) # fs"]) simp
    qed
    moreover have "(skipFields (Suc n) buf :: 'k key_error + bytes) \<noteq> Inl KeyPanic" unfolding eq using Suc.IH [OF lt] by simp
    ultimately show ?thesis by blast
  qed
qed simp

text \<open>The number of strings before the flags.\<close>

definition skFields :: "string \<Rightarrow> nat" where
  "skFields keyType = (if keyType = KeyAlgoSKECDSA256 then 3 else 2)"

lemma skFlags_eq:
  assumes "keyType = KeyAlgoSKED25519 \<or> keyType = KeyAlgoSKECDSA256"
  shows "(skFlagsFromRest keyType rest :: 'k key_error + byte) =
    (case skipFields (skFields keyType) rest of
       Inl e \<Rightarrow> Inl e | Inr [] \<Rightarrow> Inl (KeyError ''ssh: truncated security key data'') | Inr (flags # _) \<Rightarrow> Inr flags)"
  using assms by (auto simp: skFlagsFromRest_def skFields_def numeral_3_eq_3 numeral_2_eq_2 simp del: skipFields.simps)

lemma skFlags_rest:
  assumes "rest = concat (map ssh_string flds) @ flags # extra" "length flds = skFields keyType" "length rest < 2 ^ 32"
    "keyType = KeyAlgoSKED25519 \<or> keyType = KeyAlgoSKECDSA256"
  shows "skFlagsFromRest keyType rest = (Inr flags :: 'k key_error + byte)"
proof -
  have "skipFields (skFields keyType) rest = (Inr (flags # extra) :: 'k key_error + bytes)"
    using skipFields_strings [of flds "flags # extra", where ?'k = 'k] assms(1-3) by simp
  then show ?thesis by (simp add: skFlags_eq [OF assms(4)])
qed

text \<open>C32: the flags of a security key are read without a slice panic and exactly from the byte after the public key and the
  application, at 32 bits as the code computes, for all data of less than four gigabytes.\<close>

theorem skFlags_exact:
  assumes "length rest < 2 ^ 32" "keyType = KeyAlgoSKED25519 \<or> keyType = KeyAlgoSKECDSA256"
  shows "(skFlagsFromRest keyType rest :: 'k key_error + byte) \<noteq> Inl KeyPanic \<and>
    ((skFlagsFromRest keyType rest :: 'k key_error + byte) = Inr flags \<longleftrightarrow>
       (\<exists>flds extra. length flds = skFields keyType \<and> rest = concat (map ssh_string flds) @ flags # extra))"
proof -
  note only = skipFields_only [OF assms(1), of "skFields keyType", where ?'k = 'k]
  then have "(skFlagsFromRest keyType rest :: 'k key_error + byte) \<noteq> Inl KeyPanic"
    by (auto simp: skFlags_eq [OF assms(2)] split: sum.splits list.splits)
  moreover have "\<exists>flds extra. length flds = skFields keyType \<and> rest = concat (map ssh_string flds) @ flags # extra"
    if r: "(skFlagsFromRest keyType rest :: 'k key_error + byte) = Inr flags"
  proof -
    obtain extra where "skipFields (skFields keyType) rest = (Inr (flags # extra) :: 'k key_error + bytes)"
      using r by (auto simp: skFlags_eq [OF assms(2)] split: sum.splits list.splits)
    then show ?thesis using only by blast
  qed
  ultimately show ?thesis using skFlags_rest [OF _ _ assms, where ?'k = 'k] by blast
qed

theorem skFlags_exact_witness:
  "(skFlagsFromRest KeyAlgoSKED25519 (concat (map ssh_string [[1, 2], [3]]) @ [7, 0]) :: nat key_error + byte) = Inr 7"
proof -
  have "length (concat (map ssh_string [[1, 2], [3 :: byte]]) @ [7, 0]) < 2 ^ 32" by simp
  moreover have "\<exists>flds extra. length flds = skFields KeyAlgoSKED25519 \<and>
      concat (map ssh_string [[1, 2], [3]]) @ [7, 0] = concat (map ssh_string flds) @ 7 # extra"
    by (intro exI [of _ "[[1, 2], [3]]"] exI [of _ "[0]"]) (simp add: skFields_def KeyAlgoSKED25519_def KeyAlgoSKECDSA256_def)
  ultimately show ?thesis using skFlags_exact [of _ KeyAlgoSKED25519 7, where ?'k = nat] by blast
qed

text \<open>The two parts of a key file in the ssh wire format.\<close>

definition marshalEncrypted :: "openSSHEncryptedPrivateKey \<Rightarrow> bytes" where
  "marshalEncrypted w =
     ssh_string (bytes_of_string (CipherName w)) @ ssh_string (bytes_of_string (KdfName w)) @ ssh_string (KdfOpts w) @
     AppendUint32 [] (NumKeys w) @ ssh_string (PubKey w) @ ssh_string (PrivKeyBlock w) @ enc_Rest w"

definition marshalPrivate :: "openSSHPrivateKey \<Rightarrow> bytes" where
  "marshalPrivate k =
     AppendUint32 [] (Check1 k) @ AppendUint32 [] (Check2 k) @ ssh_string (bytes_of_string (Keytype k)) @ priv_Rest k"

text \<open>A key file without a passphrase that holds one security key.\<close>

definition security_key_file :: "openSSHEncryptedPrivateKey \<Rightarrow> openSSHPrivateKey \<Rightarrow> bytes list \<Rightarrow> byte \<Rightarrow> bytes \<Rightarrow> bool" where
  "security_key_file w k flds flags extra \<longleftrightarrow>
     CipherName w = ''none'' \<and> KdfName w = ''none'' \<and> KdfOpts w = [] \<and> NumKeys w = 1 \<and> PrivKeyBlock w = marshalPrivate k \<and>
     Check1 k = Check2 k \<and> (Keytype k = KeyAlgoSKED25519 \<or> Keytype k = KeyAlgoSKECDSA256) \<and>
     length flds = skFields (Keytype k) \<and> priv_Rest k = concat (map ssh_string flds) @ flags # extra \<and> length (priv_Rest k) < 2 ^ 32"

text \<open>A file with a security key, which the library does not handle, is recognised: the key that is reported has the public key of
  the file, the flags of the key, and the private part from the name of its type on, as the helper expects it.\<close>

theorem security_key_recognised:
  fixes lib :: "('k, 's) key_lib"
  assumes "security_key_file w k flds flags extra"
    "UnmarshalEncrypted lib (marshalEncrypted w) = Inr w" "UnmarshalPrivate lib (marshalPrivate k) = Inr k"
    "ParsePublicKey lib (PubKey w) = Inr pub" "lib_ParsePrivateKey lib pem = Inl (KeyError kUnhandledKeyTypeError)"
    "pemDecode lib pem = Some \<lparr>pem_Type = ''OPENSSH PRIVATE KEY'', pem_ProcType = [], pem_Bytes = privateKeyAuthMagic @ marshalEncrypted w\<rparr>"
  shows "parsePrivateKey lib pem =
    Inl (UnsupportedSecurityKeyError pub flags (ssh_string (bytes_of_string (Keytype k)) @ priv_Rest k))"
proof -
  have f: "CipherName w = ''none''" "KdfName w = ''none''" "KdfOpts w = []" "NumKeys w = 1" "PrivKeyBlock w = marshalPrivate k"
    "Check1 k = Check2 k" "Keytype k = KeyAlgoSKED25519 \<or> Keytype k = KeyAlgoSKECDSA256"
    using assms(1) by (simp_all add: security_key_file_def)
  have flags: "skFlagsFromRest (Keytype k) (priv_Rest k) = (Inr flags :: 'k key_error + byte)"
    using assms(1) unfolding security_key_file_def by (intro skFlags_rest) blast+
  have raw: "drop 8 (marshalPrivate k) = ssh_string (bytes_of_string (Keytype k)) @ priv_Rest k"
    by (simp add: marshalPrivate_def AppendUint32_def)
  have "parseOpenSSHPrivateKey lib (privateKeyAuthMagic @ marshalEncrypted w) unencryptedOpenSSHKey =
      UnsupportedSecurityKeyError pub flags (ssh_string (bytes_of_string (Keytype k)) @ priv_Rest k)"
    using assms(2-4) f flags raw by (simp add: parseOpenSSHPrivateKey_def unencryptedOpenSSHKey_def Let_def)
  then show ?thesis using assms(5,6) by (simp add: parsePrivateKey_def encryptedBlock_def)
qed

definition demo_private :: openSSHPrivateKey where
  "demo_private = \<lparr>Check1 = 9, Check2 = 9, Keytype = KeyAlgoSKED25519, priv_Rest = concat (map ssh_string [[1, 2], [3]]) @ [5, 0]\<rparr>"

definition demo_encrypted :: openSSHEncryptedPrivateKey where
  "demo_encrypted = \<lparr>CipherName = ''none'', KdfName = ''none'', KdfOpts = [], NumKeys = 1, PubKey = [1, 2],
     PrivKeyBlock = marshalPrivate demo_private, enc_Rest = []\<rparr>"

definition demo_lib :: "(bytes, nat) key_lib" where
  "demo_lib = \<lparr>UnmarshalEncrypted = (\<lambda>b. if b = marshalEncrypted demo_encrypted then Inr demo_encrypted else Inl []),
     UnmarshalPrivate = (\<lambda>b. if b = marshalPrivate demo_private then Inr demo_private else Inl []), UnmarshalKdf = (\<lambda>_. Inl []),
     ParsePublicKey = Inr,
     pemDecode = (\<lambda>_. Some \<lparr>pem_Type = ''OPENSSH PRIVATE KEY'', pem_ProcType = [],
       pem_Bytes = privateKeyAuthMagic @ marshalEncrypted demo_encrypted\<rparr>),
     bcryptKey = (\<lambda>_ _ _. Inl []), aesCtr = (\<lambda>_ _ b. b), aesCbc = (\<lambda>_ _ b. b),
     lib_ParsePrivateKey = (\<lambda>_. Inl (KeyError kUnhandledKeyTypeError)),
     lib_ParsePrivateKeyWithPassphrase = (\<lambda>_ _. Inl IncorrectPasswordError)\<rparr>"

theorem security_key_recognised_witness:
  "parsePrivateKey demo_lib [] = Inl (UnsupportedSecurityKeyError [1, 2] 5
     (ssh_string (bytes_of_string KeyAlgoSKED25519) @ concat (map ssh_string [[1, 2], [3]]) @ [5, 0]))"
proof -
  have "security_key_file demo_encrypted demo_private [[1, 2], [3]] 5 [0]"
    by (simp add: security_key_file_def demo_encrypted_def demo_private_def skFields_def KeyAlgoSKED25519_def KeyAlgoSKECDSA256_def)
  from security_key_recognised [OF this, of demo_lib "[1, 2]" "[]"] show ?thesis
    by (simp add: demo_lib_def demo_encrypted_def demo_private_def)
qed

section \<open>Attempts\<close>

text \<open>The answer of the program to attempt \<open>i\<close> with a request.\<close>

definition answered :: "'sig sk_env \<Rightarrow> string \<Rightarrow> 'k skSigner \<Rightarrow> nat \<Rightarrow> skSignRequest \<Rightarrow> 'sig sk_answer \<Rightarrow> bool" where
  "answered env helper s i req a \<longleftrightarrow>
     (\<exists>out. runHelper env helper (sk_flags s AND 1 \<noteq> 0) i (writeMessage (MarshalRequest env req)) = Inr out \<and> signResponse env out = a)"

lemma signLoop_attempts:
  "signLoop env helper s data algorithm i n = (r, reqs) \<Longrightarrow>
   length reqs \<le> n \<and>
   (\<forall>j<length reqs. reqs ! j = signRequest env s data algorithm (Pin (reqs ! j)) \<and>
      (if i + j = 0 then Pin (reqs ! j) = [] else readPin env (i + j) = Inr (Pin (reqs ! j))) \<and>
      (Suc j < length reqs \<longrightarrow> answered env helper s (i + j) (reqs ! j) SkWrongPin)) \<and>
   (\<forall>sig. r = Inr sig \<longrightarrow> reqs \<noteq> [] \<and> answered env helper s (i + length reqs - 1) (last reqs) (SkDone (Inr sig)))"
proof (induction n arbitrary: i reqs)
  case (Suc n)
  show ?case
  proof (cases "if i > 0 then readPin env i else Inr []")
    case (Inl e)
    then show ?thesis using Suc.prems by auto
  next
    case (Inr pin)
    define req where "req = signRequest env s data algorithm pin"
    have pin: "Pin req = pin" by (simp add: req_def signRequest_def)
    have step: "signLoop env helper s data algorithm i (Suc n) =
        (case runHelper env helper (sk_flags s AND 1 \<noteq> 0) i (writeMessage (MarshalRequest env req)) of
           Inl e \<Rightarrow> (Inl e, [req])
         | Inr out \<Rightarrow> (case signResponse env out of SkDone r \<Rightarrow> (r, [req])
            | SkWrongPin \<Rightarrow> (case signLoop env helper s data algorithm (i + 1) n of (r, reqs) \<Rightarrow> (r, req # reqs))))"
      unfolding req_def using Inr by (simp add: Let_def)
    have first: "req = signRequest env s data algorithm (Pin req)" "if i = 0 then Pin req = [] else readPin env i = Inr (Pin req)"
      using Inr pin by (auto simp: req_def split: if_splits)
    show ?thesis
    proof (cases "\<exists>reqs'. reqs = req # reqs' \<and> answered env helper s i req SkWrongPin \<and>
        signLoop env helper s data algorithm (Suc i) n = (r, reqs')")
      case True
      then obtain reqs' where reqs: "reqs = req # reqs'" and wrong: "answered env helper s i req SkWrongPin"
        and rest: "signLoop env helper s data algorithm (Suc i) n = (r, reqs')" by blast
      then show ?thesis using Suc.IH [OF rest] first by (auto simp: nth_Cons' less_Suc_eq_0_disj)
    next
      case False
      then have "reqs = [req] \<and> (\<forall>sig. r = Inr sig \<longrightarrow> answered env helper s i req (SkDone (Inr sig)))"
        using Suc.prems unfolding step answered_def
        by (auto split: sum.splits sk_answer.splits prod.splits)
      then show ?thesis using first by auto
    qed
  qed
qed auto

text \<open>C33: a signature needs at most four runs of the helper.  The first is without a PIN; each later one has the PIN that the user
  was asked for after the run before it reported a wrong one; and a signature that is returned is the one in the answer to the last
  request.\<close>

theorem sign_attempts:
  assumes "SignWithAlgorithm env s data algorithm = (r, reqs)"
  shows "\<exists>helper. length reqs \<le> 4 \<and>
    (\<forall>j<length reqs. reqs ! j = signRequest env s data algorithm (Pin (reqs ! j)) \<and>
       (if j = 0 then Pin (reqs ! j) = []
        else readPin env j = Inr (Pin (reqs ! j)) \<and> answered env helper s (j - 1) (reqs ! (j - 1)) SkWrongPin)) \<and>
    (\<forall>sig. r = Inr sig \<longrightarrow> reqs \<noteq> [] \<and> answered env helper s (length reqs - 1) (last reqs) (SkDone (Inr sig)))"
proof (cases "reqs = [] \<and> (\<exists>e. r = Inl e)")
  case False
  then obtain helper where "signLoop env helper s data algorithm 0 4 = (r, reqs)"
    using assms by (auto simp: SignWithAlgorithm_def Let_def split: if_splits)
  note loop = signLoop_attempts [OF this]
  have "readPin env j = Inr (Pin (reqs ! j)) \<and> answered env helper s (j - 1) (reqs ! (j - 1)) SkWrongPin"
    if "j < length reqs" "j \<noteq> 0" for j
  proof -
    have "Suc (j - 1) < length reqs" "j - 1 < length reqs" using that by auto
    then show ?thesis using loop that by (auto split: if_splits)
  qed
  then show ?thesis using loop by (intro exI [of _ helper]) (auto split: if_splits)
qed auto

text \<open>A helper that wants the PIN \<open>42\<close>.\<close>

definition demo_sk_env :: "nat sk_env" where
  "demo_sk_env = \<lparr>SSH_SK_PROVIDER = [], SSH_SK_HELPER = [], kDefaultSshSkHelperPath = ''/h'', sk_fileExists = (\<lambda>_. True), sk_debug = False,
     MarshalRequest = (\<lambda>req. bytes_of_string (Pin req)), UnmarshalResponse = (\<lambda>b. Inr (5, if b = [1] then 1 else 0, [0, 0, 0, 43])),
     UnmarshalSkSignature = Inr, UnmarshalSignature = (\<lambda>_. Inr 7),
     runHelper = (\<lambda>_ _ _ b. Inr (writeMessage (if b = writeMessage (bytes_of_string ''42'') then [1] else [0]))),
     readPin = (\<lambda>i. Inr ''42'')\<rparr>"

definition demo_signer :: "nat skSigner" where
  "demo_signer = parseSecurityKey ''key'' 0 1 [1]"

lemma demo_signed:
  "SignWithAlgorithm demo_sk_env demo_signer [] [] = (Inr 7, map (signRequest demo_sk_env demo_signer [] []) [[], ''42''])"
proof -
  have "length (writeMessage (bytes_of_string [])) \<noteq> length (writeMessage (bytes_of_string ''42''))"
    by (simp add: writeMessage_def)
  then have "writeMessage (bytes_of_string []) \<noteq> writeMessage (bytes_of_string ''42'')" by metis
  moreover have "readMessage (writeMessage [b]) = Inr ([b], [])" for b
    using helper_message [of "[b]" "[]"] by simp
  moreover have "Uint32 [0, 0, 0, 43] = 43" by (simp add: Uint32_def)
  ultimately have "signLoop demo_sk_env ''/h'' demo_signer [] [] 0 (Suc (Suc n)) =
      (Inr 7, map (signRequest demo_sk_env demo_signer [] []) [[], ''42''])" for n
    by (simp add: demo_sk_env_def Let_def signResponse_def signRequest_def)
  from this [of 2] show ?thesis by (simp add: SignWithAlgorithm_def Let_def) (simp add: demo_sk_env_def)
qed

theorem sign_attempts_witness: "length (map (signRequest demo_sk_env demo_signer [] []) [[], ''42'']) \<le> 4"
  using sign_attempts [OF demo_signed] by blast

end
