(* ===== verification/Auth.thy ===== *)
theory Auth
  imports KnownHosts Secrets Keys
begin

text \<open>
  The choice of the authentication methods and keys: \<open>tssh/auth_method.go\<close>, the address of the agent in
  \<open>tssh/agent.go\<close>, and the Kerberos files of \<open>tssh/krb5.go\<close>.  Keys, signers of the library and signatures are
  opaque; what the code uses of them is in the record \<open>auth_env\<close>.  A private key file of four gigabytes
  or more, the only one for which parsing can panic, counts as one that cannot be parsed.
\<close>

section \<open>Paths\<close>

text \<open>\<open>filepath.Clean\<close> and \<open>filepath.Join\<close> on Unix.\<close>

definition cleanStep :: "bool \<Rightarrow> string list \<Rightarrow> string \<Rightarrow> string list" where
  "cleanStep rooted out c =
     (if c = [] \<or> c = ''.'' then out
      else if c = ''..'' then
        (if out \<noteq> [] \<and> last out \<noteq> ''..'' then butlast out else if rooted then out else out @ [c])
      else out @ [c])"

definition Clean :: "string \<Rightarrow> string" where
  "Clean path =
     (let rooted = HasPrefix path ''/''; out = foldl (cleanStep rooted) [] (Split path (CHR ''/'')) in
      if rooted then CHR ''/'' # Join out ''/'' else if out = [] then ''.'' else Join out ''/'')"

definition filepath_Join :: "string list \<Rightarrow> string" where
  "filepath_Join elems =
     (let es = filter (\<lambda>e. e \<noteq> []) elems in if es = [] then [] else Clean (Join es ''/''))"

section \<open>Signers\<close>

text \<open>What signs: a signer of the library or the agent, a security key, or a certificate over another signer.  The wrapper
  of the program has a path for messages, the encrypted key of a signer that is not unlocked yet, the public key and
  the algorithms it prefers.\<close>

datatype ('k, 's) signer = LibSigner 's | SkSigner "'k skSigner" | CertSigner 'k "('k, 's) sshSigner"
and ('k, 's) sshSigner = SshSigner (getPath: string) (s_priKey: bytes) (PublicKey: 'k)
  (signer_of: "('k, 's) signer option") (Algorithms: "string list")

text \<open>The environment.  An agent is what it answers when asked for its signers.\<close>

record ('k, 's, 'sig) auth_env =
  au_secrets :: secret_env
  au_keys :: "('k, 's) key_lib"
  au_sk :: "'sig sk_env"
  key_Type :: "'k \<Rightarrow> string"
  Marshal :: "'k \<Rightarrow> bytes"
  ParseAuthorizedKey :: "bytes \<Rightarrow> 'k result"
  isCertificate :: "'k \<Rightarrow> bool"
  certMatches :: "'k \<Rightarrow> 'k \<Rightarrow> bool"
  lib_PublicKey :: "'s \<Rightarrow> 'k"
  lib_Sign :: "('k, 's) signer \<Rightarrow> bytes \<Rightarrow> 'sig result"
  lib_SignWithAlgorithm :: "('k, 's) signer \<Rightarrow> (bytes \<Rightarrow> string \<Rightarrow> 'sig result) option"
  isFileExist :: "string \<Rightarrow> bool"
  ReadFile :: "string \<Rightarrow> bytes result"
  userHomeDir :: string
  Getenv :: "string \<Rightarrow> string"
  on_windows :: bool
  au_currentUser :: "(string \<times> string) result"
  readSecret :: "nat \<Rightarrow> bytes result"
  dialAgent :: "string \<Rightarrow> ('s list result) result"
  getDefaultAgentAddr :: "string result"
  newKrb5Client :: "string \<Rightarrow> string \<Rightarrow> bool"
  LookupIP :: "string \<Rightarrow> string list"
  LookupAddr :: "string \<Rightarrow> string list"

definition au_uc :: "('k, 's, 'sig) auth_env \<Rightarrow> userConfig" where
  "au_uc env = se_uc (au_secrets env)"

definition homePath :: "('k, 's, 'sig) auth_env \<Rightarrow> string \<Rightarrow> string" where
  "homePath env path = resolveHomeDir (\<lambda>rest. filepath_Join [userHomeDir env, rest]) path"

definition paramTokens :: "('k, 's, 'sig) auth_env \<Rightarrow> sshParam \<Rightarrow> tokenEnv" where
  "paramTokens env p = tokensFor (au_uc env) (se_login (au_secrets env)) p"

definition rsaAlgos :: "string list" where
  "rsaAlgos = [''rsa-sha2-512'', ''rsa-sha2-256'', ''ssh-rsa'']"

definition newSshSigner :: "('k, 's, 'sig) auth_env \<Rightarrow> string \<Rightarrow> bytes \<Rightarrow> 'k \<Rightarrow> ('k, 's) signer option \<Rightarrow> ('k, 's) sshSigner" where
  "newSshSigner env path priKey pubKey signer =
     SshSigner path priKey pubKey signer
       (if key_Type env pubKey = ''ssh-rsa'' \<or> key_Type env pubKey = ''ssh-rsa-cert-v01@openssh.com'' then rsaAlgos else [])"

definition signerKey :: "('k, 's, 'sig) auth_env \<Rightarrow> ('k, 's) signer \<Rightarrow> 'k" where
  "signerKey env g = (case g of LibSigner s \<Rightarrow> lib_PublicKey env s | SkSigner sk \<Rightarrow> sk_pubKey sk | CertSigner cert _ \<Rightarrow> cert)"

text \<open>The passphrase is asked for at most three times; \<open>i\<close> numbers the questions that the user gets.\<close>

fun unlockLoop :: "('k, 's, 'sig) auth_env \<Rightarrow> string \<Rightarrow> bytes \<Rightarrow> nat \<Rightarrow> nat \<Rightarrow> 'k key_error + ('k, 's) signer" where
  "unlockLoop env path key i 0 = Inl (key_error.KeyError ''passphrase incorrect'')"
| "unlockLoop env path key i (Suc n) =
     (case readSecret env i of
        Inl e \<Rightarrow> Inl (key_error.KeyError e)
      | Inr secret \<Rightarrow>
          if secret = [] then unlockLoop env path key (Suc i) n
          else (case parsePrivateKeyWithPassphrase (au_keys env) key secret of
              Inl IncorrectPasswordError \<Rightarrow> unlockLoop env path key (Suc i) n
            | Inl (UnsupportedSecurityKeyError pub flags raw) \<Rightarrow> Inr (SkSigner (parseSecurityKey path pub flags raw))
            | Inl e \<Rightarrow> Inl e
            | Inr s \<Rightarrow> Inr (LibSigner s)))"

definition initSigner :: "('k, 's, 'sig) auth_env \<Rightarrow> nat \<Rightarrow> ('k, 's) sshSigner \<Rightarrow> 'k key_error + ('k, 's) sshSigner" where
  "initSigner env i s =
     (case signer_of s of
        Some _ \<Rightarrow> Inr s
      | None \<Rightarrow> (case unlockLoop env (getPath s) (s_priKey s) i 3 of
            Inl e \<Rightarrow> Inl e
          | Inr g \<Rightarrow> Inr (SshSigner (getPath s) (s_priKey s) (PublicKey s) (Some g) (Algorithms s))))"

text \<open>A security key signs with the helper, without an algorithm when none is asked for; every other signer is one of the library.\<close>

definition plainSign :: "('k, 's, 'sig) auth_env \<Rightarrow> ('k, 's) signer \<Rightarrow> bytes \<Rightarrow> 'sig result" where
  "plainSign env g data = (case g of SkSigner sk \<Rightarrow> fst (Keys.SignWithAlgorithm (au_sk env) sk data []) | _ \<Rightarrow> lib_Sign env g data)"

definition algorithmSign :: "('k, 's, 'sig) auth_env \<Rightarrow> ('k, 's) signer \<Rightarrow> (bytes \<Rightarrow> string \<Rightarrow> 'sig result) option" where
  "algorithmSign env g =
     (case g of SkSigner sk \<Rightarrow> Some (\<lambda>data alg. fst (Keys.SignWithAlgorithm (au_sk env) sk data alg))
      | _ \<Rightarrow> lib_SignWithAlgorithm env g)"

definition asKeyError :: "'a result \<Rightarrow> 'k key_error + 'a" where
  "asKeyError r = (case r of Inl e \<Rightarrow> Inl (key_error.KeyError e) | Inr x \<Rightarrow> Inr x)"

text \<open>Both operations return the signer too, which is unlocked after the first success.\<close>

definition base_Sign ::
  "('k, 's, 'sig) auth_env \<Rightarrow> nat \<Rightarrow> ('k, 's) sshSigner \<Rightarrow> bytes \<Rightarrow> ('k key_error + 'sig) \<times> ('k, 's) sshSigner" where
  "base_Sign env i s data =
     (case initSigner env i s of
        Inl e \<Rightarrow> (Inl e, s)
      | Inr s' \<Rightarrow> (case signer_of s' of
            None \<Rightarrow> (Inl KeyPanic, s')
          | Some g \<Rightarrow> (asKeyError (plainSign env g data), s')))"

definition base_SignWithAlgorithm ::
  "('k, 's, 'sig) auth_env \<Rightarrow> nat \<Rightarrow> ('k, 's) sshSigner \<Rightarrow> bytes \<Rightarrow> string \<Rightarrow>
     ('k key_error + 'sig) \<times> ('k, 's) sshSigner" where
  "base_SignWithAlgorithm env i s data alg =
     (case initSigner env i s of
        Inl e \<Rightarrow> (Inl e, s)
      | Inr s' \<Rightarrow> (case signer_of s' of
            None \<Rightarrow> base_Sign env i s' data
          | Some g \<Rightarrow> (case algorithmSign env g of
                Some sign \<Rightarrow> (asKeyError (sign data alg), s')
              | None \<Rightarrow> base_Sign env i s' data)))"

section \<open>Keys in files\<close>

definition parsePublicKey :: "('k, 's, 'sig) auth_env \<Rightarrow> string \<Rightarrow> 'k option" where
  "parsePublicKey env path =
     (case ReadFile env path of Inl _ \<Rightarrow> None
      | Inr data \<Rightarrow> (case ParseAuthorizedKey env data of Inl _ \<Rightarrow> None | Inr key \<Rightarrow> Some key))"

definition newPassphraseSigner :: "('k, 's, 'sig) auth_env \<Rightarrow> string \<Rightarrow> bytes \<Rightarrow> 'k option \<Rightarrow> ('k, 's) sshSigner option" where
  "newPassphraseSigner env path priKey pubKey =
     (case (case pubKey of Some k \<Rightarrow> Some k | None \<Rightarrow> parsePublicKey env (path @ ''.pub'')) of
        None \<Rightarrow> None
      | Some k \<Rightarrow> Some (newSshSigner env path priKey k None))"

text \<open>The signer of a parsed key; a key error other than a security key gives none.\<close>

definition parsedSigner :: "('k, 's, 'sig) auth_env \<Rightarrow> string \<Rightarrow> 'k key_error + 's \<Rightarrow> ('k, 's) sshSigner option" where
  "parsedSigner env path r =
     (let wrap = (\<lambda>g. Some (newSshSigner env path [] (signerKey env g) (Some g))) in
      case r of
        Inr s \<Rightarrow> wrap (LibSigner s)
      | Inl (UnsupportedSecurityKeyError pub flags raw) \<Rightarrow> wrap (SkSigner (parseSecurityKey path pub flags raw))
      | Inl _ \<Rightarrow> None)"

definition getSigner :: "('k, 's, 'sig) auth_env \<Rightarrow> sshParam \<Rightarrow> string \<Rightarrow> ('k, 's) sshSigner option" where
  "getSigner env p path =
     (case ReadFile env path of
        Inl _ \<Rightarrow> None
      | Inr privateKey \<Rightarrow>
          (case parsePrivateKey (au_keys env) privateKey of
             Inl (PassphraseMissingError pubKey) \<Rightarrow>
               let passphrase = getSecretConfig (au_secrets env) p ''Passphrase'' in
               if passphrase \<noteq> []
               then parsedSigner env path (parsePrivateKeyWithPassphrase (au_keys env) privateKey (bytes_of_string passphrase))
               else newPassphraseSigner env path privateKey pubKey
           | r \<Rightarrow> parsedSigner env path r))"

definition tryAddCert :: "('k, 's, 'sig) auth_env \<Rightarrow> string \<Rightarrow> ('k, 's) sshSigner \<Rightarrow> string \<Rightarrow> ('k, 's) sshSigner list" where
  "tryAddCert env path signer certPath =
     (let cp = homePath env certPath in
      if certPath = [] \<or> \<not> isFileExist env cp then []
      else case ReadFile env cp of Inl _ \<Rightarrow> []
        | Inr data \<Rightarrow> (case ParseAuthorizedKey env data of Inl _ \<Rightarrow> []
            | Inr cert \<Rightarrow>
                if \<not> isCertificate env cert \<or> \<not> certMatches env cert (PublicKey signer) then []
                else [newSshSigner env path [] cert (Some (CertSigner cert signer))]))"

definition appendSignerCerts ::
  "('k, 's, 'sig) auth_env \<Rightarrow> string \<Rightarrow> ('k, 's) sshSigner \<Rightarrow> string list \<Rightarrow> ('k, 's) sshSigner list" where
  "appendSignerCerts env path signer certFiles =
     signer # concat (map (tryAddCert env path signer) certFiles) @
       (if path \<noteq> [] then tryAddCert env path signer (path @ ''-cert.pub'') else [])"

section \<open>The agent\<close>

text \<open>The state kept between calls: the agent, looked up once, and the signers of the default files, read once.\<close>

record ('k, 's) auth_state =
  as_agent :: "'s list result option option"
  as_defaults :: "('k, 's) sshSigner list option"

definition getAgentAddr :: "('k, 's, 'sig) auth_env \<Rightarrow> sshParam \<Rightarrow> string result" where
  "getAgentAddr env p =
     (let addr = getOptionConfig (au_uc env) (sp_args p) ''IdentityAgent''; sock = Getenv env ''SSH_AUTH_SOCK'' in
      if addr \<noteq> [] then
        (if EqualFold addr ''none'' then Inr []
         else case expandTokens addr (paramTokens env p) ''%CdhijkLlnpru'' of
             Inl e \<Rightarrow> Inl (''expand IdentityAgent ['' @ addr @ ''] failed: '' @ e)
           | Inr a \<Rightarrow> Inr (homePath env a))
      else if sock \<noteq> [] then Inr (homePath env sock)
      else getDefaultAgentAddr env)"

definition getAgentClient ::
  "('k, 's, 'sig) auth_env \<Rightarrow> sshParam \<Rightarrow> ('k, 's) auth_state \<Rightarrow> 's list result option \<times> ('k, 's) auth_state" where
  "getAgentClient env p st =
     (case as_agent st of
        Some client \<Rightarrow> (client, st)
      | None \<Rightarrow>
          let client = (case getAgentAddr env p of Inl _ \<Rightarrow> None
                | Inr sock \<Rightarrow> if sock = [] then None
                    else (case dialAgent env sock of Inl _ \<Rightarrow> None | Inr agent \<Rightarrow> Some agent)) in
          (client, st\<lparr>as_agent := Some client\<rparr>))"

text \<open>The function that runs after the login drops the agent; it is not looked up again.\<close>

definition agentAfterLogin :: "('k, 's) auth_state \<Rightarrow> ('k, 's) auth_state" where
  "agentAfterLogin st = (case as_agent st of Some (Some _) \<Rightarrow> st\<lparr>as_agent := Some None\<rparr> | _ \<Rightarrow> st)"

section \<open>Public keys\<close>

definition defaultNames :: "string list" where
  "defaultNames = [''id_rsa'', ''id_ecdsa'', ''id_ecdsa_sk'', ''id_ed25519'', ''id_ed25519_sk'', ''identity'']"

definition defaultParam :: "string \<Rightarrow> sshParam" where
  "defaultParam name = \<lparr>sp_args = zeroArgs\<lparr>a_Destination := name\<rparr>, sp_host = [], sp_user = [], sp_port = [], sp_addr = [],
     sp_proxies = [], sp_command = [], sp_udpMode = kUdpModeNo\<rparr>"

definition getDefaultSigners ::
  "('k, 's, 'sig) auth_env \<Rightarrow> ('k, 's) auth_state \<Rightarrow> ('k, 's) sshSigner list \<times> ('k, 's) auth_state" where
  "getDefaultSigners env st =
     (case as_defaults st of
        Some signers \<Rightarrow> (signers, st)
      | None \<Rightarrow>
          let signers = List.map_filter (\<lambda>name. let path = filepath_Join [userHomeDir env, ''.ssh'', name] in
                 if isFileExist env path then getSigner env (defaultParam name) path else None) defaultNames in
          (signers, st\<lparr>as_defaults := Some signers\<rparr>))"

definition certificateFiles :: "('k, 's, 'sig) auth_env \<Rightarrow> sshParam \<Rightarrow> string list" where
  "certificateFiles env p =
     List.map_filter (\<lambda>f. case expandTokens f (paramTokens env p) ''%CdhijkLlnpru'' of Inl _ \<Rightarrow> None | Inr x \<Rightarrow> Some x)
       (getAllOptionConfig (au_uc env) (sp_args p) ''CertificateFile'')"

definition identityFiles :: "('k, 's, 'sig) auth_env \<Rightarrow> sshParam \<Rightarrow> string list" where
  "identityFiles env p =
     map (homePath env) (a_Identity (sp_args p)) @
     List.map_filter (\<lambda>f. case expandTokens f (paramTokens env p) ''%CdhijkLlnpru'' of Inl _ \<Rightarrow> None
         | Inr x \<Rightarrow> let path = homePath env x in
             if uc_useOpenSSH (au_uc env) \<and> \<not> isFileExist env path then None else Some path)
       (getAllOptionConfig (au_uc env) (sp_args p) ''IdentityFile'')"

definition agentMatch :: "('k, 's, 'sig) auth_env \<Rightarrow> 's list \<Rightarrow> 'k \<Rightarrow> 's option" where
  "agentMatch env agents key = find (\<lambda>a. Marshal env key = Marshal env (lib_PublicKey env a)) agents"

text \<open>The signers of one identity: the agent's, if it has the key of the public file; otherwise the private file is read, and again the
  agent's signer is preferred.\<close>

definition identitySigners ::
  "('k, 's, 'sig) auth_env \<Rightarrow> sshParam \<Rightarrow> string list \<Rightarrow> 's list \<Rightarrow> string \<Rightarrow> ('k, 's) sshSigner list" where
  "identitySigners env p certFiles agents path =
     (let pubPath = (if HasSuffix path ''.pub'' then path else path @ ''.pub'');
          pub = (if isFileExist env pubPath then parsePublicKey env pubPath else None) in
      case (case pub of None \<Rightarrow> None | Some key \<Rightarrow> map_option (Pair key) (agentMatch env agents key)) of
        Some (key, a) \<Rightarrow> appendSignerCerts env [] (newSshSigner env (path @ '' (agent)'') [] key (Some (LibSigner a))) certFiles
      | None \<Rightarrow>
          (case getSigner env p path of
             None \<Rightarrow> []
           | Some signer \<Rightarrow>
               (case agentMatch env agents (PublicKey signer) of
                  Some a \<Rightarrow> appendSignerCerts env (getPath signer)
                    (newSshSigner env (getPath signer @ '' (agent)'') [] (PublicKey signer) (Some (LibSigner a))) certFiles
                | None \<Rightarrow> appendSignerCerts env (getPath signer) signer certFiles)))"

text \<open>A signer is added unless its public key was added before.\<close>

definition addPubKeySigner ::
  "('k, 's, 'sig) auth_env \<Rightarrow> bytes list \<times> ('k, 's) sshSigner list \<Rightarrow> ('k, 's) sshSigner \<Rightarrow> bytes list \<times> ('k, 's) sshSigner list" where
  "addPubKeySigner env acc signer =
     (case acc of (added, signers) \<Rightarrow>
        let key = Marshal env (PublicKey signer) in
        if key \<in> set added then acc else (added @ [key], signers @ [signer]))"

definition addPubKeySigners ::
  "('k, 's, 'sig) auth_env \<Rightarrow> bytes list \<times> ('k, 's) sshSigner list \<Rightarrow> ('k, 's) sshSigner list \<Rightarrow> bytes list \<times> ('k, 's) sshSigner list" where
  "addPubKeySigners env acc signers = foldl (addPubKeySigner env) acc signers"

definition agentSignersOf :: "'s list result option \<Rightarrow> 's list" where
  "agentSignersOf client = (case client of Some (Inr signers) \<Rightarrow> signers | _ \<Rightarrow> [])"

definition getPublicKeysAuthMethod ::
  "('k, 's, 'sig) auth_env \<Rightarrow> sshParam \<Rightarrow> ('k, 's) auth_state \<Rightarrow> ('k, 's) sshSigner list option \<times> ('k, 's) auth_state" where
  "getPublicKeysAuthMethod env p st =
     (let opt = getOptionConfig (au_uc env) (sp_args p); v = opt ''PubkeyAuthentication'' in
      if EqualFold v ''no'' \<or> EqualFold v ''false'' then (None, st)
      else let certFiles = certificateFiles env p; identities = identityFiles env p in
        case getAgentClient env p st of (client, st1) \<Rightarrow>
          let agents = agentSignersOf client;
              acc1 = foldl (\<lambda>acc path. addPubKeySigners env acc (identitySigners env p certFiles agents path)) ([], []) identities;
              acc2 = (if EqualFold (opt ''IdentitiesOnly'') ''yes'' then acc1
                else foldl (\<lambda>acc a. addPubKeySigners env acc
                       (appendSignerCerts env [] (newSshSigner env ''ssh-agent'' [] (lib_PublicKey env a) (Some (LibSigner a))) certFiles))
                     acc1 agents) in
          case (if identities = [] then getDefaultSigners env st1 else ([], st1)) of (defaults, st2) \<Rightarrow>
            let acc3 = foldl (\<lambda>acc s. addPubKeySigners env acc (appendSignerCerts env (getPath s) s certFiles)) acc2 defaults in
            (if snd acc3 = [] then None else Some (snd acc3), st2))"


section \<open>Passwords and questions\<close>

text \<open>The callback of the password method, with the number of its calls and of the questions to the user.\<close>

record password_state =
  pw_idx :: nat
  pw_remember :: bool
  pw_reads :: nat

definition configuredPassword :: "('k, 's, 'sig) auth_env \<Rightarrow> sshParam \<Rightarrow> string" where
  "configuredPassword env p =
     (let password = sshOption_get (a_Option (sp_args p)) ''Password'' in
      if password \<noteq> [] then password else getSecretConfig (au_secrets env) p ''Password'')"

definition askUser :: "('k, 's, 'sig) auth_env \<Rightarrow> nat \<Rightarrow> string result" where
  "askUser env i = (case readSecret env i of Inl e \<Rightarrow> Inl e | Inr secret \<Rightarrow> Inr (string_of_bytes secret))"

definition passwordCallback :: "('k, 's, 'sig) auth_env \<Rightarrow> sshParam \<Rightarrow> password_state \<Rightarrow> string result \<times> password_state" where
  "passwordCallback env p st =
     (let st1 = st\<lparr>pw_idx := Suc (pw_idx st)\<rparr>; password = configuredPassword env p in
      if pw_idx st1 = 1 \<and> password \<noteq> [] then (Inr password, st1\<lparr>pw_remember := True\<rparr>)
      else (askUser env (pw_reads st1), st1\<lparr>pw_reads := Suc (pw_reads st1)\<rparr>))"

text \<open>The callback of the keyboard-interactive method: the questions seen, those answered from the configuration, and those the user was
  warned about.\<close>

record kbd_state =
  kb_idx :: nat
  questionSeen :: "string list"
  questionTried :: "string list"
  questionWarned :: "string list"
  kb_reads :: nat

definition kbdQuestion :: "('k, 's, 'sig) auth_env \<Rightarrow> sshParam \<Rightarrow> kbd_state \<Rightarrow> string \<Rightarrow> string result \<times> kbd_state" where
  "kbdQuestion env p st question =
     (let st1 = st\<lparr>kb_idx := Suc (kb_idx st)\<rparr>;
          seen = question \<in> set (questionSeen st1);
          configured = (if seen then [] else readQuestionAnswerConfig (au_secrets env) p (kb_idx st1) question);
          st2 = (if \<not> seen then st1\<lparr>questionSeen := question # questionSeen st1,
                     questionTried := (if configured \<noteq> [] then question # questionTried st1 else questionTried st1)\<rparr>
                 else if question \<in> set (questionTried st1) \<and> question \<notin> set (questionWarned st1)
                 then st1\<lparr>questionWarned := question # questionWarned st1\<rparr> else st1) in
      if configured \<noteq> [] then (Inr configured, st2)
      else (askUser env (kb_reads st2), st2\<lparr>kb_reads := Suc (kb_reads st2)\<rparr>))"

fun kbdCallback :: "('k, 's, 'sig) auth_env \<Rightarrow> sshParam \<Rightarrow> kbd_state \<Rightarrow> string list \<Rightarrow> string list result \<times> kbd_state" where
  "kbdCallback env p st [] = (Inr [], st)"
| "kbdCallback env p st (question # qs) =
     (case kbdQuestion env p st question of
        (Inl e, st1) \<Rightarrow> (Inl e, st1)
      | (Inr answer, st1) \<Rightarrow>
          (case kbdCallback env p st1 qs of
             (Inl e, st2) \<Rightarrow> (Inl e, st2)
           | (Inr answers, st2) \<Rightarrow> (Inr (answer # answers), st2)))"

section \<open>Kerberos\<close>

definition getKrb5Config :: "('k, 's, 'sig) auth_env \<Rightarrow> string" where
  "getKrb5Config env =
     (let v = Getenv env ''KRB5_CONFIG'';
          paths = (if on_windows env then [''C:'' @ [CHR 0x5C] @ ''ProgramData'' @ [CHR 0x5C] @ ''MIT'' @ [CHR 0x5C] @ ''Kerberos5'' @ [CHR 0x5C] @ ''krb5.ini'']
                   else [''/etc/krb5.conf'', ''/etc/krb5/krb5.conf'']) in
      if v \<noteq> [] then (if isFileExist env v then v else [])
      else case find (isFileExist env) paths of Some c \<Rightarrow> c | None \<Rightarrow> [])"

definition getKrb5CacheFile :: "('k, 's, 'sig) auth_env \<Rightarrow> string" where
  "getKrb5CacheFile env =
     (let v = Getenv env ''KRB5CCNAME'';
          existing = (\<lambda>path. if isFileExist env path then path else []) in
      if v \<noteq> [] then existing (if HasPrefix v ''FILE:'' then drop 5 v
                             else if HasPrefix v ''DIR:'' then filepath_Join [drop 4 v, ''tkt''] else v)
      else case au_currentUser env of
          Inl _ \<Rightarrow> []
        | Inr (name, uid) \<Rightarrow>
            existing (if on_windows env
              then filepath_Join [userHomeDir env, ''krb5cc_'' @
                     (case LastIndexByte name (CHR 0x5C) of Some idx \<Rightarrow> drop (Suc idx) name | None \<Rightarrow> name)]
              else ''/tmp/krb5cc_'' @ uid))"

text \<open>The host name for the Kerberos service, or none when the method is not available.\<close>

definition getGSSAPIWithMICAuthMethod :: "('k, 's, 'sig) auth_env \<Rightarrow> sshParam \<Rightarrow> string option" where
  "getGSSAPIWithMICAuthMethod env p =
     (let config = getKrb5Config env; cache = getKrb5CacheFile env in
      if \<not> EqualFold (getOptionConfig (au_uc env) (sp_args p) ''GSSAPIAuthentication'') ''yes'' \<or> config = [] \<or> cache = [] \<or>
         \<not> newKrb5Client env config cache
      then None
      else Some (case LookupIP env (sp_host p) of
             [] \<Rightarrow> sp_host p
           | ip # _ \<Rightarrow> (case LookupAddr env ip of [] \<Rightarrow> sp_host p | name # _ \<Rightarrow> TrimRightSet name {CHR ''.''})))"

section \<open>The methods\<close>

datatype ('k, 's) AuthMethod =
    PublicKeys "('k, 's) sshSigner list"
  | GSSAPIWithMIC string
  | KeyboardInteractive
  | PasswordMethod

definition getKeyboardInteractiveAuthMethod :: "('k, 's, 'sig) auth_env \<Rightarrow> sshParam \<Rightarrow> bool" where
  "getKeyboardInteractiveAuthMethod env p =
     (\<not> EqualFold (getOptionConfig (au_uc env) (sp_args p) ''KbdInteractiveAuthentication'') ''no'')"

definition getPasswordAuthMethod :: "('k, 's, 'sig) auth_env \<Rightarrow> sshParam \<Rightarrow> bool" where
  "getPasswordAuthMethod env p =
     (\<not> EqualFold (getOptionConfig (au_uc env) (sp_args p) ''PasswordAuthentication'') ''no'')"

definition getAuthMethods ::
  "('k, 's, 'sig) auth_env \<Rightarrow> sshParam \<Rightarrow> ('k, 's) auth_state \<Rightarrow> ('k, 's) AuthMethod list \<times> ('k, 's) auth_state" where
  "getAuthMethods env p st =
     (case getPublicKeysAuthMethod env p st of (keys, st') \<Rightarrow>
        ((case keys of Some signers \<Rightarrow> [PublicKeys signers] | None \<Rightarrow> []) @
         (case getGSSAPIWithMICAuthMethod env p of Some host \<Rightarrow> [GSSAPIWithMIC host] | None \<Rightarrow> []) @
         (if getKeyboardInteractiveAuthMethod env p then [KeyboardInteractive] else []) @
         (if getPasswordAuthMethod env p then [PasswordMethod] else []), st'))"

section \<open>Agent forwarding\<close>

datatype agent_forward = NotForwarded | ForwardWarning string | AgentForwarded

definition forwardToRemote :: "('k, 's, 'sig) auth_env \<Rightarrow> bool \<Rightarrow> string \<Rightarrow> unit result" where
  "forwardToRemote env channels sock =
     (if \<not> channels then Inl ''agent: already have handler for auth-agent@openssh.com''
      else case dialAgent env sock of Inl e \<Rightarrow> Inl e | Inr _ \<Rightarrow> Inr ())"

text \<open>\<open>channels\<close> tells whether the client took the handler for agent channels, \<open>request\<close> is the server's answer.\<close>

definition sshAgentForward :: "('k, 's, 'sig) auth_env \<Rightarrow> sshParam \<Rightarrow> bool \<Rightarrow> bool result \<Rightarrow> agent_forward" where
  "sshAgentForward env p channels request =
     (let args = sp_args p in
      if a_NoForwardAgent args \<or> \<not> a_ForwardAgent args \<and> \<not> EqualFold (getOptionConfig (au_uc env) args ''ForwardAgent'') ''yes''
      then NotForwarded
      else case getAgentAddr env p of
          Inl e \<Rightarrow> ForwardWarning (''get agent addr failed: '' @ e)
        | Inr sock \<Rightarrow>
            if sock = [] then ForwardWarning ''forward agent but the socket address is not set''
            else case forwardToRemote env channels sock of
                Inl e \<Rightarrow> ForwardWarning (''forward to agent ['' @ sock @ ''] failed: '' @ e)
              | Inr _ \<Rightarrow> (case request of
                    Inl e \<Rightarrow> ForwardWarning (''request agent forwarding failed: '' @ e)
                  | Inr ok \<Rightarrow> if ok then AgentForwarded else ForwardWarning ''The agent forwarding request was denied.''))"

end
