(* ===== verification/AuthProps.thy ===== *)
theory AuthProps
  imports Auth LoginProps
begin

text \<open>
  What the choice of keys and the callbacks of the authentication methods do: which public keys are offered and in
  which order, that a configured answer is given once, and when an implicit certificate is left out.
\<close>

section \<open>The keys that are offered\<close>

text \<open>The first element for each value of a function.\<close>

fun firstBy :: "('a \<Rightarrow> 'b) \<Rightarrow> 'a list \<Rightarrow> 'a list" where
  "firstBy f [] = []"
| "firstBy f (x # xs) = x # filter (\<lambda>y. f y \<noteq> f x) (firstBy f xs)"

lemma firstBy_subset: "set (firstBy f xs) \<subseteq> set xs"
  by (induction xs) auto

lemma firstBy_image: "f ` set (firstBy f xs) = f ` set xs"
proof (induction xs)
  case (Cons x xs)
  have "f ` set (firstBy f (x # xs)) = insert (f x) (f ` set (firstBy f xs))" by auto
  then show ?case using Cons by simp
qed simp

lemma distinct_firstBy: "distinct (map f (firstBy f xs))"
proof (induction xs)
  case (Cons x xs)
  then have "distinct (map f (filter (\<lambda>y. f y \<noteq> f x) (firstBy f xs)))" by (rule distinct_map_filter)
  then show ?case by auto
qed simp

definition keyBytes :: "('k, 's, 'sig) auth_env \<Rightarrow> ('k, 's) sshSigner \<Rightarrow> bytes" where
  "keyBytes env s = Marshal env (PublicKey s)"

text \<open>All signers of the sources, in the order of the sources.\<close>

definition agentCandidates :: "('k, 's, 'sig) auth_env \<Rightarrow> sshParam \<Rightarrow> 's list \<Rightarrow> ('k, 's) sshSigner list" where
  "agentCandidates env p agents =
     concat (map (\<lambda>a. appendSignerCerts env [] (newSshSigner env ''ssh-agent'' [] (lib_PublicKey env a) (Some (LibSigner a)))
       (certificateFiles env p)) agents)"

definition candidates ::
  "('k, 's, 'sig) auth_env \<Rightarrow> sshParam \<Rightarrow> 's list \<Rightarrow> ('k, 's) sshSigner list \<Rightarrow> ('k, 's) sshSigner list" where
  "candidates env p agents defaults =
     concat (map (identitySigners env p (certificateFiles env p) agents) (identityFiles env p)) @
     (if EqualFold (getOptionConfig (au_uc env) (sp_args p) ''IdentitiesOnly'') ''yes'' then [] else agentCandidates env p agents) @
     (if identityFiles env p = []
      then concat (map (\<lambda>s. appendSignerCerts env (getPath s) s (certificateFiles env p)) defaults) else [])"

lemma addPubKeySigners_firstBy:
  "addPubKeySigners env (map (keyBytes env) ss, ss) xs =
     (let r = ss @ filter (\<lambda>y. keyBytes env y \<notin> keyBytes env ` set ss) (firstBy (keyBytes env) xs) in (map (keyBytes env) r, r))"
proof (induction xs arbitrary: ss)
  case (Cons x xs)
  show ?case
  proof (cases "keyBytes env x \<in> keyBytes env ` set ss")
    case True
    then have "filter (\<lambda>y. keyBytes env y \<notin> keyBytes env ` set ss) (firstBy (keyBytes env) (x # xs)) =
        filter (\<lambda>y. keyBytes env y \<notin> keyBytes env ` set ss) (firstBy (keyBytes env) xs)"
      by (auto intro!: filter_cong)
    then show ?thesis using Cons True
      by (simp add: addPubKeySigners_def addPubKeySigner_def keyBytes_def [symmetric])
  next
    case False
    have "addPubKeySigners env (map (keyBytes env) ss, ss) (x # xs) =
        addPubKeySigners env (map (keyBytes env) (ss @ [x]), ss @ [x]) xs"
      using False by (simp add: addPubKeySigners_def addPubKeySigner_def keyBytes_def [symmetric])
    moreover have "filter (\<lambda>y. keyBytes env y \<notin> insert (keyBytes env x) (keyBytes env ` set ss)) (firstBy (keyBytes env) xs) =
        filter (\<lambda>y. keyBytes env y \<noteq> keyBytes env x \<and> keyBytes env y \<notin> keyBytes env ` set ss) (firstBy (keyBytes env) xs)"
      by (rule filter_cong) auto
    ultimately show ?thesis using Cons [of "ss @ [x]"] False by (simp add: Let_def conj_commute)
  qed
qed (simp add: addPubKeySigners_def)

lemma foldl_addPubKeySigners:
  "foldl (\<lambda>acc y. addPubKeySigners env acc (g y)) acc ys = addPubKeySigners env acc (concat (map g ys))"
  by (induction ys arbitrary: acc) (simp_all add: addPubKeySigners_def)

lemma addPubKeySigners_append:
  "addPubKeySigners env (addPubKeySigners env acc xs) ys = addPubKeySigners env acc (xs @ ys)"
  by (simp add: addPubKeySigners_def)

lemma addPubKeySigners_Nil: "addPubKeySigners env acc [] = acc"
  by (simp add: addPubKeySigners_def)

lemma addPubKeySigners_all: "snd (addPubKeySigners env ([], []) xs) = firstBy (keyBytes env) xs"
  using addPubKeySigners_firstBy [of env "[]" xs] by (simp add: Let_def)

definition pubkeyDisabled :: "('k, 's, 'sig) auth_env \<Rightarrow> sshParam \<Rightarrow> bool" where
  "pubkeyDisabled env p =
     (let v = getOptionConfig (au_uc env) (sp_args p) ''PubkeyAuthentication'' in EqualFold v ''no'' \<or> EqualFold v ''false'')"

lemma getPublicKeysAuthMethod_candidates:
  assumes "\<not> pubkeyDisabled env p" "getAgentClient env p st = (client, st1)" "fst (getDefaultSigners env st1) = defaults"
  shows "fst (getPublicKeysAuthMethod env p st) =
    (let ss = firstBy (keyBytes env) (candidates env p (agentSignersOf client) defaults) in if ss = [] then None else Some ss)"
proof -
  obtain st2 where "getDefaultSigners env st1 = (defaults, st2)" using assms(3) by (cases "getDefaultSigners env st1") simp
  then show ?thesis
    using assms(1,2)
    by (simp add: getPublicKeysAuthMethod_def pubkeyDisabled_def Let_def foldl_addPubKeySigners addPubKeySigners_append
        addPubKeySigners_all [symmetric] candidates_def agentCandidates_def addPubKeySigners_Nil)
qed

text \<open>C16: the public keys that are offered are the signers of the sources in order, each key once: the identity files with their
  certificates, then the agent unless only identities are wanted, and the default files when there is no identity
  file.  With IdentitiesOnly and an identity file, every offered key belongs to one of the files.\<close>

theorem offered_public_keys:
  assumes "\<not> pubkeyDisabled env p" "getAgentClient env p st = (client, st1)" "fst (getDefaultSigners env st1) = defaults"
    "fst (getPublicKeysAuthMethod env p st) = Some signers"
  shows "signers = firstBy (keyBytes env) (candidates env p (agentSignersOf client) defaults) \<and>
    distinct (map (keyBytes env) signers) \<and>
    keyBytes env ` set signers = keyBytes env ` set (candidates env p (agentSignersOf client) defaults) \<and>
    (EqualFold (getOptionConfig (au_uc env) (sp_args p) ''IdentitiesOnly'') ''yes'' \<and> identityFiles env p \<noteq> [] \<longrightarrow>
      (\<forall>s\<in>set signers. \<exists>path\<in>set (identityFiles env p).
         s \<in> set (identitySigners env p (certificateFiles env p) (agentSignersOf client) path)))"
proof -
  have eq: "signers = firstBy (keyBytes env) (candidates env p (agentSignersOf client) defaults)"
    using getPublicKeysAuthMethod_candidates [OF assms(1-3)] assms(4) by (auto simp: Let_def split: if_splits)
  then have sub: "set signers \<subseteq> set (candidates env p (agentSignersOf client) defaults)" by (simp add: firstBy_subset)
  have "\<exists>path\<in>set (identityFiles env p). s \<in> set (identitySigners env p (certificateFiles env p) (agentSignersOf client) path)"
    if "EqualFold (getOptionConfig (au_uc env) (sp_args p) ''IdentitiesOnly'') ''yes''" "identityFiles env p \<noteq> []" "s \<in> set signers" for s
    using sub that by (auto simp: candidates_def)
  then show ?thesis using eq by (simp add: distinct_firstBy firstBy_image)
qed


section \<open>Answers\<close>

fun passwordCalls :: "('k, 's, 'sig) auth_env \<Rightarrow> sshParam \<Rightarrow> password_state \<Rightarrow> nat \<Rightarrow> string result list" where
  "passwordCalls env p st 0 = []"
| "passwordCalls env p st (Suc n) = (case passwordCallback env p st of (r, st') \<Rightarrow> r # passwordCalls env p st' n)"

lemma passwordCalls_later: "0 < pw_idx st \<Longrightarrow> passwordCalls env p st n = map (askUser env) [pw_reads st..<pw_reads st + n]"
  by (induction n arbitrary: st) (simp_all add: passwordCallback_def Let_def upt_conv_Cons del: upt_Suc)

text \<open>The configured password is tried once and first; every other attempt asks the user, in order.\<close>

theorem password_attempts:
  "passwordCalls env p \<lparr>pw_idx = 0, pw_remember = False, pw_reads = 0\<rparr> n =
     (if configuredPassword env p = [] then map (askUser env) [0..<n]
      else take n (Inr (configuredPassword env p) # map (askUser env) [0..<n - 1]))"
proof (cases n)
  case (Suc m)
  then show ?thesis by (simp add: passwordCallback_def Let_def passwordCalls_later upt_conv_Cons del: upt_Suc)
qed simp

text \<open>What the answer to a question may be: the configured one for a new question, or what the user typed.\<close>

definition answer_ok :: "('k, 's, 'sig) auth_env \<Rightarrow> sshParam \<Rightarrow> kbd_state \<Rightarrow> kbd_state \<Rightarrow> string list \<Rightarrow> string list \<Rightarrow> nat \<Rightarrow> bool" where
  "answer_ok env p st st' qs answers i =
     (let cfg = readQuestionAnswerConfig (au_secrets env) p (kb_idx st + i + 1) (qs ! i) in
      if qs ! i \<in> set (questionSeen st) \<union> set (take i qs) \<or> cfg = []
      then \<exists>r. kb_reads st \<le> r \<and> r < kb_reads st' \<and> askUser env r = Inr (answers ! i)
      else answers ! i = cfg)"

lemma kbdQuestion_answer:
  assumes "kbdQuestion env p st q = (r, st1)"
  shows "kb_idx st1 = Suc (kb_idx st)" "set (questionSeen st1) = insert q (set (questionSeen st))" "kb_reads st \<le> kb_reads st1"
    "if q \<in> set (questionSeen st) \<or> readQuestionAnswerConfig (au_secrets env) p (Suc (kb_idx st)) q = []
     then kb_reads st < kb_reads st1 \<and> r = Auth.askUser env (kb_reads st)
     else r = Inr (readQuestionAnswerConfig (au_secrets env) p (Suc (kb_idx st)) q)"
  using assms by (auto simp: kbdQuestion_def Let_def split: if_splits)

lemma kbdCallback_reads: "kbdCallback env p st qs = (r, st') \<Longrightarrow> kb_reads st \<le> kb_reads st'"
  by (induction qs arbitrary: st r) (fastforce split: sum.splits prod.splits dest: kbdQuestion_answer(3))+

text \<open>C36: every question of a challenge gets one answer.  A configured answer is given only the first time a question is seen, in this
  challenge or an earlier one; every other answer is what the user typed for it.\<close>

theorem configured_answer_once:
  assumes "kbdCallback env p st qs = (Inr answers, st')"
  shows "length answers = length qs \<and> (\<forall>i<length qs. answer_ok env p st st' qs answers i) \<and>
    set (questionSeen st') = set (questionSeen st) \<union> set qs"
  using assms
proof (induction qs arbitrary: st answers)
  case (Cons q qs)
  obtain a as st1 where step: "kbdQuestion env p st q = (Inr a, st1)" and a: "answers = a # as" "kbdCallback env p st1 qs = (Inr as, st')"
    using Cons.prems by (auto split: prod.splits sum.splits)
  note q = kbdQuestion_answer [OF step]
  note IH = Cons.IH [OF a(2)]
  have "kb_reads st1 \<le> kb_reads st'" by (rule kbdCallback_reads [OF a(2)])
  then have "answer_ok env p st st' (q # qs) answers 0"
    using a(1) q(4) by (auto simp: answer_ok_def Let_def split: if_splits)
  moreover have "answer_ok env p st st' (q # qs) answers (Suc i)" if "i < length qs" for i
  proof -
    have "answer_ok env p st1 st' qs as i" using IH that by blast
    then show ?thesis using a(1) q(1-3) by (auto simp: answer_ok_def Let_def split: if_splits intro: le_trans)
  qed
  ultimately show ?case using IH a(1) q(2) by (auto simp: less_Suc_eq_0_disj)
qed simp

section \<open>Passphrases\<close>

definition wrongPassphrase :: "('k, 's, 'sig) auth_env \<Rightarrow> bytes \<Rightarrow> bytes \<Rightarrow> bool" where
  "wrongPassphrase env key secret \<longleftrightarrow>
     secret = [] \<or> parsePrivateKeyWithPassphrase (au_keys env) key secret = Inl IncorrectPasswordError"

lemma unlockLoop_attempts:
  assumes "unlockLoop env path key i n = Inr g"
  shows "\<exists>j<n. \<exists>secret. readSecret env (i + j) = Inr secret \<and> \<not> wrongPassphrase env key secret \<and>
    (\<forall>k<j. \<exists>s. readSecret env (i + k) = Inr s \<and> wrongPassphrase env key s)"
  using assms
proof (induction n arbitrary: i)
  case (Suc n)
  obtain secret where s: "readSecret env i = Inr secret" using Suc.prems by (auto split: sum.splits)
  show ?case
  proof (cases "wrongPassphrase env key secret")
    case True
    then have "unlockLoop env path key (Suc i) n = Inr g" using Suc.prems s by (auto simp: wrongPassphrase_def split: if_splits)
    from Suc.IH [OF this] obtain j t where j: "j < n" "readSecret env (Suc i + j) = Inr t" "\<not> wrongPassphrase env key t"
      "\<forall>k<j. \<exists>s. readSecret env (Suc i + k) = Inr s \<and> wrongPassphrase env key s" by blast
    have "\<exists>s. readSecret env (i + k) = Inr s \<and> wrongPassphrase env key s" if "k < Suc j" for k
      using that j(4) True s by (cases k) auto
    then show ?thesis using j(1-3) by (intro exI [of _ "Suc j"]) auto
  next
    case False
    then show ?thesis using s by (intro exI [of _ 0]) auto
  qed
qed simp

text \<open>A key is unlocked after at most three questions, by the first passphrase that is not wrong, and stays unlocked: later signatures ask
  for nothing.\<close>

theorem passphrase_attempts:
  assumes "initSigner env i s = Inr s'"
  shows "signer_of s' \<noteq> None \<and> PublicKey s' = PublicKey s \<and> (\<forall>env' i'. initSigner env' i' s' = Inr s') \<and>
    (signer_of s = None \<longrightarrow> (\<exists>j<3. \<exists>secret. readSecret env (i + j) = Inr secret \<and> \<not> wrongPassphrase env (s_priKey s) secret \<and>
       (\<forall>k<j. \<exists>t. readSecret env (i + k) = Inr t \<and> wrongPassphrase env (s_priKey s) t)))"
  using assms unlockLoop_attempts [of env "getPath s" "s_priKey s" i 3]
  by (auto simp: initSigner_def split: option.splits sum.splits simp del: unlockLoop.simps)


section \<open>Implicit certificates\<close>

text \<open>A certificate beside an identity file is not offered when the public key file exists and the agent has the key, although it is
  offered with the same agent key when only the private file exists: the path is not passed on.\<close>

theorem agent_key_without_certificate:
  fixes env :: "('k, 's, 'sig) auth_env"
  defines "plain \<equiv> \<lambda>path key a. newSshSigner env (path @ '' (agent)'') [] key (Some (LibSigner a))"
  assumes "isFileExist env (path @ ''.pub'')" "\<not> HasSuffix path ''.pub''" "parsePublicKey env (path @ ''.pub'') = Some key"
    "agentMatch env agents key = Some a" "tryAddCert env path (plain path key a) (path @ ''-cert.pub'') = [cert]" "path \<noteq> []"
  shows "identitySigners env p [] agents path = [plain path key a] \<and>
    appendSignerCerts env path (plain path key a) [] = [plain path key a, cert]"
  using assms(2-) by (simp add: identitySigners_def appendSignerCerts_def Let_def plain_def)

section \<open>An example\<close>

text \<open>One identity file with a public key and a certificate; the agent has the key and another one.\<close>

definition demo_secrets :: secret_env where
  "demo_secrets = \<lparr>se_uc = demo_uc, se_login = demo_login_env, splitCommandLine = (\<lambda>c. Inr [c]),
     runCommand = (\<lambda>_. Inr ''out''), GenerateCode = Inr\<rparr>"

definition demo_auth :: "(bytes, nat, nat) auth_env" where
  "demo_auth = \<lparr>au_secrets = demo_secrets, au_keys = demo_lib\<lparr>lib_ParsePrivateKey := (\<lambda>_. Inl (PassphraseMissingError (Some [5]))),
       lib_ParsePrivateKeyWithPassphrase := (\<lambda>_ s. if s = [9] then Inr 5 else Inl IncorrectPasswordError)\<rparr>,
     au_sk = demo_sk_env, key_Type = (\<lambda>_. ''ssh-ed25519''), Marshal = (\<lambda>k. k), ParseAuthorizedKey = Inr,
     isCertificate = (\<lambda>k. k = [6]), certMatches = (\<lambda>c k. k = [5]), lib_PublicKey = (\<lambda>s. [of_nat s]),
     lib_Sign = (\<lambda>_ _. Inr 1), lib_SignWithAlgorithm = (\<lambda>_. None),
     isFileExist = (\<lambda>f. f \<in> {''/k'', ''/k.pub'', ''/k-cert.pub''}),
     ReadFile = (\<lambda>f. if f = ''/k-cert.pub'' then Inr [6] else Inr [5]), userHomeDir = ''/home'', Getenv = (\<lambda>v. if v = ''SSH_AUTH_SOCK'' then ''/a'' else []),
     on_windows = False, au_currentUser = Inr (''u'', ''1''), readSecret = (\<lambda>i. Inr [of_nat (7 + i)]), dialAgent = (\<lambda>_. Inr (Inr [5, 8])),
     getDefaultAgentAddr = Inr [], newKrb5Client = (\<lambda>_ _. False), LookupIP = (\<lambda>_. []), LookupAddr = (\<lambda>_. [])\<rparr>"

definition demo_auth_param :: sshParam where
  "demo_auth_param = (defaultParam ''h'')\<lparr>sp_args := zeroArgs\<lparr>a_Identity := [''/k''], a_Destination := ''h'',
     a_Option := (\<lambda>k. if k = ''identitiesonly'' then [''yes''] else [])\<rparr>\<rparr>"

definition demo_auth_state :: "(bytes, nat) auth_state" where
  "demo_auth_state = \<lparr>as_agent = None, as_defaults = None\<rparr>"

definition demo_agent_signer :: "(bytes, nat) sshSigner" where
  "demo_agent_signer = newSshSigner demo_auth (''/k'' @ '' (agent)'') [] [5] (Some (LibSigner 5))"


lemma demo_offered:
  "fst (getPublicKeysAuthMethod demo_auth demo_auth_param demo_auth_state) = Some [demo_agent_signer]"
  "getAgentClient demo_auth demo_auth_param demo_auth_state = (Some (Inr [5, 8]), demo_auth_state\<lparr>as_agent := Some (Some (Inr [5, 8]))\<rparr>)"
  "identityFiles demo_auth demo_auth_param = [''/k'']" "\<not> pubkeyDisabled demo_auth demo_auth_param"
  "EqualFold (getOptionConfig (au_uc demo_auth) (sp_args demo_auth_param) ''IdentitiesOnly'') ''yes''"
  by code_simp+

theorem offered_public_keys_witness:
  "distinct (map (keyBytes demo_auth) [demo_agent_signer]) \<and>
   demo_agent_signer \<in> set (identitySigners demo_auth demo_auth_param (certificateFiles demo_auth demo_auth_param) [5, 8] ''/k'')"
  using offered_public_keys [OF demo_offered(4,2) refl demo_offered(1)] demo_offered(3,5) by (simp add: agentSignersOf_def distinct_firstBy)

theorem configured_answer_once_witness:
  "\<exists>st'. kbdCallback demo_auth demo_auth_param \<lparr>kb_idx = 0, questionSeen = [], questionTried = [], questionWarned = [], kb_reads = 0\<rparr>
       [''q'', ''q''] = (Inr [[CHR 0x07], [CHR 0x08]], st') \<and> length [[CHR 0x07], [CHR 0x08]] = length [''q'', ''q''] \<and>
     answer_ok demo_auth demo_auth_param \<lparr>kb_idx = 0, questionSeen = [], questionTried = [], questionWarned = [], kb_reads = 0\<rparr> st'
       [''q'', ''q''] [[CHR 0x07], [CHR 0x08]] 1"
proof -
  let ?st = "\<lparr>kb_idx = 0, questionSeen = [], questionTried = [], questionWarned = [], kb_reads = 0\<rparr>"
  have "fst (kbdCallback demo_auth demo_auth_param ?st [''q'', ''q'']) = Inr [[CHR 0x07], [CHR 0x08]]" by code_simp
  then obtain st' where s: "kbdCallback demo_auth demo_auth_param ?st [''q'', ''q''] = (Inr [[CHR 0x07], [CHR 0x08]], st')"
    by (cases "kbdCallback demo_auth demo_auth_param ?st [''q'', ''q'']") simp
  from configured_answer_once [OF s] have "answer_ok demo_auth demo_auth_param ?st st' [''q'', ''q''] [[CHR 0x07], [CHR 0x08]] 1"
    by simp
  with s show ?thesis by auto
qed

theorem passphrase_attempts_witness:
  "\<exists>s'. initSigner demo_auth 0 (SshSigner ''/k'' [5] [5] None []) = Inr s' \<and> signer_of s' \<noteq> None"
proof -
  have "initSigner demo_auth 0 (SshSigner ''/k'' [5] [5] None []) = Inr (SshSigner ''/k'' [5] [5] (Some (LibSigner 5)) [])" by code_simp
  then show ?thesis using passphrase_attempts by blast
qed

theorem agent_key_without_certificate_witness:
  "identitySigners demo_auth demo_auth_param [] [5, 8] ''/k'' = [demo_agent_signer] \<and>
   appendSignerCerts demo_auth ''/k'' demo_agent_signer [] =
     [demo_agent_signer, newSshSigner demo_auth ''/k'' [] [6] (Some (CertSigner [6] demo_agent_signer))]"
proof -
  have "isFileExist demo_auth (''/k'' @ ''.pub'')" "\<not> HasSuffix ''/k'' ''.pub''" "parsePublicKey demo_auth (''/k'' @ ''.pub'') = Some [5]"
    "agentMatch demo_auth [5, 8] [5] = Some 5"
    "tryAddCert demo_auth ''/k'' (newSshSigner demo_auth (''/k'' @ '' (agent)'') [] [5] (Some (LibSigner 5))) (''/k'' @ ''-cert.pub'') =
       [newSshSigner demo_auth ''/k'' [] [6] (Some (CertSigner [6] demo_agent_signer))]" by code_simp+
  from agent_key_without_certificate [OF this, of demo_auth_param] show ?thesis by (simp add: demo_agent_signer_def)
qed

end
