(* ===== verification/Listen.thy ===== *)
theory Listen
  imports Forward Login
begin

text \<open>
  The listeners and copy loops of port forwarding: \<open>tssh/forward_tcp.go\<close>, the listeners of \<open>tssh/forward_udp.go\<close> and
  \<open>forwardChannel\<close> of \<open>tssh/forward.go\<close>.  Unix sockets are files with an identity, a kind and a mode; what the
  operating system allows is in \<open>listen_env\<close>.
\<close>

section \<open>The mode of a socket\<close>

text \<open>Modes are written in decimal: 127 is octal 177, 438 is octal 666 and 511 is octal 777.\<close>

definition oct_digit :: "char \<Rightarrow> bool" where
  "oct_digit c \<longleftrightarrow> byte_in 48 55 c"

text \<open>\<open>strconv.ParseInt\<close> in base 8 for 32 bits.\<close>

definition ParseInt8 :: "string \<Rightarrow> int option" where
  "ParseInt8 s =
     (let neg = HasPrefix s ''-''; ds = (if neg \<or> HasPrefix s ''+'' then drop 1 s else s);
          n = foldl (\<lambda>n c. 8 * n + int (digit_val c)) 0 ds in
      if ds = [] \<or> \<not> list_all oct_digit ds then None
      else if neg then (if n \<le> 2 ^ 31 then Some (- n) else None)
      else if n < 2 ^ 31 then Some n else None)"

definition defaultStreamLocalBindMask :: int where
  "defaultStreamLocalBindMask = 127"

definition streamLocalBindMask :: "userConfig \<Rightarrow> sshArgs \<Rightarrow> int" where
  "streamLocalBindMask uc args =
     (let v = getOptionConfig uc args ''StreamLocalBindMask'' in
      if v = [] then defaultStreamLocalBindMask
      else case ParseInt8 v of
          None \<Rightarrow> defaultStreamLocalBindMask
        | Some m \<Rightarrow> if m < 0 \<or> 511 < m then defaultStreamLocalBindMask else m)"

definition socketMode :: "int \<Rightarrow> int" where
  "socketMode bindMask = 438 AND NOT bindMask"

section \<open>Local listeners\<close>

record sock_node =
  nd_inode :: nat
  nd_socket :: bool
  nd_mode :: int

type_synonym sock_fs = "string \<rightharpoonup> sock_node"

text \<open>What the system allows: errors of \<open>Lstat\<close> other than a missing file, removing, binding and changing the mode; a new socket gets
  an inode and a mode from the system.\<close>

record listen_env =
  ln_lstatError :: "string \<Rightarrow> string option"
  ln_remove :: "string \<Rightarrow> bool"
  ln_listen :: "string \<Rightarrow> string \<Rightarrow> bool"
  ln_chmod :: "string \<Rightarrow> bool"
  ln_new :: "string \<Rightarrow> nat \<times> int"
  ln_remote :: "string \<Rightarrow> string \<Rightarrow> bool"

definition unlinkStaleUnixSocket :: "listen_env \<Rightarrow> sock_fs \<Rightarrow> string \<Rightarrow> sock_fs result" where
  "unlinkStaleUnixSocket env fs path =
     (case ln_lstatError env path of
        Some e \<Rightarrow> Inl e
      | None \<Rightarrow>
          (case fs path of
             None \<Rightarrow> Inr fs
           | Some node \<Rightarrow>
               if \<not> nd_socket node then Inl (''refusing to unlink non-socket path: '' @ path)
               else if ln_remove env path then Inr (fs(path := None))
               else Inl (''remove '' @ path)))"

definition isUnixNet :: "string \<Rightarrow> bool" where
  "isUnixNet netw \<longleftrightarrow> netw = ''unix'' \<or> netw = ''unixgram''"

text \<open>One call of the local function \<open>listen\<close>: the files and the listeners after it.  Binding a unix socket fails when the path exists.\<close>

definition listen_local ::
  "listen_env \<Rightarrow> bool \<Rightarrow> int \<Rightarrow> sock_fs \<times> (string \<times> string) list \<Rightarrow> string \<times> string \<Rightarrow> sock_fs \<times> (string \<times> string) list" where
  "listen_local env unlinkUnix bindMask w target =
     (case (w, target) of ((fs, listeners), (netw, adr)) \<Rightarrow>
        case (if unlinkUnix \<and> isUnixNet netw then unlinkStaleUnixSocket env fs adr else Inr fs) of
          Inl _ \<Rightarrow> (fs, listeners)
        | Inr fs1 \<Rightarrow>
            if \<not> isUnixNet netw
            then (fs1, if ln_listen env netw adr then listeners @ [target] else listeners)
            else if fs1 adr \<noteq> None \<or> \<not> ln_listen env netw adr then (fs1, listeners)
            else let node = \<lparr>nd_inode = fst (ln_new env adr), nd_socket = True, nd_mode = snd (ln_new env adr)\<rparr> in
              if ln_chmod env adr
              then (fs1(adr \<mapsto> node\<lparr>nd_mode := socketMode bindMask\<rparr>), listeners @ [target])
              else (if ln_remove env adr then fs1 else fs1(adr \<mapsto> node), listeners))"

text \<open>The addresses for a bind address; \<open>tcp\<close> and \<open>udp\<close> differ in the names of the networks.\<close>

definition listenTargets :: "string \<Rightarrow> string \<Rightarrow> bool \<Rightarrow> string option \<Rightarrow> string \<Rightarrow> (string \<times> string) list" where
  "listenTargets net unixNet gateway bind port =
     (case bind of
        None \<Rightarrow>
          if gateway then [(net @ ''4'', joinHostPort ''0.0.0.0'' port), (net @ ''6'', joinHostPort ''::'' port)]
          else [(net @ ''4'', joinHostPort ''127.0.0.1'' port), (net @ ''6'', joinHostPort ''::1'' port)]
      | Some a \<Rightarrow>
          if a = [] \<or> a = ''*'' then [(net @ ''4'', joinHostPort ''0.0.0.0'' port), (net @ ''6'', joinHostPort ''::'' port)]
          else if HasPrefix a ''/'' \<and> port = ''-1'' then [(unixNet, a)]
          else [(net, joinHostPort a port)])"

definition listenOnLocalTCP ::
  "listen_env \<Rightarrow> bool \<Rightarrow> string option \<Rightarrow> string \<Rightarrow> bool \<Rightarrow> int \<Rightarrow> sock_fs \<Rightarrow> sock_fs \<times> (string \<times> string) list" where
  "listenOnLocalTCP env gateway bind port unlinkUnix bindMask fs =
     foldl (listen_local env unlinkUnix bindMask) (fs, []) (listenTargets ''tcp'' ''unix'' gateway bind port)"

definition listenOnLocalUDP ::
  "listen_env \<Rightarrow> bool \<Rightarrow> string option \<Rightarrow> string \<Rightarrow> bool \<Rightarrow> int \<Rightarrow> sock_fs \<Rightarrow> sock_fs \<times> (string \<times> string) list" where
  "listenOnLocalUDP env gateway bind port unlinkUnix bindMask fs =
     foldl (listen_local env unlinkUnix bindMask) (fs, []) (listenTargets ''udp'' ''unixgram'' gateway bind port)"

text \<open>\<open>strconv.Itoa\<close>.\<close>

definition Itoa :: "int \<Rightarrow> string" where
  "Itoa n = (if n < 0 then CHR ''-'' # utoa (nat (- n)) else utoa (nat n))"

definition listenOnRemoteTCP :: "listen_env \<Rightarrow> bool \<Rightarrow> forwardCfg \<Rightarrow> (string \<times> string) list" where
  "listenOnRemoteTCP env gateway f =
     filter (\<lambda>(netw, adr). ln_remote env netw adr)
       (listenTargets ''tcp'' ''unix'' gateway (fc_bindAddr f) (Itoa (fc_bindPort f)))"

definition listenOnRemoteUDP :: "listen_env \<Rightarrow> bool \<Rightarrow> forwardCfg \<Rightarrow> (string \<times> string) list" where
  "listenOnRemoteUDP env gateway f =
     filter (\<lambda>(netw, adr). ln_remote env netw adr)
       (listenTargets ''udp'' ''unixgram'' gateway (fc_bindAddr f) (Itoa (fc_bindPort f)))"

definition forwardTarget :: "string \<Rightarrow> string \<Rightarrow> forwardCfg \<Rightarrow> string \<times> string" where
  "forwardTarget net unixNet f =
     (if fc_destPort f = - 1 \<and> HasPrefix (fc_destHost f) ''/'' then (unixNet, fc_destHost f)
      else (net, joinHostPort (fc_destHost f) (Itoa (fc_destPort f))))"

section \<open>Accepting and copying\<close>

text \<open>The loop of a listener: an accepted connection is forwarded when the other side can be dialled and closed otherwise; an error of
  \<open>Accept\<close> closes the listener and ends the loop.\<close>

datatype 'c accept = AcceptError | Accepted 'c
datatype 'c accept_action = Forwarding 'c | ClosedConn 'c | ClosedListener

fun acceptLoop :: "('c \<Rightarrow> bool) \<Rightarrow> 'c accept list \<Rightarrow> 'c accept_action list" where
  "acceptLoop dial [] = []"
| "acceptLoop dial (AcceptError # es) = [ClosedListener]"
| "acceptLoop dial (Accepted c # es) = (if dial c then Forwarding c else ClosedConn c) # acceptLoop dial es"

text \<open>A forwarding: its listeners, and what each does with the connections it accepts; \<open>dial\<close> tells for which of them the other side
  can be reached.\<close>

definition localForwardTCP ::
  "listen_env \<Rightarrow> forwardCfg \<Rightarrow> bool \<Rightarrow> bool \<Rightarrow> int \<Rightarrow> sock_fs \<Rightarrow> (string \<times> string \<Rightarrow> 'c \<Rightarrow> bool) \<Rightarrow>
     (string \<times> string \<Rightarrow> 'c accept list) \<Rightarrow> sock_fs \<times> 'c accept_action list list" where
  "localForwardTCP env f gateway unlinkUnix bindMask fs dial accepts =
     (case listenOnLocalTCP env gateway (fc_bindAddr f) (Itoa (fc_bindPort f)) unlinkUnix bindMask fs of
        (fs', listeners) \<Rightarrow> (fs', map (\<lambda>l. acceptLoop (dial (forwardTarget ''tcp'' ''unix'' f)) (accepts l)) listeners))"

definition remoteForwardTCP ::
  "listen_env \<Rightarrow> forwardCfg \<Rightarrow> bool \<Rightarrow> (string \<times> string \<Rightarrow> 'c \<Rightarrow> bool) \<Rightarrow> (string \<times> string \<Rightarrow> 'c accept list) \<Rightarrow> 'c accept_action list list" where
  "remoteForwardTCP env f gateway dial accepts =
     map (\<lambda>l. acceptLoop (dial (forwardTarget ''tcp'' ''unix'' f)) (accepts l)) (listenOnRemoteTCP env gateway f)"

definition remoteForwardUDP ::
  "listen_env \<Rightarrow> forwardCfg \<Rightarrow> bool \<Rightarrow> (string \<times> string \<Rightarrow> 'c \<Rightarrow> bool) \<Rightarrow> (string \<times> string \<Rightarrow> 'c accept list) \<Rightarrow> 'c accept_action list list" where
  "remoteForwardUDP env f gateway dial accepts =
     map (\<lambda>l. acceptLoop (dial (forwardTarget ''udp'' ''unixgram'' f)) (accepts l)) (listenOnRemoteUDP env gateway f)"

definition remoteForward ::
  "listen_env \<Rightarrow> forwardCfg \<Rightarrow> bool \<Rightarrow> (string \<times> string \<Rightarrow> 'c \<Rightarrow> bool) \<Rightarrow> (string \<times> string \<Rightarrow> 'c accept list) \<Rightarrow> 'c accept_action list list" where
  "remoteForward env f gateway dial accepts =
     (if fc_udp f then remoteForwardUDP env f gateway dial accepts else remoteForwardTCP env f gateway dial accepts)"

text \<open>Two connections that are copied into each other.  Each side has what its peer sent, whether the peer has sent its end, what
  was written to it, and whether it was closed for writing.  A goroutine is done at the end of its input or after an
  error, which is not reported.\<close>

record relay_side =
  rs_sent :: bytes
  rs_eof :: bool
  rs_got :: bytes
  rs_gotEOF :: bool

record relay =
  rl_local :: relay_side
  rl_remote :: relay_side
  rl_done1 :: bool
  rl_done2 :: bool
  rl_err1 :: bool
  rl_err2 :: bool
  rl_closed :: bool

definition pending :: "relay_side \<Rightarrow> relay_side \<Rightarrow> bytes" where
  "pending from to = drop (length (rs_got to)) (rs_sent from)"

definition copied :: "relay_side \<Rightarrow> nat \<Rightarrow> relay_side \<Rightarrow> relay_side" where
  "copied from n to = to\<lparr>rs_got := rs_got to @ take n (pending from to)\<rparr>"

inductive relay_step :: "relay \<Rightarrow> relay \<Rightarrow> bool" where
  localSends: "\<not> rs_eof (rl_local r) \<Longrightarrow>
    relay_step r (r\<lparr>rl_local := (rl_local r)\<lparr>rs_sent := rs_sent (rl_local r) @ b, rs_eof := e\<rparr>\<rparr>)"
| remoteSends: "\<not> rs_eof (rl_remote r) \<Longrightarrow>
    relay_step r (r\<lparr>rl_remote := (rl_remote r)\<lparr>rs_sent := rs_sent (rl_remote r) @ b, rs_eof := e\<rparr>\<rparr>)"
| toLocal: "\<not> rl_done1 r \<Longrightarrow> relay_step r (r\<lparr>rl_local := copied (rl_remote r) n (rl_local r)\<rparr>)"
| toRemote: "\<not> rl_done2 r \<Longrightarrow> relay_step r (r\<lparr>rl_remote := copied (rl_local r) n (rl_remote r)\<rparr>)"
| endLocal: "\<not> rl_done1 r \<Longrightarrow> err \<or> rs_eof (rl_remote r) \<and> pending (rl_remote r) (rl_local r) = [] \<Longrightarrow>
    relay_step r (r\<lparr>rl_done1 := True, rl_err1 := err, rl_local := (rl_local r)\<lparr>rs_gotEOF := True\<rparr>\<rparr>)"
| endRemote: "\<not> rl_done2 r \<Longrightarrow> err \<or> rs_eof (rl_local r) \<and> pending (rl_local r) (rl_remote r) = [] \<Longrightarrow>
    relay_step r (r\<lparr>rl_done2 := True, rl_err2 := err, rl_remote := (rl_remote r)\<lparr>rs_gotEOF := True\<rparr>\<rparr>)"
| closeBoth: "rl_done1 r \<Longrightarrow> rl_done2 r \<Longrightarrow> \<not> rl_closed r \<Longrightarrow> relay_step r (r\<lparr>rl_closed := True\<rparr>)"

inductive_cases relay_stepE: "relay_step r r'"

definition relay_init :: relay where
  "relay_init = (let s = \<lparr>rs_sent = [], rs_eof = False, rs_got = [], rs_gotEOF = False\<rparr> in
     \<lparr>rl_local = s, rl_remote = s, rl_done1 = False, rl_done2 = False, rl_err1 = False, rl_err2 = False, rl_closed = False\<rparr>)"

text \<open>\<open>forwardChannel\<close> copies between a channel and a connection in the same way.\<close>

definition forwardChannel_step :: "relay \<Rightarrow> relay \<Rightarrow> bool" where
  "forwardChannel_step = relay_step"

section \<open>Properties\<close>

text \<open>Every accepted connection is forwarded or closed, in order, up to the first error, which closes the listener.\<close>

lemma acceptLoop_all:
  "acceptLoop dial (map Accepted cs @ AcceptError # es) = map (\<lambda>c. if dial c then Forwarding c else ClosedConn c) cs @ [ClosedListener]"
  by (induction cs) simp_all

text \<open>Listening never removes or changes a file that is not a socket, nor any other path, and a socket that was bound has exactly the
  permissions left by the mask.\<close>

definition keeps :: "sock_fs \<Rightarrow> sock_fs \<Rightarrow> string set \<Rightarrow> bool" where
  "keeps fs fs' paths \<longleftrightarrow> (\<forall>p. p \<notin> paths \<longrightarrow> fs' p = fs p) \<and> (\<forall>p node. fs p = Some node \<and> \<not> nd_socket node \<longrightarrow> fs' p = Some node)"

lemma keeps_refl [simp]: "keeps fs fs paths"
  by (simp add: keeps_def)

lemma keeps_trans: "keeps a b ps \<Longrightarrow> keeps b c ps \<Longrightarrow> keeps a c ps"
  unfolding keeps_def by metis

lemma keeps_mono: "keeps a b ps \<Longrightarrow> ps \<subseteq> qs \<Longrightarrow> keeps a b qs"
  unfolding keeps_def by blast

lemma unlinkStale_keeps: "unlinkStaleUnixSocket env fs path = Inr fs' \<Longrightarrow> keeps fs fs' {path}"
  by (auto simp: unlinkStaleUnixSocket_def keeps_def split: option.splits if_splits)

lemma listen_local_keeps:
  assumes "listen_local env u m (fs, ls) (netw, adr) = (fs', ls')"
  shows "keeps fs fs' {adr}" "set ls' \<subseteq> insert (netw, adr) (set ls)"
    "\<forall>l\<in>set ls' - set ls. isUnixNet netw \<longrightarrow> (\<exists>node. fs' adr = Some node \<and> nd_socket node \<and> nd_mode node = socketMode m)"
proof -
  let ?u = "if u \<and> isUnixNet netw then unlinkStaleUnixSocket env fs adr else Inr fs"
  have "keeps fs fs' {adr} \<and> set ls' \<subseteq> insert (netw, adr) (set ls) \<and>
    (\<forall>l\<in>set ls' - set ls. isUnixNet netw \<longrightarrow> (\<exists>node. fs' adr = Some node \<and> nd_socket node \<and> nd_mode node = socketMode m))"
  proof (cases ?u)
    case (Inl e)
    then show ?thesis using assms by (auto simp: listen_local_def)
  next
    case (Inr fs1)
    then have k: "keeps fs fs1 {adr}" using unlinkStale_keeps by (auto split: if_splits)
    have "keeps fs1 (fs1(adr \<mapsto> node)) {adr}" if "fs1 adr = None" for node using that by (auto simp: keeps_def)
    then show ?thesis using assms Inr keeps_trans [OF k] k by (auto simp: listen_local_def Let_def split: if_splits)
  qed
  then show "keeps fs fs' {adr}" "set ls' \<subseteq> insert (netw, adr) (set ls)"
    "\<forall>l\<in>set ls' - set ls. isUnixNet netw \<longrightarrow> (\<exists>node. fs' adr = Some node \<and> nd_socket node \<and> nd_mode node = socketMode m)"
    by blast+
qed

lemma listen_local_inet: "\<not> isUnixNet netw \<Longrightarrow> fst (listen_local env u m (fs, ls) (netw, adr)) = fs"
  by (simp add: listen_local_def)

lemma inet_names [simp]: "\<not> isUnixNet ''tcp''" "\<not> isUnixNet ''tcp4''" "\<not> isUnixNet ''tcp6''" "\<not> isUnixNet ''udp''" "\<not> isUnixNet ''udp4''"
    "\<not> isUnixNet ''udp6''" "isUnixNet ''unix''" "isUnixNet ''unixgram''"
  by (simp_all add: isUnixNet_def)

text \<open>The path that may be touched: the bind address when it is a socket path.\<close>

definition socketPaths :: "string option \<Rightarrow> string \<Rightarrow> string set" where
  "socketPaths bind port = (case bind of Some a \<Rightarrow> if HasPrefix a ''/'' \<and> port = ''-1'' then {a} else {} | None \<Rightarrow> {})"

text \<open>The two listeners of an internet address leave the files alone.\<close>

lemma listen_inet_fs:
  assumes "\<forall>t\<in>set ts. \<not> isUnixNet (fst t)"
  shows "fst (foldl (listen_local env u m) (fs, ls) ts) = fs"
  using assms
proof (induction ts arbitrary: ls)
  case (Cons t ts)
  obtain netw adr where t: "t = (netw, adr)" by (cases t)
  obtain ls' where "listen_local env u m (fs, ls) t = (fs, ls')"
    using listen_local_inet [of netw env u m fs ls adr] Cons.prems t by (cases "listen_local env u m (fs, ls) t") simp
  then show ?case using Cons by simp
qed simp

lemma listen_inet_only:
  assumes "\<forall>t\<in>set ts. \<not> isUnixNet (fst t)"
  shows "set (snd (foldl (listen_local env u m) (fs, ls) ts)) \<subseteq> set ls \<union> set ts"
  using assms
proof (induction ts arbitrary: fs ls)
  case (Cons t ts)
  obtain netw adr where t: "t = (netw, adr)" by (cases t)
  obtain fs' ls' where l: "listen_local env u m (fs, ls) t = (fs', ls')" by (cases "listen_local env u m (fs, ls) t")
  then have "set ls' \<subseteq> insert t (set ls)" using listen_local_keeps(2) t by blast
  then show ?case using Cons.IH [of fs' ls'] Cons.prems l by auto
qed simp

text \<open>C17: listening never removes or changes a file that is not a socket, nor any path other than the given socket path; without
  StreamLocalBindUnlink no file that exists is changed at all; and a socket that was bound has exactly the permissions
  that the mask leaves.\<close>

theorem listen_keeps_files:
  assumes "listenOnLocalTCP env gateway bind port unlinkUnix bindMask fs = (fs', listeners)"
  shows "keeps fs fs' (socketPaths bind port) \<and>
    (\<not> unlinkUnix \<longrightarrow> (\<forall>p node. fs p = Some node \<longrightarrow> fs' p = Some node)) \<and>
    (\<forall>(netw, adr)\<in>set listeners. isUnixNet netw \<longrightarrow>
       (\<exists>node. fs' adr = Some node \<and> nd_socket node \<and> nd_mode node = socketMode bindMask))"
proof (cases "socketPaths bind port = {}")
  case True
  then have ts: "\<forall>t\<in>set (listenTargets ''tcp'' ''unix'' gateway bind port). \<not> isUnixNet (fst t)"
    by (auto simp: socketPaths_def listenTargets_def split: option.splits if_splits)
  then have "fs' = fs" "set listeners \<subseteq> set (listenTargets ''tcp'' ''unix'' gateway bind port)"
    using listen_inet_fs [OF ts, of env unlinkUnix bindMask fs "[]"] listen_inet_only [OF ts, of env unlinkUnix bindMask fs "[]"] assms
    by (simp_all add: listenOnLocalTCP_def)
  moreover from this ts have "\<forall>t\<in>set listeners. \<not> isUnixNet (fst t)" by blast
  ultimately show ?thesis by auto
next
  case False
  then obtain a where a: "bind = Some a" "HasPrefix a ''/''" "port = ''-1''" "socketPaths bind port = {a}"
    by (auto simp: socketPaths_def split: option.splits if_splits)
  have "a \<noteq> []" "a \<noteq> ''*''" using a(2) unfolding HasPrefix_def by (cases a; simp)+
  then have l: "listen_local env unlinkUnix bindMask (fs, []) (''unix'', a) = (fs', listeners)"
    using assms a by (simp add: listenOnLocalTCP_def listenTargets_def)
  have "fs' p = Some node" if "\<not> unlinkUnix" "fs p = Some node" for p node
    using l that by (auto simp: listen_local_def Let_def split: if_splits)
  moreover have "\<forall>(netw, adr)\<in>set listeners. adr = a" using listen_local_keeps(2) [OF l] by auto
  moreover have "\<forall>t\<in>set listeners. \<exists>node. fs' a = Some node \<and> nd_socket node \<and> nd_mode node = socketMode bindMask"
    using listen_local_keeps(3) [OF l] by simp
  ultimately show ?thesis using listen_local_keeps(1) [OF l] a(4) by auto
qed

text \<open>Without a bind address and without gateway ports only the loopback addresses are bound.\<close>

theorem loopback_by_default:
  "\<forall>(netw, adr)\<in>set (snd (listenOnLocalTCP env False None port u m fs) @ listenOnRemoteTCP env False (f\<lparr>fc_bindAddr := None\<rparr>)).
     \<exists>port'. adr = ''127.0.0.1:'' @ port' \<or> adr = ''[::1]:'' @ port'"
proof -
  let ?ts = "listenTargets ''tcp'' ''unix'' False None"
  have t: "\<forall>(netw, adr)\<in>set (?ts q). adr = ''127.0.0.1:'' @ q \<or> adr = ''[::1]:'' @ q" for q
    by (simp add: listenTargets_def joinHostPort_def HasPrefix_def)
  have "\<forall>t\<in>set (?ts port). \<not> isUnixNet (fst t)" by (simp add: listenTargets_def)
  from listen_inet_only [OF this, of env u m fs "[]"] have "set (snd (listenOnLocalTCP env False None port u m fs)) \<subseteq> set (?ts port)"
    by (simp add: listenOnLocalTCP_def)
  moreover have "set (listenOnRemoteTCP env False (f\<lparr>fc_bindAddr := None\<rparr>)) \<subseteq> set (?ts (Itoa (fc_bindPort f)))"
    by (auto simp: listenOnRemoteTCP_def)
  ultimately show ?thesis using t by fastforce
qed

definition relay_ok :: "relay \<Rightarrow> bool" where
  "relay_ok r \<longleftrightarrow>
     (\<exists>rest. rs_sent (rl_remote r) = rs_got (rl_local r) @ rest) \<and> (\<exists>rest. rs_sent (rl_local r) = rs_got (rl_remote r) @ rest) \<and>
     (rl_done1 r \<and> \<not> rl_err1 r \<longrightarrow> rs_eof (rl_remote r) \<and> rs_got (rl_local r) = rs_sent (rl_remote r)) \<and>
     (rl_done2 r \<and> \<not> rl_err2 r \<longrightarrow> rs_eof (rl_local r) \<and> rs_got (rl_remote r) = rs_sent (rl_local r)) \<and>
     rs_gotEOF (rl_local r) = rl_done1 r \<and> rs_gotEOF (rl_remote r) = rl_done2 r \<and> (rl_closed r \<longrightarrow> rl_done1 r \<and> rl_done2 r)"

lemma copied_prefix:
  assumes "rs_sent from = rs_got to @ rest"
  shows "\<exists>rest'. rs_sent from = rs_got (copied from n to) @ rest'"
  using assms by (simp add: copied_def pending_def) (metis append_take_drop_id)

lemma copied_fields [simp]: "rs_sent (copied from n to) = rs_sent to" "rs_eof (copied from n to) = rs_eof to"
    "rs_gotEOF (copied from n to) = rs_gotEOF to"
  by (simp_all add: copied_def)

lemma relay_ok_step: "relay_step r r' \<Longrightarrow> relay_ok r \<Longrightarrow> relay_ok r'"
proof (induction rule: relay_step.induct)
  case (toLocal r n)
  then show ?case using copied_prefix [of "rl_remote r" "rl_local r" _ n] by (auto simp: relay_ok_def)
next
  case (toRemote r n)
  then show ?case using copied_prefix [of "rl_local r" "rl_remote r" _ n] by (auto simp: relay_ok_def)
qed (auto simp: relay_ok_def pending_def)



theorem listen_keeps_files_witness:
  "listenOnLocalTCP \<lparr>ln_lstatError = (\<lambda>_. None), ln_remove = (\<lambda>_. True), ln_listen = (\<lambda>_ _. True), ln_chmod = (\<lambda>_. True),
       ln_new = (\<lambda>_. (7, 511)), ln_remote = (\<lambda>_ _. True)\<rparr> False (Some ''/s'') ''-1'' True 127 Map.empty =
     ([''/s'' \<mapsto> \<lparr>nd_inode = 7, nd_socket = True, nd_mode = 384\<rparr>], [(''unix'', ''/s'')]) \<and> socketMode 127 = 384"
proof -
  let ?env = "\<lparr>ln_lstatError = (\<lambda>_. None), ln_remove = (\<lambda>_. True), ln_listen = (\<lambda>_ _. True), ln_chmod = (\<lambda>_. True),
       ln_new = (\<lambda>_. (7, 511)), ln_remote = (\<lambda>_ _. True)\<rparr>"
  have e: "listenOnLocalTCP ?env False (Some ''/s'') ''-1'' True 127 Map.empty =
      ([''/s'' \<mapsto> \<lparr>nd_inode = 7, nd_socket = True, nd_mode = socketMode 127\<rparr>], [(''unix'', ''/s'')])"
    by (simp add: listenOnLocalTCP_def listenTargets_def HasPrefix_def listen_local_def unlinkStaleUnixSocket_def)
  have "socketMode 127 = 384" by code_simp
  with e listen_keeps_files [OF e] show ?thesis by simp
qed


end
