(* ===== verification/UdpForward.thy ===== *)
theory UdpForward
  imports Listen SshTime "HOL-Library.Multiset"
begin

text \<open>
  Forwarding of datagrams: \<open>tssh/forward_udp.go\<close>.  A local forwarder keeps one session per client address; the sessions are
  objects in a store, because a goroutine keeps its session after the table has dropped it.  Times are in seconds.
\<close>

section \<open>State\<close>

text \<open>The goroutine of a session consumes replies until the connection ends; then it closes the connection, and after that it takes the
  lock and deletes the table entry of its client.\<close>

datatype consume_phase = Consuming | Ending | Ended

record udpForwardSession =
  us_key :: string
  us_closed :: bool
  us_lastActive :: int
  us_phase :: consume_phase

record udpLocalForwarder =
  fwdSessions :: "string \<rightharpoonup> nat"
  uf_store :: "udpForwardSession list"
  lastWarn :: "string \<rightharpoonup> int"

definition newUdpLocalForwarder :: udpLocalForwarder where
  "newUdpLocalForwarder = \<lparr>fwdSessions = Map.empty, uf_store = [], lastWarn = Map.empty\<rparr>"

definition updSession :: "nat \<Rightarrow> (udpForwardSession \<Rightarrow> udpForwardSession) \<Rightarrow> udpLocalForwarder \<Rightarrow> udpLocalForwarder" where
  "updSession i g f = (if i < length (uf_store f) then f\<lparr>uf_store := (uf_store f)[i := g (uf_store f ! i)]\<rparr> else f)"

section \<open>Local forwarders\<close>

definition kWarnIntervalSeconds :: int where
  "kWarnIntervalSeconds = 60"

text \<open>A warning with the same format is shown once in a minute; the result tells whether it is shown.\<close>

definition udp_warning :: "string \<Rightarrow> int \<Rightarrow> udpLocalForwarder \<Rightarrow> bool \<times> udpLocalForwarder" where
  "udp_warning key now f =
     (case lastWarn f key of
        Some t \<Rightarrow> if now - t < kWarnIntervalSeconds then (False, f) else (True, f\<lparr>lastWarn := (lastWarn f)(key \<mapsto> now)\<rparr>)
      | None \<Rightarrow> (True, f\<lparr>lastWarn := (lastWarn f)(key \<mapsto> now)\<rparr>))"

text \<open>\<open>dial\<close> and \<open>written\<close> are the error of dialling, if any, and whether writing to the session that is used succeeds.\<close>

definition sendPacket :: "string \<Rightarrow> nat \<Rightarrow> bool \<Rightarrow> int \<Rightarrow> udpLocalForwarder \<Rightarrow> udpLocalForwarder" where
  "sendPacket clientKey i written now f =
     (let f1 = updSession i (\<lambda>s. s\<lparr>us_lastActive := now\<rparr>) f in
      if written then f1
      else let f2 = snd (udp_warning ''write failed'' now f1);
               f3 = updSession i (\<lambda>s. s\<lparr>us_closed := True\<rparr>) f2 in
        f3\<lparr>fwdSessions := (fwdSessions f3)(clientKey := None)\<rparr>)"

definition handlePacket :: "string \<Rightarrow> string \<Rightarrow> fwd_error option \<Rightarrow> bool \<Rightarrow> int \<Rightarrow> udpLocalForwarder \<Rightarrow> udpLocalForwarder" where
  "handlePacket remoteNet clientKey dial written now f =
     (case fwdSessions f clientKey of
        Some i \<Rightarrow> sendPacket clientKey i written now f
      | None \<Rightarrow>
          (case dial of
             Some e \<Rightarrow>
               snd (udp_warning (if forwardDeniedReason (Some e) remoteNet \<noteq> [] then ''was denied'' else ''dial failed'') now f)
           | None \<Rightarrow>
               let s = \<lparr>us_key = clientKey, us_closed = False, us_lastActive = now, us_phase = Consuming\<rparr>;
                   f1 = f\<lparr>uf_store := uf_store f @ [s], fwdSessions := (fwdSessions f)(clientKey \<mapsto> length (uf_store f))\<rparr> in
                 sendPacket clientKey (length (uf_store f)) written now f1))"

text \<open>The goroutine of a session: a reply, the end of the connection, and the deferred deletion.\<close>

definition consumeReply :: "nat \<Rightarrow> int \<Rightarrow> udpLocalForwarder \<Rightarrow> udpLocalForwarder" where
  "consumeReply i now f = updSession i (\<lambda>s. s\<lparr>us_lastActive := now\<rparr>) f"

definition consumeEnd :: "nat \<Rightarrow> udpLocalForwarder \<Rightarrow> udpLocalForwarder" where
  "consumeEnd i f = updSession i (\<lambda>s. s\<lparr>us_closed := True, us_phase := Ending\<rparr>) f"

definition consumeDelete :: "nat \<Rightarrow> udpLocalForwarder \<Rightarrow> udpLocalForwarder" where
  "consumeDelete i f =
     (let f1 = updSession i (\<lambda>s. s\<lparr>us_phase := Ended\<rparr>) f in
      f1\<lparr>fwdSessions := (fwdSessions f1)(us_key (uf_store f ! i) := None)\<rparr>)"

definition expired :: "int \<Rightarrow> udpLocalForwarder \<Rightarrow> string \<Rightarrow> bool" where
  "expired before f key =
     (case fwdSessions f key of Some i \<Rightarrow> us_lastActive (uf_store f ! i) < before | None \<Rightarrow> False)"

text \<open>The loop over the table closes and deletes the expired sessions; the one over the warnings deletes old times.\<close>

definition cleanupTimeout :: "int \<Rightarrow> int \<Rightarrow> udpLocalForwarder \<Rightarrow> udpLocalForwarder" where
  "cleanupTimeout fwdExpireBefore warnExpireBefore f =
     f\<lparr>uf_store := map (\<lambda>(i, s). if fwdSessions f (us_key s) = Some i \<and> expired fwdExpireBefore f (us_key s)
                                then s\<lparr>us_closed := True\<rparr> else s) (zip [0..<length (uf_store f)] (uf_store f)),
       fwdSessions := (\<lambda>key. if expired fwdExpireBefore f key then None else fwdSessions f key),
       lastWarn := (\<lambda>key. case lastWarn f key of Some t \<Rightarrow> if t < warnExpireBefore then None else Some t | None \<Rightarrow> None)\<rparr>"

text \<open>A forwarding of datagrams starts one forwarder for each listener.\<close>

definition localForwardUDP ::
  "listen_env \<Rightarrow> forwardCfg \<Rightarrow> bool \<Rightarrow> bool \<Rightarrow> int \<Rightarrow> sock_fs \<Rightarrow> sock_fs \<times> ((string \<times> string) \<times> (string \<times> string) \<times> udpLocalForwarder) list" where
  "localForwardUDP env f gateway unlinkUnix bindMask fs =
     (case listenOnLocalUDP env gateway (fc_bindAddr f) (Itoa (fc_bindPort f)) unlinkUnix bindMask fs of
        (fs', conns) \<Rightarrow> (fs', map (\<lambda>conn. (conn, forwardTarget ''udp'' ''unixgram'' f, newUdpLocalForwarder)) conns))"

section \<open>Remote forwarders\<close>

text \<open>The counters tell how often the connections were closed.\<close>

record udpRemoteForwarder =
  ur_lastActive :: int
  ur_closed :: bool
  ur_localCloses :: nat
  ur_remoteCloses :: nat

definition udpRemote_Close :: "udpRemoteForwarder \<Rightarrow> udpRemoteForwarder" where
  "udpRemote_Close f =
     (if ur_closed f then f
      else f\<lparr>ur_closed := True, ur_localCloses := Suc (ur_localCloses f), ur_remoteCloses := Suc (ur_remoteCloses f)\<rparr>)"

definition udpRemote_cleanupTimeout :: "int \<Rightarrow> udpRemoteForwarder \<Rightarrow> udpRemoteForwarder" where
  "udpRemote_cleanupTimeout before f = (if ur_lastActive f < before then udpRemote_Close f else f)"

text \<open>The end of \<open>run\<close> takes a forwarder off the list: the last one moves into its place.\<close>

fun indexOf :: "'a \<Rightarrow> 'a list \<Rightarrow> nat option" where
  "indexOf x [] = None"
| "indexOf x (y # ys) = (if x = y then Some 0 else map_option Suc (indexOf x ys))"

definition removeForwarder :: "'a \<Rightarrow> 'a list \<Rightarrow> 'a list" where
  "removeForwarder x xs = (case indexOf x xs of None \<Rightarrow> xs | Some i \<Rightarrow> butlast (xs[i := last xs]))"

section \<open>Timeouts\<close>

definition kDefaultForwardUdpTimeout :: nat where
  "kDefaultForwardUdpTimeout = 5 * 60"

definition forwardUdpTimeout :: "userConfig \<Rightarrow> sshArgs \<Rightarrow> nat" where
  "forwardUdpTimeout uc args =
     (let v = getOptionConfig uc args ''ForwardUdpTimeout'';
          timeout = (if v = [] then 0 else case convertSshTime v of Inl _ \<Rightarrow> 0 | Inr seconds \<Rightarrow> unat seconds) in
      if timeout = 0 then kDefaultForwardUdpTimeout else timeout)"

text \<open>One round of the goroutine that \<open>udpForwarderCleanup\<close> starts, over copies of the two lists.\<close>

definition cleanupRound ::
  "nat \<Rightarrow> int \<Rightarrow> udpLocalForwarder list \<times> udpRemoteForwarder list \<Rightarrow> udpLocalForwarder list \<times> udpRemoteForwarder list" where
  "cleanupRound timeout now fs =
     (map (cleanupTimeout (now - int timeout) (now - kWarnIntervalSeconds)) (fst fs),
      map (udpRemote_cleanupTimeout (now - int timeout)) (snd fs))"

section \<open>Interleavings\<close>

text \<open>The operations of a local forwarder that hold its lock, and the goroutines of its sessions.\<close>

inductive udp_step :: "udpLocalForwarder \<Rightarrow> udpLocalForwarder \<Rightarrow> bool" where
  packet: "udp_step f (handlePacket remoteNet key dial written now f)"
| reply: "i < length (uf_store f) \<Longrightarrow> us_phase (uf_store f ! i) = Consuming \<Longrightarrow> udp_step f (consumeReply i now f)"
| ends: "i < length (uf_store f) \<Longrightarrow> us_phase (uf_store f ! i) = Consuming \<Longrightarrow> udp_step f (consumeEnd i f)"
| deletes: "i < length (uf_store f) \<Longrightarrow> us_phase (uf_store f ! i) = Ending \<Longrightarrow> udp_step f (consumeDelete i f)"
| timeout: "udp_step f (cleanupTimeout before warnBefore f)"

inductive_cases udp_stepE: "udp_step f f'"


section \<open>The table of sessions\<close>

definition sessions_ok :: "udpLocalForwarder \<Rightarrow> bool" where
  "sessions_ok f \<longleftrightarrow>
     (\<forall>key i. fwdSessions f key = Some i \<longrightarrow> i < length (uf_store f) \<and> us_key (uf_store f ! i) = key \<and>
        us_phase (uf_store f ! i) \<noteq> Ended \<and> (us_phase (uf_store f ! i) = Consuming \<longrightarrow> \<not> us_closed (uf_store f ! i)))"

lemma updSession_fields [simp]:
  "fwdSessions (updSession i g f) = fwdSessions f" "length (uf_store (updSession i g f)) = length (uf_store f)"
  "lastWarn (updSession i g f) = lastWarn f"
  by (simp_all add: updSession_def)

lemma updSession_nth: "j < length (uf_store f) \<Longrightarrow> uf_store (updSession i g f) ! j = (if j = i then g (uf_store f ! j) else uf_store f ! j)"
  by (auto simp: updSession_def)

lemma udp_warning_fields [simp]:
  "fwdSessions (snd (udp_warning key now f)) = fwdSessions f" "uf_store (snd (udp_warning key now f)) = uf_store f"
  by (simp_all add: udp_warning_def split: option.splits)

lemma sessions_ok_warning [simp]: "sessions_ok (snd (udp_warning key now f)) = sessions_ok f"
  by (simp add: sessions_ok_def)

lemma sessions_ok_upd:
  assumes "sessions_ok f" "\<And>s. us_key (g s) = us_key s \<and> us_phase (g s) = us_phase s \<and> us_closed (g s) = us_closed s"
  shows "sessions_ok (updSession i g f)"
  using assms by (auto simp: sessions_ok_def updSession_nth)

lemma sessions_ok_drop:
  assumes "sessions_ok f" "i < length (uf_store f) \<longrightarrow> us_key (uf_store f ! i) = key" "\<And>s. us_key (g s) = us_key s"
  shows "sessions_ok ((updSession i g f)\<lparr>fwdSessions := (fwdSessions f)(key := None)\<rparr>)"
  using assms by (fastforce simp: sessions_ok_def updSession_nth split: if_splits)

lemma sendPacket_ok:
  assumes "sessions_ok f" "fwdSessions f key = Some i"
  shows "sessions_ok (sendPacket key i written now f)"
proof -
  let ?f1 = "updSession i (\<lambda>s. s\<lparr>us_lastActive := now\<rparr>) f"
  have ok: "sessions_ok ?f1" using assms(1) by (rule sessions_ok_upd) simp
  have "i < length (uf_store f)" "us_key (uf_store f ! i) = key" using assms by (auto simp: sessions_ok_def)
  then have "us_key (uf_store ?f1 ! i) = key" by (simp add: updSession_nth)
  then show ?thesis
    using ok sessions_ok_drop [of "snd (udp_warning ''write failed'' now ?f1)" i key "\<lambda>s. s\<lparr>us_closed := True\<rparr>"]
    by (simp add: sendPacket_def Let_def)
qed

lemma handlePacket_ok:
  assumes "sessions_ok f"
  shows "sessions_ok (handlePacket remoteNet key dial written now f)"
proof -
  have "sessions_ok (f\<lparr>uf_store := uf_store f @ [\<lparr>us_key = key, us_closed = False, us_lastActive = now, us_phase = Consuming\<rparr>],
      fwdSessions := (fwdSessions f)(key \<mapsto> length (uf_store f))\<rparr>)" (is "sessions_ok ?f1")
    using assms by (fastforce simp: sessions_ok_def nth_append)
  then have "sessions_ok (sendPacket key (length (uf_store f)) written now ?f1)" by (rule sendPacket_ok) simp
  then show ?thesis using assms sendPacket_ok by (auto simp: handlePacket_def Let_def split: option.splits)
qed

lemma cleanupTimeout_nth:
  assumes "i < length (uf_store f)"
  shows "uf_store (cleanupTimeout before wb f) ! i =
    (if fwdSessions f (us_key (uf_store f ! i)) = Some i \<and> expired before f (us_key (uf_store f ! i))
     then (uf_store f ! i)\<lparr>us_closed := True\<rparr> else uf_store f ! i)"
  using assms by (simp add: cleanupTimeout_def)

lemma sessions_ok_step: "udp_step f f' \<Longrightarrow> sessions_ok f \<Longrightarrow> sessions_ok f'"
proof (induction rule: udp_step.induct)
  case (packet f remoteNet key dial written now)
  then show ?case by (rule handlePacket_ok)
next
  case (reply i f now)
  then show ?case unfolding consumeReply_def by (intro sessions_ok_upd) simp_all
next
  case (ends i f)
  then show ?case by (auto simp: consumeEnd_def sessions_ok_def updSession_nth)
next
  case (deletes i f)
  then show ?case using sessions_ok_drop [of f i "us_key (uf_store f ! i)"] by (simp add: consumeDelete_def Let_def)
next
  case (timeout f before warnBefore)
  have "length (uf_store (cleanupTimeout before warnBefore f)) = length (uf_store f)" by (simp add: cleanupTimeout_def)
  moreover have "fwdSessions (cleanupTimeout before warnBefore f) key = Some i \<longleftrightarrow> fwdSessions f key = Some i \<and> \<not> expired before f key" for key i
    by (simp add: cleanupTimeout_def)
  ultimately show ?case using timeout unfolding sessions_ok_def by (auto simp: cleanupTimeout_nth)
qed

text \<open>In every interleaving of packets, replies, ends of connections and timeouts, the table of a local forwarder maps each client to
  a session of its own that has not been given up: its goroutine still runs, and its connection is open unless the
  goroutine is about to delete the entry.\<close>

theorem udp_table_consistent:
  assumes "udp_step\<^sup>*\<^sup>* newUdpLocalForwarder f" "fwdSessions f key = Some i"
  shows "i < length (uf_store f) \<and> us_key (uf_store f ! i) = key \<and> us_phase (uf_store f ! i) \<noteq> Ended \<and>
    (us_phase (uf_store f ! i) = Consuming \<longrightarrow> \<not> us_closed (uf_store f ! i))"
proof -
  have "sessions_ok newUdpLocalForwarder" by (simp add: sessions_ok_def newUdpLocalForwarder_def)
  with assms(1) have "sessions_ok f" by (induction rule: rtranclp_induct) (auto intro: sessions_ok_step)
  then show ?thesis using assms(2) by (simp add: sessions_ok_def)
qed

text \<open>A timeout closes and drops exactly the sessions of the table that were idle, and leaves every other one as it is.\<close>

theorem udp_cleanup_exact:
  assumes "i < length (uf_store f)"
  shows "let f' = cleanupTimeout before wb f; s = uf_store f ! i; idle = (fwdSessions f (us_key s) = Some i \<and> us_lastActive s < before) in
    uf_store f' ! i = (if idle then s\<lparr>us_closed := True\<rparr> else s) \<and>
    (fwdSessions f' (us_key s) = Some i \<longleftrightarrow> fwdSessions f (us_key s) = Some i \<and> \<not> idle)"
  using assms by (auto simp: cleanupTimeout_nth Let_def expired_def cleanupTimeout_def)


section \<open>Sessions without an entry\<close>

text \<open>A session that consumes replies on an open connection and is in no table entry.\<close>

definition orphaned :: "nat \<Rightarrow> udpLocalForwarder \<Rightarrow> bool" where
  "orphaned i f \<longleftrightarrow> i < length (uf_store f) \<and> us_phase (uf_store f ! i) = Consuming \<and> \<not> us_closed (uf_store f ! i) \<and>
     (\<forall>key. fwdSessions f key \<noteq> Some i)"

lemma sendPacket_orphaned: "orphaned i f \<Longrightarrow> j \<noteq> i \<Longrightarrow> orphaned i (sendPacket key j written now f)"
  by (auto simp: orphaned_def sendPacket_def Let_def updSession_nth)

lemma handlePacket_orphaned:
  assumes "orphaned i f"
  shows "orphaned i (handlePacket remoteNet key dial written now f)"
proof -
  let ?s = "\<lparr>us_key = key, us_closed = False, us_lastActive = now, us_phase = Consuming\<rparr>"
  have "orphaned i (f\<lparr>uf_store := uf_store f @ [?s], fwdSessions := (fwdSessions f)(key \<mapsto> length (uf_store f))\<rparr>)" (is "orphaned i ?f1")
    using assms by (auto simp: orphaned_def nth_append)
  then have "orphaned i (sendPacket key (length (uf_store f)) written now ?f1)"
    using assms by (intro sendPacket_orphaned) (auto simp: orphaned_def)
  moreover have "orphaned i (snd (udp_warning w now f))" for w using assms by (simp add: orphaned_def)
  moreover have "orphaned i (sendPacket key j written now f)" if "fwdSessions f key = Some j" for j
    using assms that by (intro sendPacket_orphaned) (auto simp: orphaned_def)
  ultimately show ?thesis by (simp add: handlePacket_def Let_def split: option.splits)
qed

lemma orphaned_step:
  assumes "udp_step f f'" "orphaned i f"
  shows "orphaned i f' \<or> us_phase (uf_store f' ! i) = Ending"
  using assms
proof (induction rule: udp_step.induct)
  case (packet f remoteNet key dial written now)
  then show ?case using handlePacket_orphaned by blast
next
  case (reply j f now)
  then show ?case by (auto simp: consumeReply_def orphaned_def updSession_nth)
next
  case (ends j f)
  then show ?case by (auto simp: consumeEnd_def orphaned_def updSession_nth)
next
  case (deletes j f)
  then show ?case by (auto simp: consumeDelete_def orphaned_def updSession_nth Let_def)
next
  case (timeout f before warnBefore)
  then show ?case by (auto simp: orphaned_def cleanupTimeout_nth) (auto simp: cleanupTimeout_def split: if_splits)
qed

text \<open>The session of a client idles out and its next packet opens a second session; then the goroutine of the first session
  deletes the entry of the client, which is the one of the second session.\<close>

definition orphaning :: "string \<Rightarrow> string \<Rightarrow> udpLocalForwarder" where
  "orphaning remoteNet key =
     (let f1 = handlePacket remoteNet key None True 0 newUdpLocalForwarder;
          f2 = cleanupTimeout 1 0 f1;
          f3 = handlePacket remoteNet key None True 100 f2 in
      consumeDelete 0 (consumeEnd 0 f3))"

lemma first_packet:
  "handlePacket remoteNet key None True now newUdpLocalForwarder =
     \<lparr>fwdSessions = [key \<mapsto> 0], uf_store = [\<lparr>us_key = key, us_closed = False, us_lastActive = now, us_phase = Consuming\<rparr>], lastWarn = Map.empty\<rparr>"
  by (simp add: handlePacket_def newUdpLocalForwarder_def Let_def sendPacket_def updSession_def)

lemma second_packet:
  "handlePacket remoteNet key None True now (cleanupTimeout 1 0 (handlePacket remoteNet key None True 0 newUdpLocalForwarder)) =
     \<lparr>fwdSessions = [key \<mapsto> 1], uf_store = [\<lparr>us_key = key, us_closed = True, us_lastActive = 0, us_phase = Consuming\<rparr>,
        \<lparr>us_key = key, us_closed = False, us_lastActive = now, us_phase = Consuming\<rparr>], lastWarn = Map.empty\<rparr>"
proof -
  have "cleanupTimeout 1 0 (handlePacket remoteNet key None True 0 newUdpLocalForwarder) =
     \<lparr>fwdSessions = Map.empty, uf_store = [\<lparr>us_key = key, us_closed = True, us_lastActive = 0, us_phase = Consuming\<rparr>], lastWarn = Map.empty\<rparr>"
    by (simp add: first_packet cleanupTimeout_def expired_def fun_eq_iff)
  then show ?thesis by (simp add: handlePacket_def Let_def sendPacket_def updSession_def)
qed

lemma orphaning_steps: "udp_step\<^sup>*\<^sup>* newUdpLocalForwarder (orphaning remoteNet key)" "orphaned 1 (orphaning remoteNet key)"
proof -
  let ?f1 = "handlePacket remoteNet key None True 0 newUdpLocalForwarder"
  let ?f3 = "handlePacket remoteNet key None True 100 (cleanupTimeout 1 0 ?f1)"
  have "udp_step newUdpLocalForwarder ?f1" by (rule packet)
  moreover have "udp_step ?f1 (cleanupTimeout 1 0 ?f1)" by (rule timeout)
  moreover have "udp_step (cleanupTimeout 1 0 ?f1) ?f3" by (rule packet)
  ultimately have "udp_step\<^sup>*\<^sup>* newUdpLocalForwarder ?f3" by (meson converse_rtranclp_into_rtranclp r_into_rtranclp)
  moreover have "udp_step ?f3 (consumeEnd 0 ?f3)" by (rule ends) (simp_all add: second_packet)
  moreover have "udp_step (consumeEnd 0 ?f3) (consumeDelete 0 (consumeEnd 0 ?f3))"
    by (rule deletes) (simp_all add: second_packet consumeEnd_def updSession_def)
  ultimately show "udp_step\<^sup>*\<^sup>* newUdpLocalForwarder (orphaning remoteNet key)"
    unfolding orphaning_def Let_def by (blast intro: rtranclp.rtrancl_into_rtrancl)
  show "orphaned 1 (orphaning remoteNet key)"
    by (simp add: orphaning_def Let_def second_packet consumeEnd_def consumeDelete_def updSession_def orphaned_def)
qed

text \<open>C39: a session can lose its entry to the goroutine of an older session of the same client, which deletes by the client's
  address.  It is then never closed by a timeout, whatever happens, as long as its connection does not end by itself.\<close>

theorem udp_session_orphaned:
  "\<exists>f. udp_step\<^sup>*\<^sup>* newUdpLocalForwarder f \<and> orphaned 1 f \<and>
     (\<forall>f' before wb. (\<lambda>a b. udp_step a b \<and> us_phase (uf_store b ! 1) \<noteq> Ending)\<^sup>*\<^sup>* f f' \<longrightarrow>
        \<not> us_closed (uf_store (cleanupTimeout before wb f') ! 1))"
proof -
  have "orphaned 1 f'" if "(\<lambda>a b. udp_step a b \<and> us_phase (uf_store b ! 1) \<noteq> Ending)\<^sup>*\<^sup>* (orphaning [] []) f'" for f'
    using that
  proof (induction rule: rtranclp_induct)
    case base
    show ?case by (rule orphaning_steps(2))
  next
    case (step y z)
    then show ?case using orphaned_step [of y z 1] by blast
  qed
  then have "\<not> us_closed (uf_store (cleanupTimeout before wb f') ! 1)"
    if "(\<lambda>a b. udp_step a b \<and> us_phase (uf_store b ! 1) \<noteq> Ending)\<^sup>*\<^sup>* (orphaning [] []) f'" for f' before wb
    using that by (auto simp: orphaned_def cleanupTimeout_nth)
  then show ?thesis using orphaning_steps by blast
qed

theorem udp_session_orphaned_witness:
  "\<exists>f. udp_step\<^sup>*\<^sup>* newUdpLocalForwarder f \<and> orphaned 1 f"
  using udp_session_orphaned by blast

theorem udp_table_consistent_witness:
  "\<exists>f. udp_step\<^sup>*\<^sup>* newUdpLocalForwarder f \<and> fwdSessions f ''c'' = Some 0 \<and> us_key (uf_store f ! 0) = ''c''"
proof -
  let ?f = "handlePacket ''udp'' ''c'' None True 0 newUdpLocalForwarder"
  have s: "udp_step\<^sup>*\<^sup>* newUdpLocalForwarder ?f" using packet by (blast intro: r_into_rtranclp)
  have t: "fwdSessions ?f ''c'' = Some 0" by (simp add: first_packet)
  from udp_table_consistent [OF s t] s t show ?thesis by blast
qed

text \<open>Taking a forwarder off the list removes it once and keeps every other one.\<close>

lemma indexOf_Some: "indexOf x xs = Some i \<Longrightarrow> i < length xs \<and> xs ! i = x"
  by (induction xs arbitrary: i) (auto split: if_splits)

lemma indexOf_None: "indexOf x xs = None \<longleftrightarrow> x \<notin> set xs"
  by (induction xs) auto

theorem removeForwarder_mset: "mset (removeForwarder x xs) = mset xs - {#x#}"
proof (cases "indexOf x xs")
  case None
  moreover from None have "x \<notin> set xs" by (simp add: indexOf_None)
  ultimately show ?thesis by (simp add: removeForwarder_def diff_single_trivial)
next
  case (Some i)
  then have i: "i < length xs" "xs ! i = x" by (simp_all add: indexOf_Some)
  then obtain ys z where xs: "xs = ys @ [z]" by (cases xs rule: rev_cases) auto
  show ?thesis
  proof (cases "i < length ys")
    case True
    then have "mset (ys[i := z]) = add_mset z (mset ys - {#x#})" using i xs by (simp add: mset_update nth_append)
    moreover have "x \<in># mset ys" using True i xs by (auto simp: nth_append)
    ultimately show ?thesis using Some xs True by (simp add: removeForwarder_def list_update_append)
  next
    case False
    then show ?thesis using Some i xs by (simp add: removeForwarder_def list_update_append nth_append)
  qed
qed

end
