(* ===== verification/X11.thy ===== *)
theory X11
  imports GoHash Listen SshTime
begin

text \<open>
  X11 forwarding: \<open>tssh/forward_x11.go\<close> and \<open>tssh/xauth.go\<close>.  The server gets a cookie made up for the connection; a
  client that presents it has it replaced with the cookie of the local display in its first packet.  A channel is the
  list of the pieces in which its bytes arrive.
\<close>

section \<open>Reading\<close>

text \<open>\<open>io.ReadAtLeast\<close> with a buffer of \<open>capa\<close> bytes; \<open>None\<close> is the end of the input before enough bytes came.\<close>

fun readAtLeast :: "nat \<Rightarrow> nat \<Rightarrow> bytes \<Rightarrow> bytes list \<Rightarrow> (bytes \<times> bytes list) option" where
  "readAtLeast least capa acc [] = (if least \<le> length acc then Some (acc, []) else None)"
| "readAtLeast least capa acc (c # cs) =
     (if least \<le> length acc then Some (acc, c # cs)
      else if length c \<le> capa - length acc then readAtLeast least capa (acc @ c) cs
      else Some (acc @ take (capa - length acc) c, drop (capa - length acc) c # cs))"

section \<open>Cookies\<close>

record xauthInfo =
  xauthProto :: string
  realCookie :: bytes
  fakeCookie :: bytes

definition kSshX11Proto :: string where
  "kSshX11Proto = ''MIT-MAGIC-COOKIE-1''"

text \<open>What the operating system gives: the option for the program, files and commands, a temporary file, running the program (its trimmed
  output) and random bytes.\<close>

record xauth_env =
  xa_location :: string
  xa_isFile :: "string \<Rightarrow> bool"
  xa_commandExists :: bool
  xa_createTemp :: "string result"
  xa_exec :: "string \<Rightarrow> string list \<Rightarrow> string result"
  xa_random :: "nat \<Rightarrow> bytes result"
  xa_noLinux :: bool

definition fillFakeCookie :: "xauth_env \<Rightarrow> xauthInfo \<Rightarrow> xauthInfo result" where
  "fillFakeCookie env x =
     (let n = (if length (realCookie x) = 0 then 16 else length (realCookie x)) in
      case xa_random env n of
        Inl e \<Rightarrow> Inl (''random cookie failed: '' @ e)
      | Inr cookie \<Rightarrow> Inr (x\<lparr>fakeCookie := cookie, realCookie := (if realCookie x = [] then cookie else realCookie x)\<rparr>))"

definition kSshX11TimeoutSlack :: u32 where
  "kSshX11TimeoutSlack = 60"

definition getX11Timeout :: "u32 \<Rightarrow> u32" where
  "getX11Timeout timeout =
     (if timeout < 0xFFFFFFFF - kSshX11TimeoutSlack then timeout + kSshX11TimeoutSlack else 0xFFFFFFFF)"

definition getXauthPath :: "xauth_env \<Rightarrow> string" where
  "getXauthPath env =
     (if xa_location env \<noteq> [] \<and> xa_isFile env (xa_location env) then xa_location env
      else if xa_commandExists env then ''xauth'' else [])"

definition xauthDisplay :: "string \<Rightarrow> string" where
  "xauthDisplay display =
     (if HasPrefix display ''/'' then
        (case LastIndexByte display (CHR '':'') of
           Some pos \<Rightarrow> if 0 < pos then ''unix'' @ drop pos display else display
         | None \<Rightarrow> display)
      else if HasPrefix display ''localhost:'' then ''unix'' @ drop 9 display
      else display)"

text \<open>The first line of the list with a cookie.\<close>

fun firstCookie :: "string list \<Rightarrow> (string \<times> string) option" where
  "firstCookie [] = None"
| "firstCookie (l # ls) = (case Fields l of _ # proto # cookie # _ \<Rightarrow> Some (proto, cookie) | _ \<Rightarrow> firstCookie ls)"

definition genListXauthInfo :: "xauth_env \<Rightarrow> string \<Rightarrow> bool \<Rightarrow> u32 \<Rightarrow> xauthInfo result" where
  "genListXauthInfo env display0 trusted timeout =
     (let xauthPath = getXauthPath env; display = xauthDisplay display0 in
      if xauthPath = [] then Inl ''no xauth program''
      else case (if trusted then Inr []
                 else case xa_createTemp env of
                     Inl e \<Rightarrow> Inl (''create temp file failed: '' @ e)
                   | Inr genPath \<Rightarrow>
                       (case xa_exec env xauthPath ([''-f'', genPath, ''generate'', display, kSshX11Proto, ''untrusted''] @
                            (if 0 < timeout then [''timeout'', utoa (unat (getX11Timeout timeout))] else [])) of
                          Inl e \<Rightarrow> Inl (''xauth generate failed: '' @ e)
                        | Inr _ \<Rightarrow> Inr genPath)) of
          Inl e \<Rightarrow> Inl e
        | Inr genPath \<Rightarrow>
            (case xa_exec env xauthPath ([''-q'', ''-n''] @ (if genPath \<noteq> [] then [''-f'', genPath] else []) @ [''list'', display]) of
               Inl e \<Rightarrow> Inl (''xauth list failed: '' @ e)
             | Inr out \<Rightarrow>
                 (case firstCookie (Split out (CHR 0x0A)) of
                    None \<Rightarrow> Inl (''no matching xauth for display: '' @ display)
                  | Some (proto, text) \<Rightarrow>
                      (case hex_decode text of
                         None \<Rightarrow> Inl (''decode cookie ['' @ text @ ''] failed'')
                       | Some cookie \<Rightarrow> fillFakeCookie env \<lparr>xauthProto = proto, realCookie = cookie, fakeCookie = []\<rparr>))))"

definition getXauthInfo :: "xauth_env \<Rightarrow> string \<Rightarrow> bool \<Rightarrow> u32 \<Rightarrow> xauthInfo result" where
  "getXauthInfo env display trusted timeout =
     (case genListXauthInfo env display trusted timeout of
        Inr x \<Rightarrow> Inr x
      | Inl e \<Rightarrow>
          if trusted \<or> xa_noLinux env
          then fillFakeCookie env \<lparr>xauthProto = kSshX11Proto, realCookie = [], fakeCookie = []\<rparr>
          else Inl e)"

section \<open>The display\<close>

definition displayChar :: "char \<Rightarrow> bool" where
  "displayChar b \<longleftrightarrow> is_digit b \<or> byte_in 65 90 b \<or> byte_in 97 122 b \<or> b \<in> set '':/.-_''"

definition resolveDisplayEnv :: "string \<Rightarrow> (string \<times> nat \<times> nat) result" where
  "resolveDisplayEnv display =
     (if \<not> list_all displayChar display then Inl ''invalid character in DISPLAY''
      else case LastIndexByte display (CHR '':'') of
          None \<Rightarrow> Inl ''no ':' in DISPLAY''
        | Some colon \<Rightarrow>
            let hostname = take colon display;
                numbers = (\<lambda>displayNumber screenNumber.
                  case ParseUint displayNumber 32 of
                    None \<Rightarrow> Inl ''invalid display number in DISPLAY''
                  | Some dn \<Rightarrow>
                      if screenNumber = [] then Inr (hostname, dn, 0)
                      else case ParseUint screenNumber 32 of
                          None \<Rightarrow> Inl ''invalid screen number in DISPLAY''
                        | Some sn \<Rightarrow> Inr (hostname, dn, sn)) in
            case Split (drop (Suc colon) display) (CHR ''.'') of
              [d] \<Rightarrow> numbers d []
            | [d, s] \<Rightarrow> numbers d s
            | _ \<Rightarrow> Inl ''too many '.' in DISPLAY'')"

text \<open>The address of the display.\<close>

definition x11Target :: "string \<Rightarrow> string \<Rightarrow> nat \<Rightarrow> string \<times> string" where
  "x11Target display hostname displayNumber =
     (if HasPrefix display ''/'' then (''unix'', display)
      else if hostname \<noteq> [] then (''tcp'', joinHostPort hostname (utoa (6000 + displayNumber)))
      else (''unix'', ''/tmp/.X11-unix/X'' @ utoa displayNumber))"

section \<open>The first packet\<close>

definition pad4 :: "nat \<Rightarrow> nat" where
  "pad4 n = (n + 3) div 4 * 4"

text \<open>The lengths of the protocol and the cookie, by the byte order.\<close>

definition x11Lengths :: "bytes \<Rightarrow> (nat \<times> nat) option" where
  "x11Lengths b =
     (if b ! 0 = 0x42 then Some (unat (b ! 6) * 256 + unat (b ! 7), unat (b ! 8) * 256 + unat (b ! 9))
      else if b ! 0 = 0x6C then Some (unat (b ! 6) + unat (b ! 7) * 256, unat (b ! 8) + unat (b ! 9) * 256)
      else None)"

text \<open>The protocol and the cookie of a complete packet are checked, and the cookie is replaced.\<close>

definition substituteCookie :: "xauthInfo \<Rightarrow> nat \<Rightarrow> nat \<Rightarrow> bytes \<Rightarrow> bytes result" where
  "substituteCookie x protoLen cookieLen b =
     (let off = 12 + pad4 protoLen in
      if take protoLen (drop 12 b) \<noteq> bytes_of_string (xauthProto x) then Inl ''auth proto mismatch''
      else if take cookieLen (drop off b) \<noteq> fakeCookie x then Inl ''authentication cookie mismatch''
      else Inr (take off b @ realCookie x @ drop (off + cookieLen) b))"

definition substituteX11Packet :: "xauthInfo \<Rightarrow> bytes list \<Rightarrow> (bytes \<times> bytes list) result" where
  "substituteX11Packet x chan =
     (case readAtLeast 12 4096 [] chan of
        None \<Rightarrow> Inl ''read header failed''
      | Some (b, chan1) \<Rightarrow>
          (case x11Lengths b of
             None \<Rightarrow> Inl ''bad byte order byte''
           | Some (protoLen, cookieLen) \<Rightarrow>
               let full = 12 + pad4 protoLen + pad4 cookieLen in
               if protoLen \<noteq> length (xauthProto x) then Inl ''proto length mismatch''
               else if cookieLen \<noteq> length (fakeCookie x) \<or> cookieLen \<noteq> length (realCookie x) then Inl ''cookie length mismatch''
               else if 4096 < full then Inl ''packet too large''
               else case (if length b < full
                          then (case readAtLeast (full - length b) (full - length b) [] chan1 of
                                  None \<Rightarrow> None | Some (rest, chan2) \<Rightarrow> Some (b @ rest, chan2))
                          else Some (b, chan1)) of
                   None \<Rightarrow> Inl ''read packet failed''
                 | Some (b', chan2) \<Rightarrow>
                     (case substituteCookie x protoLen cookieLen b' of Inl e \<Rightarrow> Inl e | Inr packet \<Rightarrow> Inr (packet, chan2))))"

section \<open>The request\<close>

record x11Request =
  SingleConnection :: bool
  AuthProtocol :: string
  AuthCookie :: string
  ScreenNumber :: nat

definition x11Trusted :: "userConfig \<Rightarrow> sshArgs \<Rightarrow> bool \<Rightarrow> bool" where
  "x11Trusted uc args inRemoteSsh =
     (let v = ToLower (getOptionConfig uc args ''ForwardX11Trusted'') in
      a_X11Trusted args \<or> (if v = ''yes'' then True else if v = ''no'' then False else inRemoteSsh))"

definition x11TimeoutOf :: "userConfig \<Rightarrow> sshArgs \<Rightarrow> u32" where
  "x11TimeoutOf uc args =
     (let v = getOptionConfig uc args ''ForwardX11Timeout'' in
      if v \<noteq> [] \<and> \<not> EqualFold v ''none''
      then (case convertSshTime v of Inl _ \<Rightarrow> 1200 | Inr seconds \<Rightarrow> seconds) else 1200)"

definition wantsX11 :: "userConfig \<Rightarrow> sshArgs \<Rightarrow> bool" where
  "wantsX11 uc args \<longleftrightarrow>
     \<not> (a_NoX11Forward args \<or> \<not> a_X11Forward args \<and> \<not> a_X11Trusted args \<and> \<not> EqualFold (getOptionConfig uc args ''ForwardX11'') ''yes'')"

text \<open>The request that is sent to the server with what the channels are served with, or a warning, or nothing.\<close>

definition sshX11Forward ::
  "userConfig \<Rightarrow> xauth_env \<Rightarrow> sshArgs \<Rightarrow> bool \<Rightarrow> string \<Rightarrow> bool \<Rightarrow> (x11Request \<times> xauthInfo \<times> (string \<times> string)) result option" where
  "sshX11Forward uc env args controlClient display inRemoteSsh =
     (if \<not> wantsX11 uc args then None
      else if controlClient then Some (Inl ''X11 forwarding is not supported when logging in via a control socket'')
      else if display = [] then Some (Inl ''environment variable DISPLAY is not set'')
      else case resolveDisplayEnv display of
          Inl e \<Rightarrow> Some (Inl e)
        | Inr (hostname, displayNumber, screenNumber) \<Rightarrow>
            let trusted = x11Trusted uc args inRemoteSsh; timeout = x11TimeoutOf uc args in
            (case getXauthInfo env display trusted timeout of
               Inl e \<Rightarrow> Some (Inl e)
             | Inr x \<Rightarrow> Some (Inr (\<lparr>SingleConnection = False, AuthProtocol = xauthProto x, AuthCookie = hex_bytes (fakeCookie x),
                 ScreenNumber = screenNumber\<rparr>, x, x11Target display hostname displayNumber))))"

text \<open>A connection that the server opens: refused after the timeout of an untrusted forwarding (times in seconds).\<close>

definition serveX11Channel :: "bool \<Rightarrow> u32 \<Rightarrow> nat \<Rightarrow> nat \<Rightarrow> xauthInfo \<Rightarrow> bytes list \<Rightarrow> (bytes \<times> bytes list) result" where
  "serveX11Channel trusted timeout start now x chan =
     (if \<not> trusted \<and> 0 < timeout \<and> start + unat timeout < now then Inl ''Rejected X11 connection after ForwardX11Timeout''
      else substituteX11Packet x chan)"


section \<open>Properties\<close>

lemma readAtLeast_Some:
  assumes "readAtLeast least capa acc chan = Some (b, chan')" "least \<le> capa"
  shows "acc @ concat chan = b @ concat chan' \<and> least \<le> length b \<and> (length acc \<le> capa \<longrightarrow> length b \<le> capa)"
  using assms by (induction least capa acc chan rule: readAtLeast.induct) (auto split: if_splits)

lemma readAtLeast_None:
  assumes "readAtLeast least capa acc chan = None" "least \<le> capa"
  shows "length acc + length (concat chan) < least"
  using assms by (induction least capa acc chan rule: readAtLeast.induct) (auto split: if_splits)

text \<open>What a stream must begin with, and what becomes of it; both only look at the bytes, not at the pieces.\<close>

definition x11_valid :: "xauthInfo \<Rightarrow> bytes \<Rightarrow> bool" where
  "x11_valid x s \<longleftrightarrow>
     (let p = length (xauthProto x); c = length (fakeCookie x); off = 12 + pad4 p in
      12 \<le> length s \<and> x11Lengths s = Some (p, c) \<and> length (realCookie x) = c \<and> off + pad4 c \<le> 4096 \<and> off + pad4 c \<le> length s \<and>
      take p (drop 12 s) = bytes_of_string (xauthProto x) \<and> take c (drop off s) = fakeCookie x)"

definition x11_replaced :: "xauthInfo \<Rightarrow> bytes \<Rightarrow> bytes" where
  "x11_replaced x s =
     (let off = 12 + pad4 (length (xauthProto x)) in take off s @ realCookie x @ drop (off + length (fakeCookie x)) s)"

lemma pad4_ge: "n \<le> pad4 n"
  by (simp add: pad4_def)

lemma x11Lengths_append: "12 \<le> length b \<Longrightarrow> x11Lengths (b @ r) = x11Lengths b"
  by (cases b) (simp_all add: x11Lengths_def nth_append)

lemma substituteCookie_append:
  assumes "12 + pad4 p + pad4 c \<le> length b"
  shows "substituteCookie x p c (b @ r) = (case substituteCookie x p c b of Inl e \<Rightarrow> Inl e | Inr packet \<Rightarrow> Inr (packet @ r))"
  using assms pad4_ge [of p] pad4_ge [of c] by (simp add: substituteCookie_def Let_def)

text \<open>The packet that is checked: all that was read if it is enough, otherwise exactly the rest of the header is read too.\<close>

definition readPacket :: "nat \<Rightarrow> bytes \<Rightarrow> bytes list \<Rightarrow> (bytes \<times> bytes list) option" where
  "readPacket full b chan =
     (if length b < full
      then (case readAtLeast (full - length b) (full - length b) [] chan of None \<Rightarrow> None | Some (rest, chan2) \<Rightarrow> Some (b @ rest, chan2))
      else Some (b, chan))"

lemma readPacket_cases:
  "(case readPacket full b chan of None \<Rightarrow> length (b @ concat chan) < full
    | Some (b', chan2) \<Rightarrow> b @ concat chan = b' @ concat chan2 \<and> full \<le> length b')"
proof (cases "length b < full")
  case True
  let ?r = "readAtLeast (full - length b) (full - length b) [] chan"
  show ?thesis
  proof (cases ?r)
    case None
    then show ?thesis using readAtLeast_None [of "full - length b" "full - length b" "[]" chan] True by (simp add: readPacket_def)
  next
    case (Some q)
    then show ?thesis
      using readAtLeast_Some [of "full - length b" "full - length b" "[]" chan "fst q" "snd q"] True
      by (cases q) (auto simp: readPacket_def)
  qed
qed (simp add: readPacket_def)

lemma substituteX11Packet_eq:
  "substituteX11Packet x chan =
     (case readAtLeast 12 4096 [] chan of
        None \<Rightarrow> Inl ''read header failed''
      | Some (b, chan1) \<Rightarrow>
          (case x11Lengths b of
             None \<Rightarrow> Inl ''bad byte order byte''
           | Some (p, c) \<Rightarrow>
               if p \<noteq> length (xauthProto x) then Inl ''proto length mismatch''
               else if c \<noteq> length (fakeCookie x) \<or> c \<noteq> length (realCookie x) then Inl ''cookie length mismatch''
               else if 4096 < 12 + pad4 p + pad4 c then Inl ''packet too large''
               else case readPacket (12 + pad4 p + pad4 c) b chan1 of
                   None \<Rightarrow> Inl ''read packet failed''
                 | Some (b', chan2) \<Rightarrow> (case substituteCookie x p c b' of Inl e \<Rightarrow> Inl e | Inr packet \<Rightarrow> Inr (packet, chan2))))"
  unfolding substituteX11Packet_def readPacket_def Let_def ..

text \<open>C15: an X11 client is let through exactly when its stream begins with a setup packet that names the protocol and the cookie made up
  for this connection, in either byte order and however the bytes arrive in pieces; then the display gets the same
  stream with the real cookie in the place of the other one.\<close>

theorem x11_substitution:
  "(\<exists>packet chan'. substituteX11Packet x chan = Inr (packet, chan') \<and> packet @ concat chan' = out) \<longleftrightarrow>
     x11_valid x (concat chan) \<and> out = x11_replaced x (concat chan)"
proof (cases "readAtLeast 12 4096 [] chan")
  case None
  from readAtLeast_None [OF this] have "length (concat chan) < 12" by simp
  then show ?thesis using None by (simp add: substituteX11Packet_eq x11_valid_def Let_def)
next
  case (Some q)
  obtain b chan1 where q: "q = (b, chan1)" by (cases q)
  have b: "concat chan = b @ concat chan1" "12 \<le> length b" using readAtLeast_Some [of 12 4096 "[]" chan b chan1] Some q by simp_all
  let ?p = "length (xauthProto x)" and ?c = "length (fakeCookie x)"
  let ?full = "12 + pad4 ?p + pad4 ?c"
  show ?thesis
  proof (cases "x11Lengths b = Some (?p, ?c) \<and> length (realCookie x) = ?c \<and> ?full \<le> 4096")
    case False
    then have "\<not> x11_valid x (concat chan)" by (auto simp: x11_valid_def Let_def b(1) x11Lengths_append [OF b(2)])
    moreover have "\<exists>e. substituteX11Packet x chan = Inl e"
      using False Some q by (auto simp: substituteX11Packet_eq split: option.splits)
    ultimately show ?thesis by auto
  next
    case True
    then have eq: "substituteX11Packet x chan = (case readPacket ?full b chan1 of None \<Rightarrow> Inl ''read packet failed''
        | Some (b', chan2) \<Rightarrow> (case substituteCookie x ?p ?c b' of Inl e \<Rightarrow> Inl e | Inr packet \<Rightarrow> Inr (packet, chan2)))"
      using Some q by (simp add: substituteX11Packet_eq)
    have valid: "x11_valid x (concat chan) \<longleftrightarrow> ?full \<le> length (concat chan) \<and> take ?p (drop 12 (concat chan)) = bytes_of_string (xauthProto x) \<and>
        take ?c (drop (12 + pad4 ?p) (concat chan)) = fakeCookie x"
      using True b by (simp add: x11_valid_def Let_def x11Lengths_append)
    show ?thesis
    proof (cases "readPacket ?full b chan1")
      case None
      then show ?thesis using eq valid readPacket_cases [where full = ?full and b = b and chan = chan1] b(1) by simp
    next
      case (Some r)
      then obtain b' chan2 where r: "readPacket ?full b chan1 = Some (b', chan2)" by (cases r) simp
      then have b': "concat chan = b' @ concat chan2" "?full \<le> length b'" using readPacket_cases [where full = ?full and b = b and chan = chan1] b(1) by simp_all
      have "substituteCookie x ?p ?c (concat chan) =
          (case substituteCookie x ?p ?c b' of Inl e \<Rightarrow> Inl e | Inr packet \<Rightarrow> Inr (packet @ concat chan2))"
        unfolding b'(1) by (rule substituteCookie_append [OF b'(2)])
      moreover have "substituteCookie x ?p ?c (concat chan) = Inr out \<longleftrightarrow> x11_valid x (concat chan) \<and> out = x11_replaced x (concat chan)"
        using b' unfolding valid by (auto simp: substituteCookie_def x11_replaced_def Let_def)
      ultimately show ?thesis using eq r by (auto split: sum.splits)
    qed
  qed
qed

text \<open>The timeout that is given to \<open>xauth\<close> is the one asked for and a slack, and never wraps around.\<close>

theorem getX11Timeout_saturates: "unat (getX11Timeout t) = min (unat t + 60) (2 ^ 32 - 1)"
proof -
  have "unat (0xFFFFFFFF - kSshX11TimeoutSlack) = 4294967235" by (simp add: kSshX11TimeoutSlack_def)
  moreover have "unat (t + kSshX11TimeoutSlack) = unat t + 60" if "unat t < 4294967235"
    using that by (simp add: kSshX11TimeoutSlack_def unat_add_u32)
  moreover have "unat t < 4294967296" by (rule unat_u32_less)
  ultimately show ?thesis by (simp add: getX11Timeout_def word_less_nat_alt)
qed

text \<open>The server learns only the made-up cookie, which is as long as the real one, and an untrusted forwarding on Linux
  never goes on without the program that makes a restricted cookie.\<close>

theorem xauth_untrusted:
  assumes "getXauthInfo env display False timeout = Inr x" "\<not> xa_noLinux env" "\<forall>n c. xa_random env n = Inr c \<longrightarrow> length c = n"
  shows "genListXauthInfo env display False timeout = Inr x \<and> length (fakeCookie x) = length (realCookie x) \<and>
    (\<exists>genPath out. xa_createTemp env = Inr genPath \<and>
       xa_exec env (getXauthPath env) ([''-f'', genPath, ''generate'', xauthDisplay display, kSshX11Proto, ''untrusted''] @
         (if 0 < timeout then [''timeout'', utoa (unat (getX11Timeout timeout))] else [])) = Inr out)"
proof -
  have g: "genListXauthInfo env display False timeout = Inr x" using assms(1,2) by (simp add: getXauthInfo_def split: sum.splits)
  moreover have "length (fakeCookie x) = length (realCookie x)" if "fillFakeCookie env y = Inr x" for y
    using that assms(3) by (auto simp: fillFakeCookie_def Let_def split: sum.splits if_splits)
  ultimately show ?thesis
    unfolding genListXauthInfo_def by (auto simp: Let_def split: if_splits sum.splits option.splits)
qed

end
