(* ===== verification/Start.thy ===== *)
theory Start
  imports Login
begin

text \<open>
  The start of the program: \<open>tssh/main.go\<close>.  Each call out of \<open>sshStart\<close> is a step in a trace, and its result, when
  the code looks at it, is a field of \<open>start_env\<close>; the deferred functions are at the end of the trace, in the order
  in which they run.
\<close>

section \<open>Arguments of a child process\<close>

definition countArg :: "string \<Rightarrow> string list \<Rightarrow> nat" where
  "countArg a args = length (filter (\<lambda>x. x = a) args)"

definition replaceOrAppendDest :: "string list \<Rightarrow> string \<Rightarrow> string \<Rightarrow> string list result" where
  "replaceOrAppendDest args oldDest newDest =
     (if oldDest = [] then Inr (if newDest \<noteq> [] then args @ [newDest] else args)
      else if oldDest \<noteq> newDest then
        (if countArg oldDest args \<noteq> 1
         then Inl (''don't know how to replace the destination: '' @ oldDest @ '' => '' @ newDest)
         else Inr (map (\<lambda>a. if a = oldDest then newDest else a) args))
      else Inr args)"

text \<open>The environment of the background process: the first process starts a monitor when it is to reconnect, and every other one
  the process that stays in the background.\<close>

datatype background_step = AlreadyInBackground | BackgroundError string | StartChild "string list" string

definition background :: "(string \<Rightarrow> string) \<Rightarrow> bool \<Rightarrow> string list \<Rightarrow> string \<Rightarrow> string \<Rightarrow> bool \<times> background_step" where
  "background getenv reconnect osArgs oldDest dest =
     (let monitor = (getenv ''TRZSZ-SSH-BG-MONITOR'' = ''TRUE'') in
      if getenv ''TRZSZ-SSH-BACKGROUND'' = ''TRUE'' then (monitor, AlreadyInBackground)
      else case replaceOrAppendDest osArgs oldDest dest of
          Inl e \<Rightarrow> (monitor, BackgroundError e)
        | Inr newArgs \<Rightarrow>
            (monitor, StartChild newArgs
               (if reconnect \<and> \<not> monitor then ''TRZSZ-SSH-BG-MONITOR=TRUE'' else ''TRZSZ-SSH-BACKGROUND=TRUE'')))"

text \<open>The monitor starts its child again; a child that ran for less than ten seconds makes it wait one second longer, up to ten.\<close>

definition monitorSleep :: "nat \<Rightarrow> nat \<Rightarrow> nat" where
  "monitorSleep elapsed sleepTime = (if elapsed < 10 then (if sleepTime < 10 then sleepTime + 1 else sleepTime) else 0)"

definition reconnectArgs :: "string list \<Rightarrow> string \<Rightarrow> string \<Rightarrow> string list result" where
  "reconnectArgs osArgs oldDest dest = replaceOrAppendDest (filter (\<lambda>a. a \<noteq> ''--reconnect'') osArgs) oldDest dest"

text \<open>The keys read until enter or Ctrl+C; the end of the input counts as no.\<close>

fun waitForEnter :: "char list \<Rightarrow> bool" where
  "waitForEnter [] = False"
| "waitForEnter (c # cs) = (if c = CHR 0x0D \<or> c = CHR 0x0A then True else if c = CHR 0x03 then False else waitForEnter cs)"

section \<open>Functions for the end\<close>

text \<open>The registered functions, and those that were run, in order.\<close>

record 'f on_exit =
  onExitFuncs :: "'f list"
  exit_run :: "'f list"

definition addOnExitFunc :: "'f \<Rightarrow> 'f on_exit \<Rightarrow> 'f on_exit" where
  "addOnExitFunc f st = st\<lparr>onExitFuncs := onExitFuncs st @ [f]\<rparr>"

definition cleanupOnExit :: "'f on_exit \<Rightarrow> 'f on_exit" where
  "cleanupOnExit st = st\<lparr>exit_run := exit_run st @ rev (onExitFuncs st), onExitFuncs := []\<rparr>"

section \<open>A connection from start to end\<close>

datatype start_call =
    SshConnect | ExecLocalCommand | HandleExitSignals | StdioForward | SubsystemForward | PortForward | WaitClient | OpenSession
  | AgentForward | X11Forward | SetTerminalTitle | ExecRemoteTools | EnableWaypipe | AttachSession | StartCommand | StartShell
  | ExecExpect | MakeStdinRaw | SetupTrzsz | SetupNotification | ForwardStdio | WaitUntilExit | WaitOutput
  | ResetStdin | WaitMuxClients | CleanupOnClose | CloseConnection

text \<open>What the calls return: \<open>None\<close> is success, and the last one is the exit code of the session.\<close>

record start_env =
  st_connect :: "string option"
  st_controlClient :: bool
  st_stdioForward :: "string option"
  st_subsystem :: "string option"
  st_openSession :: "string option"
  st_setTitle :: string
  st_remoteTools :: "int option"
  st_udpSession :: bool
  st_attachID :: nat
  st_attach :: "string option"
  st_cmd :: string
  st_start :: "string option"
  st_shell :: "string option"
  st_shellEOF :: bool
  st_isTerminal :: bool
  st_tty :: bool
  st_stdinRaw :: "string option"
  st_trzsz :: "string option"
  st_exitCode :: int

text \<open>The end of a path: the deferred functions, and \<open>resetStdin\<close> first when the terminal was made raw.\<close>

definition deferred :: "bool \<Rightarrow> start_call list" where
  "deferred raw = (if raw then [ResetStdin] else []) @ [WaitMuxClients, CleanupOnClose, CloseConnection]"

text \<open>From the running command to the exit code.\<close>

definition runSession :: "start_env \<Rightarrow> sshArgs \<Rightarrow> int \<times> string option \<times> start_call list" where
  "runSession env args =
     (let raw = st_isTerminal env \<and> st_tty env; made = (if raw then [MakeStdinRaw] else []) in
      if raw \<and> st_stdinRaw env \<noteq> None then (21, st_stdinRaw env, ExecExpect # MakeStdinRaw # deferred False)
      else if st_trzsz env \<noteq> None then (22, st_trzsz env, ExecExpect # made @ SetupTrzsz # deferred raw)
      else (st_exitCode env, None,
        ExecExpect # made @ [SetupTrzsz, SetupNotification, ForwardStdio, WaitUntilExit] @
          (if a_Background args then [WaitClient] else []) @ WaitOutput # deferred raw))"

text \<open>The command: an attached session, the remote command or a shell.  A shell request that ends before its reply is no error.\<close>

definition startSession :: "start_env \<Rightarrow> sshArgs \<Rightarrow> int \<times> string option \<times> start_call list" where
  "startSession env args =
     (let fail = (\<lambda>code call e. (code, Some e, call # deferred False));
          go = (\<lambda>call. case runSession env args of (code, err, tr) \<Rightarrow> (code, err, call # tr)) in
      if st_udpSession env \<and> 0 < st_attachID env then
        (case st_attach env of Some e \<Rightarrow> fail 25 AttachSession (''attach session failed: '' @ e) | None \<Rightarrow> go AttachSession)
      else if st_cmd env \<noteq> [] then
        (case st_start env of Some e \<Rightarrow> fail 19 StartCommand (''start command ['' @ st_cmd env @ ''] failed: '' @ e) | None \<Rightarrow> go StartCommand)
      else
        (case st_shell env of
           Some e \<Rightarrow> if st_shellEOF env then go StartShell else fail 20 StartShell (''start shell failed: '' @ e)
         | None \<Rightarrow> go StartShell))"

definition sshStart :: "start_env \<Rightarrow> sshArgs \<Rightarrow> int \<times> string option \<times> start_call list" where
  "sshStart env args =
     (case st_connect env of
        Some e \<Rightarrow> (16, Some e, [SshConnect])
      | None \<Rightarrow>
          let pre = [SshConnect, ExecLocalCommand, HandleExitSignals];
              fwd = pre @ (if st_controlClient env then [] else [PortForward]);
              title = EqualFold (st_setTitle env) ''yes'' \<or> EqualFold (st_setTitle env) ''true'';
              sess = fwd @ [OpenSession] @ (if st_controlClient env then [] else [AgentForward]) @ [X11Forward] @
                (if title then [SetTerminalTitle] else []) @ [ExecRemoteTools] in
          if a_StdioForward args \<noteq> []
          then (case st_stdioForward env of Some e \<Rightarrow> (17, Some e, pre @ StdioForward # deferred False)
                | None \<Rightarrow> (0, None, pre @ StdioForward # deferred False))
          else if a_Subsystem args
          then (case st_subsystem env of Some e \<Rightarrow> (18, Some e, pre @ SubsystemForward # deferred False)
                | None \<Rightarrow> (0, None, pre @ SubsystemForward # deferred False))
          else if a_NoCommand args then (0, None, fwd @ WaitClient # deferred False)
          else (case st_openSession env of
              Some e \<Rightarrow> (23, Some e, fwd @ OpenSession # deferred False)
            | None \<Rightarrow>
                (case st_remoteTools env of
                   Some code \<Rightarrow> (code, None, sess @ deferred False)
                 | None \<Rightarrow> (case startSession env args of (code, err, tr) \<Rightarrow> (code, err, sess @ EnableWaypipe # tr)))))"

section \<open>The main function\<close>

text \<open>What the calls before the connection return: the parser (an error, help or version), the user's configuration, the terminal, a local
  tool that has run, the choice of the destination, and the control command.\<close>

datatype parse_result = ParseHelp | ParseVersion | ParseError | Parsed

record main_env =
  me_parse :: parse_result
  me_verDetailed :: bool
  me_userConfig :: "string option"
  me_isTerminal :: bool
  me_virtualTerminal :: "string option"
  me_localTools :: "int option"
  me_dest :: "string \<times> bool \<times> string option"
  me_controlCmd :: int
  me_background :: "bool result"
  me_reconnect :: "string option"
  me_start :: start_env

text \<open>The exit code, the error that is printed, and the arguments with which a connection is made, if it is.\<close>

definition TsshMain :: "main_env \<Rightarrow> sshArgs \<Rightarrow> int \<times> string option \<times> sshArgs option" where
  "TsshMain env args =
     (case me_parse env of
        ParseError \<Rightarrow> (11, None, None) | ParseHelp \<Rightarrow> (0, None, None) | ParseVersion \<Rightarrow> (0, None, None)
      | Parsed \<Rightarrow>
          if me_verDetailed env then (0, None, None)
          else if me_userConfig env \<noteq> None then (12, me_userConfig env, None)
          else if me_isTerminal env \<and> me_virtualTerminal env \<noteq> None then (13, me_virtualTerminal env, None)
          else case me_localTools env of Some code \<Rightarrow> (code, None, None)
          | None \<Rightarrow>
              (case me_dest env of (dest, quit, err) \<Rightarrow>
                 if quit then (26, None, None)
                 else if a_ControlCmd args \<noteq> [] then (me_controlCmd env, err, None)
                 else if err \<noteq> None \<or> dest = []
                 then (14, case err of None \<Rightarrow> Some ''missing destination host'' | Some e \<Rightarrow> Some e, None)
                 else if a_Background args \<and> me_background env \<noteq> Inr False
                 then (case me_background env of Inl e \<Rightarrow> (15, Some e, None) | Inr _ \<Rightarrow> (0, None, None))
                 else if a_Reconnect args \<and> me_isTerminal env
                 then (case me_reconnect env of Some e \<Rightarrow> (24, Some e, None) | None \<Rightarrow> (0, None, None))
                 else let args' = args\<lparr>a_Destination := dest\<rparr>; r = sshStart (me_start env) args' in
                   (fst r, fst (snd r), Some args')))"

section \<open>The local command and the session\<close>

definition execLocalCommand :: "userConfig \<Rightarrow> login_env \<Rightarrow> (string \<Rightarrow> string) \<Rightarrow> (string \<Rightarrow> string list result) \<Rightarrow> sshParam \<Rightarrow> string list option" where
  "execLocalCommand uc env home split p =
     (let localCmd = getOptionConfig uc (sp_args p) ''LocalCommand'' in
      if \<not> EqualFold (getOptionConfig uc (sp_args p) ''PermitLocalCommand'') ''yes'' \<or> localCmd = [] then None
      else case expandTokens localCmd (tokensFor uc env p) ''%CdfHhIijKkLlnprTtu'' of
          Inl _ \<Rightarrow> None
        | Inr expanded \<Rightarrow> (case split (home expanded) of Inl _ \<Rightarrow> None | Inr argv \<Rightarrow> if argv = [] then None else Some argv))"

text \<open>The calls that open a session, each with its error; the terminal is requested only for a terminal.\<close>

record session_env =
  ss_NewSession :: "string option"
  ss_StdinPipe :: "string option"
  ss_StdoutPipe :: "string option"
  ss_StderrPipe :: "string option"
  ss_sendAndSetEnv :: "string result"
  ss_isTerminal :: bool
  ss_tty :: bool
  ss_getTerminalSize :: "(nat \<times> nat) result"
  ss_RequestPty :: "string \<Rightarrow> nat \<Rightarrow> nat \<Rightarrow> string option"

definition openSession :: "session_env \<Rightarrow> unit result" where
  "openSession env =
     (let check = (\<lambda>r text rest. case r of Some e \<Rightarrow> Inl (text @ e) | None \<Rightarrow> rest) in
      check (ss_NewSession env) ''new session failed: ''
     (check (ss_StdinPipe env) ''stdin pipe failed: ''
     (check (ss_StdoutPipe env) ''stdout pipe failed: ''
     (check (ss_StderrPipe env) ''stderr pipe failed: ''
     (case ss_sendAndSetEnv env of
        Inl e \<Rightarrow> Inl e
      | Inr trm \<Rightarrow>
          if \<not> ss_isTerminal env \<or> \<not> ss_tty env then Inr ()
          else case ss_getTerminalSize env of
              Inl e \<Rightarrow> Inl (''get terminal size failed: '' @ e)
            | Inr (width, height) \<Rightarrow> check (ss_RequestPty env trm height width) ''request pty failed: '' (Inr ()))))))"


section \<open>Properties\<close>

lemma runSession_ends:
  "\<exists>tr raw. snd (snd (runSession env args)) = tr @ deferred raw \<and> set tr \<inter> set (deferred True) = {} \<and>
     raw = (st_isTerminal env \<and> st_tty env \<and> st_stdinRaw env = None) \<and>
     set tr \<inter> {OpenSession, PortForward, AgentForward} = {}"
proof -
  let ?raw = "st_isTerminal env \<and> st_tty env"
  let ?made = "if ?raw then [MakeStdinRaw] else []"
  consider "?raw" "st_stdinRaw env \<noteq> None" | "\<not> (?raw \<and> st_stdinRaw env \<noteq> None)" "st_trzsz env \<noteq> None"
    | "\<not> (?raw \<and> st_stdinRaw env \<noteq> None)" "st_trzsz env = None" by blast
  then show ?thesis
  proof cases
    case 1
    then show ?thesis by (intro exI [of _ "[ExecExpect, MakeStdinRaw]"] exI [of _ False]) (simp add: runSession_def deferred_def)
  next
    case 2
    then show ?thesis
      by (intro exI [of _ "ExecExpect # ?made @ [SetupTrzsz]"] exI [of _ ?raw]) (auto simp: runSession_def deferred_def Let_def)
  next
    case 3
    then show ?thesis
      by (intro exI [of _ "ExecExpect # ?made @ [SetupTrzsz, SetupNotification, ForwardStdio, WaitUntilExit] @
             (if a_Background args then [WaitClient] else []) @ [WaitOutput]"] exI [of _ ?raw])
        (auto simp: runSession_def deferred_def Let_def)
  qed
qed

lemma startSession_ends:
  "\<exists>tr raw. snd (snd (startSession env args)) = tr @ deferred raw \<and> set tr \<inter> set (deferred True) = {} \<and>
     (raw \<longrightarrow> st_stdinRaw env = None) \<and> set tr \<inter> {OpenSession, PortForward, AgentForward} = {}"
proof -
  obtain tr raw where r: "snd (snd (runSession env args)) = tr @ deferred raw" "set tr \<inter> set (deferred True) = {}"
    "raw \<longrightarrow> st_stdinRaw env = None" "set tr \<inter> {OpenSession, PortForward, AgentForward} = {}"
    using runSession_ends [of env args] by blast
  define c where "c = (if st_udpSession env \<and> 0 < st_attachID env then AttachSession else if st_cmd env \<noteq> [] then StartCommand else StartShell)"
  obtain code err where "runSession env args = (code, err, tr @ deferred raw)" using r(1) by (cases "runSession env args") auto
  then have "snd (snd (startSession env args)) = c # deferred False \<or> snd (snd (startSession env args)) = c # tr @ deferred raw"
    by (simp add: startSession_def Let_def c_def split: option.splits)
  moreover have c: "c \<in> {AttachSession, StartCommand, StartShell}" by (simp add: c_def)
  ultimately consider "snd (snd (startSession env args)) = c # deferred False" | "snd (snd (startSession env args)) = c # tr @ deferred raw"
    by blast
  then show ?thesis
  proof cases
    case 1
    then show ?thesis using c by (intro exI [of _ "[c]"] exI [of _ False]) (auto simp: deferred_def)
  next
    case 2
    then show ?thesis using c r(2-4) by (intro exI [of _ "c # tr"] exI [of _ raw]) (auto simp: deferred_def)
  qed
qed


text \<open>Replacing the destination changes one argument, the only one with the text of the old destination, or appends the new one.\<close>

theorem replaceOrAppendDest_exact:
  assumes "replaceOrAppendDest args oldDest newDest = Inr args'"
  shows "args' = args \<and> (oldDest = newDest) \<or> oldDest = [] \<and> args' = args @ [newDest] \<or>
    (\<exists>i<length args. args ! i = oldDest \<and> args' = args[i := newDest] \<and> (\<forall>j<length args. args ! j = oldDest \<longrightarrow> j = i))"
proof (cases "oldDest = [] \<or> oldDest = newDest")
  case True
  then show ?thesis using assms by (auto simp: replaceOrAppendDest_def split: if_splits)
next
  case False
  then have one: "length (filter (\<lambda>x. x = oldDest) args) = 1" and m: "args' = map (\<lambda>a. if a = oldDest then newDest else a) args"
    using assms by (auto simp: replaceOrAppendDest_def countArg_def split: if_splits)
  have "length (filter (\<lambda>x. x = oldDest) args) = card {i. i < length args \<and> args ! i = oldDest}" by (rule length_filter_conv_card)
  with one obtain i where i: "{i. i < length args \<and> args ! i = oldDest} = {i}" by (metis card_1_singletonE)
  then have u: "i < length args" "args ! i = oldDest" "\<And>j. j < length args \<Longrightarrow> args ! j = oldDest \<Longrightarrow> j = i" by auto
  have "args' = args[i := newDest]"
  proof (rule nth_equalityI)
    fix j assume "j < length args'"
    then have j: "j < length args" by (simp add: m)
    show "args' ! j = args[i := newDest] ! j"
    proof (cases "j = i")
      case True
      then show ?thesis using u(1,2) by (simp add: m)
    next
      case False
      then have "args ! j \<noteq> oldDest" using u(3) j by blast
      then show ?thesis using False j by (simp add: m)
    qed
  qed (simp add: m)
  then show ?thesis using u by blast
qed

text \<open>Every function registered is run once, the last one first, and a second cleanup runs nothing.\<close>

theorem cleanup_runs_once:
  "exit_run (cleanupOnExit (foldl (\<lambda>st f. addOnExitFunc f st) \<lparr>onExitFuncs = [], exit_run = []\<rparr> fs)) = rev fs \<and>
   cleanupOnExit (cleanupOnExit st) = cleanupOnExit st"
proof -
  have "foldl (\<lambda>st f. addOnExitFunc f st) \<lparr>onExitFuncs = gs, exit_run = []\<rparr> fs = \<lparr>onExitFuncs = gs @ fs, exit_run = []\<rparr>" for gs
    by (induction fs arbitrary: gs) (simp_all add: addOnExitFunc_def)
  then show ?thesis by (simp add: cleanupOnExit_def)
qed

lemma monitorSleep_bound: "sleepTime \<le> 10 \<Longrightarrow> monitorSleep elapsed sleepTime \<le> 10"
  by (simp add: monitorSleep_def)


definition demo_start :: start_env where
  "demo_start = \<lparr>st_connect = None, st_controlClient = True, st_stdioForward = None, st_subsystem = None, st_openSession = None, st_setTitle = [],
     st_remoteTools = None, st_udpSession = False, st_attachID = 0, st_attach = None, st_cmd = ''ls'', st_start = None, st_shell = None,
     st_shellEOF = False, st_isTerminal = True, st_tty = True, st_stdinRaw = None, st_trzsz = None, st_exitCode = 3\<rparr>"


theorem replaceOrAppendDest_exact_witness:
  "replaceOrAppendDest [''tssh'', ''-v'', ''a''] ''a'' ''b'' = Inr [''tssh'', ''-v'', ''b''] \<and> [''tssh'', ''-v'', ''b''] ! 2 = ''b''"
proof -
  have e: "replaceOrAppendDest [''tssh'', ''-v'', ''a''] ''a'' ''b'' = Inr [''tssh'', ''-v'', ''b'']" by code_simp
  with replaceOrAppendDest_exact [OF e] show ?thesis by simp
qed

end
