(* ===== verification/Table.thy ===== *)
theory Table
  imports GoStrings "HOL-Library.Signed_Division"
begin

text \<open>
  \<open>internal/table\<close>: the table in which the hosts are listed.  The package \<open>lipgloss\<close>, which renders styled text
  and measures it, is the parameter \<open>lipgloss\<close>; a style is a value of any type.  A drawing that would
  panic is \<^term>\<open>None\<close>.
\<close>

section \<open>Helpers\<close>

definition btoi :: "bool \<Rightarrow> int" where
  "btoi b = (if b then 1 else 0)"

definition table_max :: "int \<Rightarrow> int \<Rightarrow> int" where
  "table_max a b = (if a > b then a else b)"

definition table_min :: "int \<Rightarrow> int \<Rightarrow> int" where
  "table_min a b = (if a < b then a else b)"

definition table_sum :: "int list \<Rightarrow> int" where
  "table_sum n = foldl (\<lambda>s i. s + i) 0 n"

text \<open>The division truncates, as in Go.\<close>

definition median :: "int list \<Rightarrow> int" where
  "median n =
     (let s = sort n; h = length s div 2 in
      if s = [] then 0 else if length s mod 2 = 0 then (s ! (h - 1) + s ! h) sdiv 2 else s ! h)"

definition largest :: "int list \<Rightarrow> nat \<times> int" where
  "largest n = foldl (\<lambda>(index, l) (i, e). if n ! i > n ! index then (i, e) else (index, l)) (0, 0) (enumerate 0 n)"

section \<open>Data\<close>

text \<open>A value of the interface \<open>Data\<close>: what its three methods return.\<close>

record Data =
  At :: "nat \<Rightarrow> nat \<Rightarrow> string"
  Rows :: nat
  Columns :: nat

record StringData =
  sd_rows :: "string list list"
  sd_columns :: nat

definition StringData_Append :: "string list \<Rightarrow> StringData \<Rightarrow> StringData" where
  "StringData_Append row m = m\<lparr>sd_columns := nat (table_max (int (sd_columns m)) (int (length row))), sd_rows := sd_rows m @ [row]\<rparr>"

definition StringData_Item :: "string list \<Rightarrow> StringData \<Rightarrow> StringData" where
  "StringData_Item row m = m\<lparr>sd_columns := nat (table_max (int (sd_columns m)) (int (length row))), sd_rows := sd_rows m @ [row]\<rparr>"

definition NewStringData :: "string list list \<Rightarrow> StringData" where
  "NewStringData rows =
     foldl (\<lambda>m row. m\<lparr>sd_columns := nat (table_max (int (sd_columns m)) (int (length row))), sd_rows := sd_rows m @ [row]\<rparr>)
       \<lparr>sd_rows = [], sd_columns = 0\<rparr> rows"

definition StringData_At :: "StringData \<Rightarrow> nat \<Rightarrow> nat \<Rightarrow> string" where
  "StringData_At m row cell =
     (if row \<ge> length (sd_rows m) \<or> cell \<ge> length (sd_rows m ! row) then [] else sd_rows m ! row ! cell)"

definition StringData_Columns :: "StringData \<Rightarrow> nat" where
  "StringData_Columns m = sd_columns m"

definition StringData_Rows :: "StringData \<Rightarrow> nat" where
  "StringData_Rows m = length (sd_rows m)"

definition StringData_view :: "StringData \<Rightarrow> Data" where
  "StringData_view m = \<lparr>At = StringData_At m, Rows = StringData_Rows m, Columns = StringData_Columns m\<rparr>"

text \<open>A filter, with the function that \<open>Filter\<close> sets.\<close>

record Filter =
  flt_data :: Data
  flt_filter :: "nat \<Rightarrow> bool"

definition Filter_Filter :: "(nat \<Rightarrow> bool) \<Rightarrow> Filter \<Rightarrow> Filter" where
  "Filter_Filter f m = m\<lparr>flt_filter := f\<rparr>"

text \<open>The loop of \<open>At\<close> over the rows of the data, with the number \<open>j\<close> of rows kept so far.\<close>

fun filterAt :: "Filter \<Rightarrow> nat \<Rightarrow> nat \<Rightarrow> nat \<Rightarrow> nat list \<Rightarrow> string" where
  "filterAt m row cell j [] = []"
| "filterAt m row cell j (i # is) =
     (if flt_filter m i then (if j = row then At (flt_data m) i cell else filterAt m row cell (j + 1) is)
      else filterAt m row cell j is)"

definition Filter_At :: "Filter \<Rightarrow> nat \<Rightarrow> nat \<Rightarrow> string" where
  "Filter_At m row cell = filterAt m row cell 0 [0..<Rows (flt_data m)]"

definition Filter_Columns :: "Filter \<Rightarrow> nat" where
  "Filter_Columns m = Columns (flt_data m)"

definition Filter_Rows :: "Filter \<Rightarrow> nat" where
  "Filter_Rows m = foldl (\<lambda>j i. if flt_filter m i then j + 1 else j) 0 [0..<Rows (flt_data m)]"

definition Filter_view :: "Filter \<Rightarrow> Data" where
  "Filter_view m = \<lparr>At = Filter_At m, Rows = Filter_Rows m, Columns = Filter_Columns m\<rparr>"

text \<open>The dynamic types of the data that a table tells apart: its own \<open>StringData\<close>, and anything else.\<close>

datatype data_value = IsStringData StringData | IsOther Data

fun data_view :: "data_value \<Rightarrow> Data" where
  "data_view (IsStringData m) = StringData_view m"
| "data_view (IsOther d) = d"

section \<open>Styles and borders\<close>

datatype BorderType = BorderTop | BorderBottom | BorderLeft | BorderRight | BorderTopLeft | BorderTopRight
  | BorderBottomLeft | BorderBottomRight | BorderMiddleLeft | BorderMiddleRight | BorderMiddle
  | BorderMiddleTop | BorderMiddleBottom

text \<open>What the table uses of \<open>lipgloss\<close> and \<open>go-runewidth\<close>: styles with their setters, rendering, the width and height of a
  rendered text, joining of cells, and truncation.\<close>

record 's lipgloss =
  NewStyle :: 's
  StyleWidth :: "int \<Rightarrow> 's \<Rightarrow> 's"
  StyleMaxWidth :: "int \<Rightarrow> 's \<Rightarrow> 's"
  StyleHeight :: "int \<Rightarrow> 's \<Rightarrow> 's"
  StyleMaxHeight :: "int \<Rightarrow> 's \<Rightarrow> 's"
  Render :: "'s \<Rightarrow> string \<Rightarrow> string"
  Width :: "string \<Rightarrow> nat"
  Height :: "string \<Rightarrow> nat"
  JoinTop :: "string list \<Rightarrow> string"
  Truncate :: "string \<Rightarrow> int \<Rightarrow> string \<Rightarrow> string"

record Border =
  Top :: string
  Bottom :: string
  Left :: string
  Right :: string
  TopLeft :: string
  TopRight :: string
  BottomLeft :: string
  BottomRight :: string
  MiddleLeft :: string
  MiddleRight :: string
  Middle :: string
  MiddleTop :: string
  MiddleBottom :: string

section \<open>The table\<close>

text \<open>The style functions get the row and the column of a cell; \<^term>\<open>None\<close> is a nil function, or nil data.  The offset is not
  negative.\<close>

record 's Table =
  t_styleFunc :: "(int \<Rightarrow> int \<Rightarrow> 's) option"
  t_borderStyleFunc :: "(int \<Rightarrow> int \<Rightarrow> BorderType \<Rightarrow> 's) option"
  t_border :: Border
  t_borderTop :: bool
  t_borderBottom :: bool
  t_borderLeft :: bool
  t_borderRight :: bool
  t_borderHeader :: bool
  t_borderColumn :: bool
  t_borderRow :: bool
  t_borderStyle :: 's
  t_headers :: "string list"
  t_data :: "data_value option"
  t_width :: int
  t_height :: int
  t_offset :: nat
  t_widths :: "int list"
  t_heights :: "int list"
  t_fixedColumns :: "nat list"

text \<open>\<open>lipgloss.RoundedBorder()\<close> is a parameter; the zero value of a style is that of \<open>NewStyle\<close>.\<close>

definition New_table :: "'s lipgloss \<Rightarrow> Border \<Rightarrow> 's Table" where
  "New_table lib rounded =
     \<lparr>t_styleFunc = Some (\<lambda>_ _. NewStyle lib), t_borderStyleFunc = None, t_border = rounded,
      t_borderTop = True, t_borderBottom = True, t_borderLeft = True, t_borderRight = True,
      t_borderHeader = True, t_borderColumn = True, t_borderRow = False, t_borderStyle = NewStyle lib,
      t_headers = [], t_data = Some (IsStringData (NewStringData [])), t_width = 0, t_height = 0, t_offset = 0,
      t_widths = [], t_heights = [], t_fixedColumns = []\<rparr>"

definition ClearRows :: "'s Table \<Rightarrow> 's Table" where
  "ClearRows t = t\<lparr>t_data := None\<rparr>"

definition StyleFunc_table :: "(int \<Rightarrow> int \<Rightarrow> 's) option \<Rightarrow> 's Table \<Rightarrow> 's Table" where
  "StyleFunc_table f t = t\<lparr>t_styleFunc := f\<rparr>"

definition BorderStyleFunc_table :: "(int \<Rightarrow> int \<Rightarrow> BorderType \<Rightarrow> 's) option \<Rightarrow> 's Table \<Rightarrow> 's Table" where
  "BorderStyleFunc_table f t = t\<lparr>t_borderStyleFunc := f\<rparr>"

definition Data_table :: "data_value option \<Rightarrow> 's Table \<Rightarrow> 's Table" where
  "Data_table v t = t\<lparr>t_data := v\<rparr>"

definition Headers :: "string list \<Rightarrow> 's Table \<Rightarrow> 's Table" where
  "Headers hs t = t\<lparr>t_headers := hs\<rparr>"

definition Border_table :: "Border \<Rightarrow> 's Table \<Rightarrow> 's Table" where
  "Border_table b t = t\<lparr>t_border := b\<rparr>"

definition BorderTop_table :: "bool \<Rightarrow> 's Table \<Rightarrow> 's Table" where
  "BorderTop_table v t = t\<lparr>t_borderTop := v\<rparr>"

definition BorderBottom_table :: "bool \<Rightarrow> 's Table \<Rightarrow> 's Table" where
  "BorderBottom_table v t = t\<lparr>t_borderBottom := v\<rparr>"

definition BorderLeft_table :: "bool \<Rightarrow> 's Table \<Rightarrow> 's Table" where
  "BorderLeft_table v t = t\<lparr>t_borderLeft := v\<rparr>"

definition BorderRight_table :: "bool \<Rightarrow> 's Table \<Rightarrow> 's Table" where
  "BorderRight_table v t = t\<lparr>t_borderRight := v\<rparr>"

definition BorderHeader :: "bool \<Rightarrow> 's Table \<Rightarrow> 's Table" where
  "BorderHeader v t = t\<lparr>t_borderHeader := v\<rparr>"

definition BorderColumn :: "bool \<Rightarrow> 's Table \<Rightarrow> 's Table" where
  "BorderColumn v t = t\<lparr>t_borderColumn := v\<rparr>"

definition BorderRow :: "bool \<Rightarrow> 's Table \<Rightarrow> 's Table" where
  "BorderRow v t = t\<lparr>t_borderRow := v\<rparr>"

definition BorderStyle :: "'s \<Rightarrow> 's Table \<Rightarrow> 's Table" where
  "BorderStyle v t = t\<lparr>t_borderStyle := v\<rparr>"

definition Height_table :: "int \<Rightarrow> 's Table \<Rightarrow> 's Table" where
  "Height_table h t = t\<lparr>t_height := h\<rparr>"

definition Offset :: "nat \<Rightarrow> 's Table \<Rightarrow> 's Table" where
  "Offset offset t = t\<lparr>t_offset := offset\<rparr>"

definition Row :: "string list \<Rightarrow> 's Table \<Rightarrow> 's Table" where
  "Row row t = (case t_data t of Some (IsStringData m) \<Rightarrow> t\<lparr>t_data := Some (IsStringData (StringData_Append row m))\<rparr> | _ \<Rightarrow> t)"

definition Rows_table :: "string list list \<Rightarrow> 's Table \<Rightarrow> 's Table" where
  "Rows_table rows t = foldl (\<lambda>t row. case t_data t of
       Some (IsStringData m) \<Rightarrow> t\<lparr>t_data := Some (IsStringData (StringData_Append row m))\<rparr> | _ \<Rightarrow> t) t rows"

definition FixedColumns :: "nat list \<Rightarrow> 's Table \<Rightarrow> 's Table" where
  "FixedColumns columns t = t\<lparr>t_fixedColumns := t_fixedColumns t @ columns\<rparr>"

definition Width_table :: "int \<Rightarrow> 's Table \<Rightarrow> 's Table" where
  "Width_table w t = t\<lparr>t_width := w\<rparr>"

definition style :: "'s lipgloss \<Rightarrow> 's Table \<Rightarrow> int \<Rightarrow> int \<Rightarrow> 's" where
  "style lib t row col = (case t_styleFunc t of None \<Rightarrow> NewStyle lib | Some f \<Rightarrow> f row col)"

definition getBorderStyle :: "'s Table \<Rightarrow> int \<Rightarrow> int \<Rightarrow> BorderType \<Rightarrow> 's" where
  "getBorderStyle t row col b = (case t_borderStyleFunc t of None \<Rightarrow> t_borderStyle t | Some f \<Rightarrow> f row col b)"

definition getExpandableColumns :: "'s Table \<Rightarrow> nat list" where
  "getExpandableColumns t = filter (\<lambda>i. i \<notin> set (t_fixedColumns t)) [0..<length (t_widths t)]"

definition computeWidth :: "'s Table \<Rightarrow> int" where
  "computeWidth t =
     table_sum (t_widths t) + btoi (t_borderLeft t) + btoi (t_borderRight t) +
     (if t_borderColumn t then int (length (t_widths t)) - 1 else 0)"

definition computeHeight :: "'s Table \<Rightarrow> nat \<Rightarrow> int" where
  "computeHeight t rows =
     table_sum (t_heights t) - 1 + btoi (t_headers t \<noteq> []) + btoi (t_borderTop t) + btoi (t_borderBottom t) +
     btoi (t_borderHeader t) + int rows * btoi (t_borderRow t)"

subsection \<open>Measuring\<close>

definition padHeaders :: "Data \<Rightarrow> string list \<Rightarrow> string list" where
  "padHeaders d hs = (if hs = [] then [] else hs @ replicate (Columns d - length hs) [])"

definition bump :: "nat \<Rightarrow> int \<Rightarrow> int list \<Rightarrow> int list" where
  "bump i n xs = xs[i := table_max (xs ! i) n]"

definition measureHeaders :: "'s lipgloss \<Rightarrow> 's Table \<Rightarrow> int list \<times> int list \<Rightarrow> int list \<times> int list" where
  "measureHeaders lib t whs =
     foldl (\<lambda>(ws, hs) (i, cell).
         let rendered = Render lib (style lib t 0 (int i)) cell in
         (bump i (int (Width lib rendered)) ws, bump 0 (int (Height lib rendered)) hs))
       whs (enumerate 0 (t_headers t))"

definition measureRow :: "'s lipgloss \<Rightarrow> 's Table \<Rightarrow> Data \<Rightarrow> nat \<Rightarrow> int list \<times> int list \<Rightarrow> int list \<times> int list" where
  "measureRow lib t d r whs =
     foldl (\<lambda>(ws, hs) i.
         let rendered = Render lib (style lib t (int r + 1) (int i)) (At d r i);
             h = r + (if t_headers t = [] then 0 else 1) in
         (bump i (int (Width lib rendered)) ws, bump h (int (Height lib rendered)) hs))
       whs [0..<Columns d]"

definition measureTable :: "'s lipgloss \<Rightarrow> 's Table \<Rightarrow> Data \<Rightarrow> 's Table" where
  "measureTable lib t d =
     (let ws = replicate (max (length (t_headers t)) (Columns d)) 0;
          hs = replicate ((if t_headers t = [] then 0 else 1) + Rows d) 0;
          (ws', hs') = foldl (\<lambda>whs r. measureRow lib t d r whs) (measureHeaders lib t (ws, hs)) [0..<Rows d] in
      t\<lparr>t_widths := ws', t_heights := hs'\<rparr>)"

subsection \<open>Resizing\<close>

text \<open>The loops of \<open>String\<close> that resize the columns, with the width reached so far and the width that is wanted.
  An empty list of columns has no largest one, and to index it panics.\<close>

function expandColumns :: "nat list \<Rightarrow> int \<Rightarrow> int \<Rightarrow> nat \<Rightarrow> int list \<Rightarrow> int list" where
  "expandColumns idx target w i ws =
     (if w < target then expandColumns idx target (w + 1) ((i + 1) mod length idx) (ws[idx ! i := ws ! (idx ! i) + 1]) else ws)"
  by pat_completeness auto
termination by (relation "measure (\<lambda>(idx, target, w, i, ws). nat (target - w))") auto

definition columnMedian :: "'s lipgloss \<Rightarrow> 's Table \<Rightarrow> Data \<Rightarrow> nat \<Rightarrow> int" where
  "columnMedian lib t d c =
     median (map (\<lambda>r.
         let rendered = Render lib (style lib t (int r + btoi (t_headers t \<noteq> [])) (int c)) (At d r c) in
         int (Width lib (rev (dropWhile (\<lambda>x. x = CHR 0x20) (rev rendered)))) + 1) [0..<Rows d])"

function shrinkDifferences :: "int \<Rightarrow> int list \<Rightarrow> int \<Rightarrow> int list \<Rightarrow> (int \<times> int list) option" where
  "shrinkDifferences target differences w ws =
     (if w > target then
        (let index = fst (largest differences); shrink = table_min (differences ! index) (w - target) in
         if differences = [] then None
         else if differences ! index < 1 then Some (w, ws)
         else shrinkDifferences target (differences[index := 0]) (w - shrink) (ws[index := ws ! index - shrink]))
      else Some (w, ws))"
  by pat_completeness auto
termination
  by (relation "measure (\<lambda>(target, differences, w, ws). nat (w - target))") (auto simp: table_min_def)

function shrinkLargest :: "int \<Rightarrow> int \<Rightarrow> int list \<Rightarrow> int list option" where
  "shrinkLargest target w ws =
     (if w > target then
        (let index = fst (largest ws) in
         if ws = [] then None
         else if ws ! index < 1 then Some ws
         else shrinkLargest target (w - 1) (ws[index := ws ! index - 1]))
      else Some ws)"
  by pat_completeness auto
termination by (relation "measure (\<lambda>(target, w, ws). nat (w - target))") auto

declare expandColumns.simps [simp del] shrinkDifferences.simps [simp del] shrinkLargest.simps [simp del]

definition resizeColumns :: "'s lipgloss \<Rightarrow> 's Table \<Rightarrow> Data \<Rightarrow> int list option" where
  "resizeColumns lib t d =
     (let w = computeWidth t; ws = t_widths t; idx = getExpandableColumns t in
      if w < t_width t \<and> t_width t > 0 then
        Some (if idx \<noteq> [] then expandColumns idx (t_width t) w 0 ws else ws)
      else if w > t_width t \<and> t_width t > 0 then
        (let differences = map (\<lambda>i. ws ! i - columnMedian lib t d i) [0..<length ws] in
         case shrinkDifferences (t_width t) differences w ws of
           None \<Rightarrow> None | Some (w', ws') \<Rightarrow> shrinkLargest (t_width t) w' ws')
      else Some ws)"

subsection \<open>Drawing\<close>

text \<open>\<open>strings.Repeat\<close>, which panics on a negative count; the widths that resizing leaves are shown not to be negative.\<close>

definition Repeat :: "string \<Rightarrow> int \<Rightarrow> string" where
  "Repeat s n = concat (replicate (nat n) s)"

definition ellipsis :: string where
  "ellipsis = [CHR 0xE2, CHR 0x80, CHR 0xA6]"

text \<open>The segments of a horizontal line: a line for each of \<open>n\<close> columns and a crossing between two of them.\<close>

definition borderSegments :: "'s lipgloss \<Rightarrow> 's Table \<Rightarrow> int \<Rightarrow> nat \<Rightarrow> BorderType \<Rightarrow> string \<Rightarrow> BorderType \<Rightarrow> string \<Rightarrow> string" where
  "borderSegments lib t row n lineType line crossType cross =
     concat (map (\<lambda>i.
         Render lib (getBorderStyle t row (int i) lineType) (Repeat line (t_widths t ! i)) @
         (if i < n - 1 \<and> t_borderColumn t then Render lib (getBorderStyle t row (int i) crossType) cross else []))
       [0..<n])"

definition borderEnd :: "'s lipgloss \<Rightarrow> 's Table \<Rightarrow> bool \<Rightarrow> int \<Rightarrow> int \<Rightarrow> BorderType \<Rightarrow> string \<Rightarrow> string" where
  "borderEnd lib t present row col b c = (if present then Render lib (getBorderStyle t row col b) c else [])"

definition constructTopBorder :: "'s lipgloss \<Rightarrow> 's Table \<Rightarrow> string" where
  "constructTopBorder lib t =
     borderEnd lib t (t_borderLeft t) 0 0 BorderTopLeft (TopLeft (t_border t)) @
     borderSegments lib t 0 (length (t_widths t)) BorderTop (Top (t_border t)) BorderMiddleTop (MiddleTop (t_border t)) @
     borderEnd lib t (t_borderRight t) 0 (int (length (t_widths t)) - 1) BorderTopRight (TopRight (t_border t))"

definition constructBottomBorder :: "'s lipgloss \<Rightarrow> 's Table \<Rightarrow> nat \<Rightarrow> string" where
  "constructBottomBorder lib t rows =
     borderEnd lib t (t_borderLeft t) (int rows) 0 BorderBottomLeft (BottomLeft (t_border t)) @
     borderSegments lib t (int rows) (length (t_widths t)) BorderBottom (Bottom (t_border t)) BorderMiddleBottom
       (MiddleBottom (t_border t)) @
     borderEnd lib t (t_borderRight t) (int rows) (int (length (t_widths t)) - 1) BorderBottomRight (BottomRight (t_border t))"

definition headerCells :: "'s lipgloss \<Rightarrow> 's Table \<Rightarrow> string" where
  "headerCells lib t =
     concat (map (\<lambda>(i, header).
         Render lib (StyleMaxWidth lib (t_widths t ! i) (StyleWidth lib (t_widths t ! i) (StyleMaxHeight lib 1 (style lib t 0 (int i)))))
           (Truncate lib header (t_widths t ! i) ellipsis) @
         (if i < length (t_headers t) - 1 \<and> t_borderColumn t
          then Render lib (getBorderStyle t 0 (int i + 1) BorderLeft) (Left (t_border t)) else []))
       (enumerate 0 (t_headers t)))"

definition constructHeaders :: "'s lipgloss \<Rightarrow> 's Table \<Rightarrow> string" where
  "constructHeaders lib t =
     (let last = int (length (t_headers t)) - 1; right = borderEnd lib t (t_borderRight t) 0 last BorderRight (Right (t_border t)) in
      borderEnd lib t (t_borderLeft t) 0 0 BorderLeft (Left (t_border t)) @ headerCells lib t @ right @
      (if t_borderHeader t then
         [CHR 0x0A] @ borderEnd lib t (t_borderLeft t) 0 0 BorderMiddleLeft (MiddleLeft (t_border t)) @
         borderSegments lib t 0 (length (t_headers t)) BorderBottom (Bottom (t_border t)) BorderMiddle (Middle (t_border t)) @
         borderEnd lib t (t_borderRight t) 0 last BorderMiddleRight (MiddleRight (t_border t))
       else []))"

text \<open>A vertical line of the height of a row, and the cells of the row, before trailing line ends are trimmed.\<close>

definition verticalLine :: "'s lipgloss \<Rightarrow> 's Table \<Rightarrow> int \<Rightarrow> int \<Rightarrow> int \<Rightarrow> BorderType \<Rightarrow> string \<Rightarrow> string" where
  "verticalLine lib t h row col b c = Repeat (Render lib (getBorderStyle t row col b) c @ [CHR 0x0A]) h"

definition rowHeight :: "'s Table \<Rightarrow> nat \<Rightarrow> int" where
  "rowHeight t index = t_heights t ! (index + (if t_headers t = [] then 0 else 1))"

definition rowCells :: "'s lipgloss \<Rightarrow> 's Table \<Rightarrow> Data \<Rightarrow> nat \<Rightarrow> string list" where
  "rowCells lib t d index =
     (let h = rowHeight t index; row = int index + 1 in
      (if t_borderLeft t then [verticalLine lib t h row 0 BorderLeft (Left (t_border t))] else []) @
      concat (map (\<lambda>c.
          Render lib (StyleMaxWidth lib (t_widths t ! c) (StyleWidth lib (t_widths t ! c)
              (StyleMaxHeight lib h (StyleHeight lib h (style lib t row (int c))))))
            (Truncate lib (At d index c) (t_widths t ! c * h) ellipsis) #
          (if c < Columns d - 1 \<and> t_borderColumn t then [verticalLine lib t h row (int c + 1) BorderLeft (Left (t_border t))] else []))
        [0..<Columns d]) @
      (if t_borderRight t then [verticalLine lib t h row (int (Columns d) - 1) BorderRight (Right (t_border t))] else []))"

text \<open>The line between two rows.\<close>

definition rowSeparator :: "'s lipgloss \<Rightarrow> 's Table \<Rightarrow> nat \<Rightarrow> string" where
  "rowSeparator lib t index =
     (let row = int index + 1 in
      Render lib (getBorderStyle t row 0 BorderMiddleLeft) (MiddleLeft (t_border t)) @
      borderSegments lib t row (length (t_widths t)) BorderBottom (Bottom (t_border t)) BorderMiddle (Middle (t_border t)) @
      Render lib (getBorderStyle t row (int (length (t_widths t)) - 1) BorderMiddleRight) (MiddleRight (t_border t)))"

definition constructRow :: "'s lipgloss \<Rightarrow> 's Table \<Rightarrow> Data \<Rightarrow> nat \<Rightarrow> string" where
  "constructRow lib t d index =
     JoinTop lib (map (\<lambda>cell. rev (dropWhile (\<lambda>x. x = CHR 0x0A) (rev cell))) (rowCells lib t d index)) @ [CHR 0x0A] @
     (if t_borderRow t \<and> index < Rows d - 1 then rowSeparator lib t index @ [CHR 0x0A] else [])"

definition drawTable :: "'s lipgloss \<Rightarrow> 's Table \<Rightarrow> Data \<Rightarrow> string" where
  "drawTable lib t d =
     (if t_borderTop t then constructTopBorder lib t @ [CHR 0x0A] else []) @
     (if t_headers t \<noteq> [] then constructHeaders lib t @ [CHR 0x0A] else []) @
     concat (map (constructRow lib t d) [t_offset t..<Rows d]) @
     (if t_borderBottom t then constructBottomBorder lib t (Rows d) else [])"

text \<open>\<open>String\<close>: the text, and the table with the widths and heights it has now.  Without headers nil data gives the empty
  text; with headers its methods are called, which panics.\<close>

definition String_table :: "'s lipgloss \<Rightarrow> 's Table \<Rightarrow> ('s Table \<times> string) option" where
  "String_table lib t =
     (case t_data t of
        None \<Rightarrow> if t_headers t = [] then Some (t, []) else None
      | Some v \<Rightarrow>
          let d = data_view v in
          if t_headers t = [] \<and> Rows d = 0 then Some (t, [])
          else let t1 = measureTable lib (t\<lparr>t_headers := padHeaders d (t_headers t)\<rparr>) d in
            case resizeColumns lib t1 d of None \<Rightarrow> None
            | Some ws \<Rightarrow>
                let t2 = t1\<lparr>t_widths := ws\<rparr> in
                Some (t2, Render lib (StyleMaxWidth lib (t_width t2) (StyleMaxHeight lib (computeHeight t2 (Rows d)) (NewStyle lib)))
                   (drawTable lib t2 d)))"

text \<open>\<open>GetTotalWidth\<close>, after a drawing.\<close>

definition GetTotalWidth :: "'s Table \<Rightarrow> int" where
  "GetTotalWidth t = computeWidth t"

end
