(* ===== verification/TableProps.thy ===== *)
theory TableProps
  imports Table
begin

text \<open>
  The table of hosts: both kinds of data show every cell, resizing reaches the wanted width exactly when this is
  possible and cuts no column below its median before it has to, and the lines that are drawn have the
  width that was computed.
\<close>

section \<open>Sums and the largest element\<close>

lemma table_max_eq [simp]: "table_max a b = max a b" and table_min_eq [simp]: "table_min a b = min a b"
  by (simp_all add: table_max_def table_min_def)

lemma table_sum_eq [simp]: "table_sum n = sum_list n"
proof -
  have "foldl (\<lambda>s i. s + i) a n = a + sum_list n" for a
    by (induction n arbitrary: a) simp_all
  then show ?thesis by (simp add: table_sum_def)
qed

lemma sum_list_upd: "i < length ws \<Longrightarrow> sum_list (ws[i := (x :: int)]) = sum_list ws - ws ! i + x"
  by (induction ws arbitrary: i) (auto split: nat.split)

lemma largest_bound:
  assumes "n \<noteq> []"
  shows "fst (largest n) < length n \<and> (\<forall>x\<in>set n. x \<le> n ! fst (largest n))"
proof -
  let ?f = "\<lambda>(index, l) (i, e). if n ! i > n ! index then (i, e) else (index, l :: int)"
  have "fst (foldl ?f (0, 0) (zip [0..<k] (take k n))) < length n \<and>
      (\<forall>x\<in>set (take k n). x \<le> n ! fst (foldl ?f (0, 0) (zip [0..<k] (take k n))))" if "k \<le> length n" for k
    using that
  proof (induction k)
    case (Suc k)
    then have "take (Suc k) n = take k n @ [n ! k]" by (simp add: take_Suc_conv_app_nth)
    moreover obtain index l where "foldl ?f (0, 0) (zip [0..<k] (take k n)) = (index, l)" by fastforce
    ultimately show ?case using Suc by fastforce
  qed (use assms in simp)
  from this [of "length n"] show ?thesis by (simp add: largest_def enumerate_eq_zip)
qed

section \<open>Resizing\<close>

lemma expandColumns_spec:
  assumes "idx \<noteq> []" "\<forall>j\<in>set idx. j < length ws" "i < length idx" "w \<le> target"
  shows "length (expandColumns idx target w i ws) = length ws \<and>
    sum_list (expandColumns idx target w i ws) = sum_list ws + (target - w) \<and>
    (\<forall>j<length ws. ws ! j \<le> expandColumns idx target w i ws ! j) \<and>
    (\<forall>j<length ws. j \<notin> set idx \<longrightarrow> expandColumns idx target w i ws ! j = ws ! j)"
  using assms
proof (induction idx target w i ws rule: expandColumns.induct)
  case (1 idx target w i ws)
  show ?case
  proof (cases "w < target")
    case True
    let ?ws = "ws[idx ! i := ws ! (idx ! i) + 1]"
    have i: "idx ! i < length ws" "idx ! i \<in> set idx" using 1 by auto
    have le: "ws ! j \<le> ?ws ! j" if "j < length ws" for j using that i(1) by (simp add: nth_list_update)
    have eq: "j \<notin> set idx \<Longrightarrow> ?ws ! j = ws ! j" for j using i(2) by (metis nth_list_update_neq)
    have "expandColumns idx target w i ws = expandColumns idx target (w + 1) ((i + 1) mod length idx) ?ws"
      using True by (subst expandColumns.simps) simp
    moreover define r where "r = expandColumns idx target (w + 1) ((i + 1) mod length idx) ?ws"
    moreover have "length r = length ws \<and> sum_list r = sum_list ?ws + (target - (w + 1)) \<and>
        (\<forall>j<length ws. ?ws ! j \<le> r ! j) \<and> (\<forall>j<length ws. j \<notin> set idx \<longrightarrow> r ! j = ?ws ! j)"
      unfolding r_def using "1.IH" [OF True] 1(2-4) True by simp
    moreover have "sum_list ?ws = sum_list ws + 1" using i(1) by (simp add: sum_list_upd)
    ultimately have r: "expandColumns idx target w i ws = r" "length r = length ws"
        "sum_list r = sum_list ws + (target - w)" "\<forall>j<length ws. ?ws ! j \<le> r ! j"
        "\<forall>j<length ws. j \<notin> set idx \<longrightarrow> r ! j = ?ws ! j" by simp_all
    from r(4) le have "\<forall>j<length ws. ws ! j \<le> r ! j" by (blast intro: order_trans)
    then show ?thesis using r eq by simp
  next
    case False
    then show ?thesis using 1 by (subst (1 2 3 4) expandColumns.simps) simp
  qed
qed

text \<open>What the first pass keeps: \<open>lo\<close> is the smaller one of the original width and the median of a column.\<close>

definition pass_inv :: "int \<Rightarrow> int list \<Rightarrow> int list \<Rightarrow> int \<Rightarrow> int list \<Rightarrow> bool" where
  "pass_inv target lo differences w ws \<longleftrightarrow>
     length differences = length ws \<and> length lo = length ws \<and> target \<le> w \<and>
     (\<forall>i<length ws. lo ! i \<le> ws ! i \<and> (0 < differences ! i \<longrightarrow> differences ! i = ws ! i - lo ! i) \<and>
        (differences ! i \<le> 0 \<longrightarrow> ws ! i = lo ! i \<or> w = target))"

lemma pass_inv_step:
  assumes "pass_inv target lo differences w ws" "i < length ws" "0 < differences ! i" "target < w"
  shows "pass_inv target lo (differences[i := 0]) (w - min (differences ! i) (w - target))
    (ws[i := ws ! i - min (differences ! i) (w - target)])"
  using assms unfolding pass_inv_def by (auto simp: nth_list_update min_def)

lemma shrinkDifferences_spec:
  assumes "pass_inv target lo differences w ws" "ws \<noteq> []"
  shows "\<exists>w' ws'. shrinkDifferences target differences w ws = Some (w', ws') \<and> length ws' = length ws \<and>
    sum_list ws' - w' = sum_list ws - w \<and> target \<le> w' \<and> (\<forall>i<length ws. lo ! i \<le> ws' ! i) \<and> (w' = target \<or> ws' = lo)"
  using assms
proof (induction target differences w ws rule: shrinkDifferences.induct)
  case (1 target differences w ws)
  let ?i = "fst (largest differences)"
  have d: "length differences = length ws" "length lo = length ws" "differences \<noteq> []"
    using 1(2,3) by (auto simp: pass_inv_def)
  have i: "?i < length ws" "\<forall>x\<in>set differences. x \<le> differences ! ?i" using largest_bound [OF d(3)] d by auto
  show ?case
  proof (cases "w > target")
    case w: True
    show ?thesis
    proof (cases "differences ! ?i < 1")
      case True
      then have "differences ! k \<le> 0" if "k < length ws" for k
        using i(2) d(1) nth_mem [of k differences] that by fastforce
      then have "ws = lo" using 1(2) w d unfolding pass_inv_def by (auto intro!: nth_equalityI)
      then show ?thesis using w d(3) True 1(2) by (subst shrinkDifferences.simps) (auto simp: Let_def pass_inv_def)
    next
      case False
      let ?s = "min (differences ! ?i) (w - target)"
      have "pass_inv target lo (differences[?i := 0]) (w - ?s) (ws[?i := ws ! ?i - ?s])"
        using pass_inv_step [OF 1(2) i(1) _ w] False by simp
      then obtain w' ws' where
        "shrinkDifferences target (differences[?i := 0]) (w - ?s) (ws[?i := ws ! ?i - ?s]) = Some (w', ws')"
        "length ws' = length ws" "sum_list ws' - w' = sum_list ws - w" "target \<le> w'"
        "\<forall>k<length ws. lo ! k \<le> ws' ! k" "w' = target \<or> ws' = lo"
        using "1.IH" [OF w refl refl d(3) False] 1(3) i(1) by (auto simp: sum_list_upd)
      then show ?thesis using False w d(3) by (subst shrinkDifferences.simps) (simp add: Let_def)
    qed
  next
    case False
    then show ?thesis using 1(2) by (subst shrinkDifferences.simps) (auto simp: pass_inv_def)
  qed
qed

lemma shrinkLargest_spec:
  assumes "target \<le> w" "ws \<noteq> []" "\<forall>i<length ws. 0 \<le> ws ! i"
  shows "\<exists>ws'. shrinkLargest target w ws = Some ws' \<and> length ws' = length ws \<and> (\<forall>i<length ws. 0 \<le> ws' ! i) \<and>
    (sum_list ws' = sum_list ws - (w - target) \<or> (\<forall>i<length ws. ws' ! i = 0) \<and> sum_list ws - (w - target) < 0)"
  using assms
proof (induction target w ws rule: shrinkLargest.induct)
  case (1 target w ws)
  let ?i = "fst (largest ws)"
  have i: "?i < length ws" "\<forall>x\<in>set ws. x \<le> ws ! ?i" using largest_bound [OF 1(3)] by auto
  show ?case
  proof (cases "w > target")
    case w: True
    show ?thesis
    proof (cases "ws ! ?i < 1")
      case True
      then have zero: "ws ! k = 0" if "k < length ws" for k
        using i(2) 1(4) nth_mem [of k ws] that by fastforce
      then have "sum_list ws = 0" by (simp add: sum_list_sum_nth)
      then show ?thesis using w 1(3) True zero by (subst shrinkLargest.simps) (auto simp: Let_def)
    next
      case False
      let ?ws = "ws[?i := ws ! ?i - 1]"
      have "\<forall>k<length ?ws. 0 \<le> ?ws ! k" using 1(4) False i(1) by (simp add: nth_list_update)
      moreover have "sum_list ?ws = sum_list ws - 1" using i(1) by (simp add: sum_list_upd)
      moreover have "?ws \<noteq> []" "target \<le> w - 1" using 1(3) w by simp_all
      ultimately have "\<exists>ws'. shrinkLargest target (w - 1) ?ws = Some ws' \<and> length ws' = length ws \<and>
          (\<forall>i<length ws. 0 \<le> ws' ! i) \<and> (sum_list ws' = sum_list ws - 1 - (w - 1 - target) \<or>
            (\<forall>i<length ws. ws' ! i = 0) \<and> sum_list ws - 1 - (w - 1 - target) < 0)"
        using "1.IH" [OF w refl 1(3) False] by simp
      moreover have "sum_list ws - 1 - (w - 1 - target) = sum_list ws - (w - target)" by simp
      ultimately show ?thesis unfolding \<open>sum_list ws - 1 - (w - 1 - target) = _\<close> using w 1(3) False by (subst shrinkLargest.simps) (simp add: Let_def)
    qed
  next
    case False
    then show ?thesis using 1(2,4) by (subst shrinkLargest.simps) auto
  qed
qed

lemma foldl_inv: "P a \<Longrightarrow> (\<And>a x. x \<in> set xs \<Longrightarrow> P a \<Longrightarrow> P (f a x)) \<Longrightarrow> P (foldl f a xs)"
  by (induction xs arbitrary: a) auto

definition measured :: "'s lipgloss \<Rightarrow> 's Table \<Rightarrow> Data \<Rightarrow> 's Table" where
  "measured lib t d = measureTable lib (t\<lparr>t_headers := padHeaders d (t_headers t)\<rparr>) d"

definition sized :: "nat \<Rightarrow> nat \<Rightarrow> int list \<times> int list \<Rightarrow> bool" where
  "sized n m whs \<longleftrightarrow> length (fst whs) = n \<and> length (snd whs) = m \<and>
     (\<forall>i<n. 0 \<le> fst whs ! i) \<and> (\<forall>i<m. 0 \<le> snd whs ! i)"

lemma nth_bump: "k < length xs \<Longrightarrow> bump i n xs ! k = (if i = k then max (xs ! k) n else xs ! k)"
  by (simp add: bump_def nth_list_update)

lemma length_bump [simp]: "length (bump i n xs) = length xs"
  by (simp add: bump_def)

lemma sized_bump: "sized n m (ws, hs) \<Longrightarrow> sized n m (bump i (int a) ws, bump j (int b) hs)"
  by (auto simp: sized_def nth_bump)

lemma sized_headers: "sized n m whs \<Longrightarrow> sized n m (measureHeaders lib t whs)"
  unfolding measureHeaders_def by (rule foldl_inv) (auto simp: Let_def sized_bump split: prod.splits)

lemma sized_row: "sized n m whs \<Longrightarrow> sized n m (measureRow lib t d r whs)"
  unfolding measureRow_def by (rule foldl_inv) (auto simp: Let_def sized_bump split: prod.splits)

lemma measureTable_sized:
  "sized (max (length (t_headers t)) (Columns d)) ((if t_headers t = [] then 0 else 1) + Rows d)
     (t_widths (measureTable lib t d), t_heights (measureTable lib t d))"
proof -
  let ?n = "max (length (t_headers t)) (Columns d)" and ?m = "(if t_headers t = [] then 0 else 1) + Rows d"
  define whs where "whs = foldl (\<lambda>whs r. measureRow lib t d r whs)
      (measureHeaders lib t (replicate ?n 0, replicate ?m 0)) [0..<Rows d]"
  have "sized ?n ?m (replicate ?n 0, replicate ?m 0)" by (auto simp: sized_def)
  then have "sized ?n ?m whs" unfolding whs_def by (intro foldl_inv [where P = "sized ?n ?m"] sized_headers sized_row)
  moreover have "(t_widths (measureTable lib t d), t_heights (measureTable lib t d)) = whs"
    by (simp add: measureTable_def whs_def Let_def split: prod.splits)
  ultimately show ?thesis by simp
qed

lemma measureTable_fields:
  "\<exists>ws hs. measureTable lib t d = t\<lparr>t_widths := ws, t_heights := hs\<rparr>"
  by (simp add: measureTable_def Let_def split: prod.splits) blast

lemma median_nonneg:
  assumes "\<forall>x\<in>set n. 0 \<le> x"
  shows "0 \<le> median n"
proof -
  let ?s = "sort n"
  have nn: "0 \<le> ?s ! k" if "k < length ?s" for k using assms that nth_mem [of k ?s] by fastforce
  show ?thesis
  proof (cases "n = []")
    case False
    then have h: "length ?s div 2 < length ?s" "length ?s div 2 - 1 < length ?s" by (auto intro: less_imp_diff_less)
    then show ?thesis using nn [OF h(1)] nn [OF h(2)]
      by (auto simp: median_def Let_def signed_divide_int_def sgn_if)
  qed (simp add: median_def)
qed

lemma columnMedian_nonneg: "0 \<le> columnMedian lib t d c"
  unfolding columnMedian_def by (rule median_nonneg) (auto simp: Let_def)

text \<open>The width to which the first pass may cut each column, and the part of the width that is border.\<close>

definition medianWidths :: "'s lipgloss \<Rightarrow> 's Table \<Rightarrow> Data \<Rightarrow> int list" where
  "medianWidths lib t d = map (\<lambda>i. min (t_widths t ! i) (columnMedian lib t d i)) [0..<length (t_widths t)]"

definition borderWidth :: "'s Table \<Rightarrow> int" where
  "borderWidth t = btoi (t_borderLeft t) + btoi (t_borderRight t) +
     (if t_borderColumn t then int (length (t_widths t)) - 1 else 0)"

lemma computeWidth_split: "computeWidth t = sum_list (t_widths t) + borderWidth t"
  by (simp add: computeWidth_def borderWidth_def)

lemma resizeColumns_spec:
  assumes "\<forall>i<length (t_widths t). 0 \<le> t_widths t ! i" "t_widths t \<noteq> []" "0 < t_width t"
  shows "\<exists>ws. resizeColumns lib t d = Some ws \<and> length ws = length (t_widths t) \<and> (\<forall>i<length ws. 0 \<le> ws ! i) \<and>
    (if computeWidth t < t_width t \<and> getExpandableColumns t = [] then ws = t_widths t
     else sum_list ws + borderWidth t = t_width t \<or> t_width t < borderWidth t \<and> (\<forall>i<length ws. ws ! i = 0)) \<and>
    (t_width t < computeWidth t \<and> sum_list (medianWidths lib t d) + borderWidth t \<le> t_width t \<longrightarrow>
       (\<forall>i<length ws. medianWidths lib t d ! i \<le> ws ! i))"
proof (cases "computeWidth t" "t_width t" rule: linorder_cases)
  case less
  have "\<forall>j\<in>set (getExpandableColumns t). j < length (t_widths t)" by (auto simp: getExpandableColumns_def)
  then show ?thesis
    using less assms expandColumns_spec [of "getExpandableColumns t" "t_widths t" 0 "computeWidth t" "t_width t"]
    by (force simp: resizeColumns_def Let_def computeWidth_split intro: order_trans)
next
  case equal
  then show ?thesis using assms by (simp add: resizeColumns_def computeWidth_split)
next
  case greater
  let ?ws = "t_widths t" and ?lo = "medianWidths lib t d"
  let ?d = "map (\<lambda>i. ?ws ! i - columnMedian lib t d i) [0..<length ?ws]"
  have "pass_inv (t_width t) ?lo ?d (computeWidth t) ?ws"
    using greater by (auto simp: pass_inv_def medianWidths_def)
  from shrinkDifferences_spec [OF this assms(2)] obtain w' ws' where
    one: "shrinkDifferences (t_width t) ?d (computeWidth t) ?ws = Some (w', ws')" "length ws' = length ?ws"
      "sum_list ws' - w' = sum_list ?ws - computeWidth t" "t_width t \<le> w'"
      "\<forall>i<length ?ws. ?lo ! i \<le> ws' ! i" "w' = t_width t \<or> ws' = ?lo" by blast
  have "\<forall>i<length ws'. 0 \<le> ?lo ! i"
    using assms(1) one(2) columnMedian_nonneg [of lib t d] by (simp add: medianWidths_def)
  then have "\<forall>i<length ws'. 0 \<le> ws' ! i" using one(2,5) by force
  then obtain ws where
    two: "shrinkLargest (t_width t) w' ws' = Some ws" "length ws = length ws'" "\<forall>i<length ws'. 0 \<le> ws ! i"
      "sum_list ws = sum_list ws' - (w' - t_width t) \<or> (\<forall>i<length ws'. ws ! i = 0) \<and> sum_list ws' - (w' - t_width t) < 0"
    using shrinkLargest_spec [of "t_width t" w' ws'] one(2,4) assms(2) by force
  have "ws = ws'" if "sum_list ?lo + borderWidth t \<le> t_width t"
  proof -
    have "w' = t_width t" using one(3,4,6) that by (auto simp: computeWidth_split)
    then show ?thesis using two(1) by (subst (asm) shrinkLargest.simps) simp
  qed
  moreover have "resizeColumns lib t d = Some ws"
    using greater assms(3) one(1) two(1) by (simp add: resizeColumns_def Let_def)
  ultimately show ?thesis
    using one two greater by (auto simp: computeWidth_split)
qed

text \<open>Tables that have something to draw.\<close>

definition drawable :: "'s Table \<Rightarrow> data_value \<Rightarrow> bool" where
  "drawable t v \<longleftrightarrow> t_data t = Some v \<and> 0 < t_width t \<and>
     (t_headers t \<noteq> [] \<or> 0 < Rows (data_view v) \<and> 0 < Columns (data_view v))"

lemma measured_fields: "t_width (measured lib t d) = t_width t" "t_fixedColumns (measured lib t d) = t_fixedColumns t"
  using measureTable_fields [of lib "t\<lparr>t_headers := padHeaders d (t_headers t)\<rparr>" d] by (auto simp: measured_def)

lemma measured_widths:
  assumes "drawable t v"
  shows "\<forall>i<length (t_widths (measured lib t (data_view v))). 0 \<le> t_widths (measured lib t (data_view v)) ! i"
    "t_widths (measured lib t (data_view v)) \<noteq> []"
proof -
  let ?t = "t\<lparr>t_headers := padHeaders (data_view v) (t_headers t)\<rparr>"
  have "0 < max (length (t_headers ?t)) (Columns (data_view v))" using assms by (auto simp: drawable_def padHeaders_def)
  then show "\<forall>i<length (t_widths (measured lib t (data_view v))). 0 \<le> t_widths (measured lib t (data_view v)) ! i"
    "t_widths (measured lib t (data_view v)) \<noteq> []"
    using measureTable_sized [of ?t "data_view v" lib] by (auto simp: sized_def measured_def)
qed

lemma String_table_resized:
  assumes "drawable t v" "resizeColumns lib (measured lib t (data_view v)) (data_view v) = Some ws"
  shows "\<exists>s. String_table lib t = Some (measured lib t (data_view v)\<lparr>t_widths := ws\<rparr>, s)"
  using assms by (auto simp: String_table_def Let_def measured_def drawable_def)

lemma widths_update:
  assumes "length ws = length (t_widths t)"
  shows "borderWidth (t\<lparr>t_widths := ws\<rparr>) = borderWidth t"
    "getExpandableColumns (t\<lparr>t_widths := ws\<rparr>) = getExpandableColumns t"
    "GetTotalWidth (t\<lparr>t_widths := ws\<rparr>) = sum_list ws + borderWidth t"
  using assms by (simp_all add: borderWidth_def getExpandableColumns_def GetTotalWidth_def computeWidth_def)

text \<open>C30: a table with a wanted width is drawn without a panic whenever it has data and at least one column, and then it has
  exactly this width, except that a narrower table without expandable columns stays as it is, and a table whose
  borders alone are wider has no room for any text.  No column gets a negative width.\<close>

theorem table_exact_width:
  assumes "drawable t v"
  shows "\<exists>t' s. String_table lib t = Some (t', s) \<and> (\<forall>w\<in>set (t_widths t'). 0 \<le> w) \<and>
    (GetTotalWidth t' = t_width t \<or>
     GetTotalWidth t' < t_width t \<and> getExpandableColumns t' = [] \<and> t_widths t' = t_widths (measured lib t (data_view v)) \<or>
     t_width t < GetTotalWidth t' \<and> (\<forall>w\<in>set (t_widths t'). w = 0))"
proof -
  let ?d = "data_view v"
  define t1 where "t1 = measured lib t ?d"
  have width: "t_width t1 = t_width t" "0 < t_width t1" using assms by (simp_all add: t1_def measured_fields drawable_def)
  obtain ws where ws: "resizeColumns lib t1 ?d = Some ws" "length ws = length (t_widths t1)" "\<forall>i<length ws. 0 \<le> ws ! i"
    "if computeWidth t1 < t_width t1 \<and> getExpandableColumns t1 = [] then ws = t_widths t1
     else sum_list ws + borderWidth t1 = t_width t1 \<or> t_width t1 < borderWidth t1 \<and> (\<forall>i<length ws. ws ! i = 0)"
    using resizeColumns_spec [of t1 lib ?d] measured_widths [OF assms, of lib] width(2) unfolding t1_def by blast
  have zero: "sum_list ws = 0" if "\<forall>i<length ws. ws ! i = 0" using that by (simp add: sum_list_sum_nth)
  obtain s where "String_table lib t = Some (t1\<lparr>t_widths := ws\<rparr>, s)"
    using String_table_resized [OF assms] ws(1) by (auto simp: t1_def)
  moreover have "\<forall>w\<in>set ws. 0 \<le> w" using ws(3) by (auto simp: in_set_conv_nth)
  ultimately show ?thesis
    using ws(4) zero width widths_update [OF ws(2)] computeWidth_split [of t1]
    by (auto simp: t1_def [symmetric] in_set_conv_nth split: if_splits)
qed

text \<open>When a table is too wide, and the borders and the median widths of the columns (or their full widths, where
  these are smaller) fit into the wanted width, no column is cut below that, and the table gets exactly the wanted width.\<close>

theorem table_shrink_medians:
  assumes "drawable t v" "t_width t < computeWidth (measured lib t (data_view v))"
    "sum_list (medianWidths lib (measured lib t (data_view v)) (data_view v)) + borderWidth (measured lib t (data_view v)) \<le> t_width t"
  shows "\<exists>t' s. String_table lib t = Some (t', s) \<and> GetTotalWidth t' = t_width t \<and>
    list_all2 (\<le>) (medianWidths lib (measured lib t (data_view v)) (data_view v)) (t_widths t')"
proof -
  let ?d = "data_view v"
  define t1 where "t1 = measured lib t ?d"
  have width: "t_width t1 = t_width t" "0 < t_width t1" using assms by (simp_all add: t1_def measured_fields drawable_def)
  have nn: "\<forall>i<length (t_widths t1). 0 \<le> t_widths t1 ! i" using measured_widths(1) [OF assms(1), of lib] by (simp add: t1_def)
  obtain ws where ws: "resizeColumns lib t1 ?d = Some ws" "length ws = length (t_widths t1)"
    "sum_list ws + borderWidth t1 = t_width t1 \<or> t_width t1 < borderWidth t1"
    "\<forall>i<length ws. medianWidths lib t1 ?d ! i \<le> ws ! i"
    using resizeColumns_spec [of t1 lib ?d] measured_widths [OF assms(1), of lib] width assms(2,3) unfolding t1_def
    by (auto split: if_splits)
  have "0 \<le> sum_list (medianWidths lib t1 ?d)"
    using nn columnMedian_nonneg [of lib t1 ?d] by (intro sum_list_nonneg) (auto simp: medianWidths_def)
  then have "sum_list ws + borderWidth t1 = t_width t1" using ws(3) assms(3) width by (auto simp: t1_def)
  moreover obtain s where "String_table lib t = Some (t1\<lparr>t_widths := ws\<rparr>, s)"
    using String_table_resized [OF assms(1)] ws(1) by (auto simp: t1_def)
  ultimately show ?thesis
    using ws(2,4) width widths_update [OF ws(2)] by (auto simp: t1_def [symmetric] list_all2_conv_all_nth medianWidths_def)
qed

section \<open>Data\<close>

text \<open>What a table relies on: the data is a grid of cells, cells outside it are empty, and no row has more cells than there
  are columns.  Then the loops over rows and columns show every cell, each row padded with empty ones.\<close>

locale table_data =
  fixes view :: "'d \<Rightarrow> Data" and grid :: "'d \<Rightarrow> string list list" and ok :: "'d \<Rightarrow> bool"
  assumes rows: "ok d \<Longrightarrow> Rows (view d) = length (grid d)"
    and at: "ok d \<Longrightarrow> At (view d) r c = (if r < length (grid d) \<and> c < length (grid d ! r) then grid d ! r ! c else [])"
    and columns: "ok d \<Longrightarrow> r < length (grid d) \<Longrightarrow> length (grid d ! r) \<le> Columns (view d)"
begin

definition shown :: "'d \<Rightarrow> string list list" where
  "shown d = map (\<lambda>r. map (At (view d) r) [0..<Columns (view d)]) [0..<Rows (view d)]"

lemma shown_padded:
  assumes "ok d"
  shows "shown d = map (\<lambda>row. row @ replicate (Columns (view d) - length row) []) (grid d)"
proof (rule nth_equalityI)
  show "length (shown d) = length (map (\<lambda>row. row @ replicate (Columns (view d) - length row) []) (grid d))"
    using rows [OF assms] by (simp add: shown_def)
  fix r assume "r < length (shown d)"
  then have r: "r < length (grid d)" using rows [OF assms] by (simp add: shown_def)
  show "shown d ! r = map (\<lambda>row. row @ replicate (Columns (view d) - length row) []) (grid d) ! r"
    using r rows [OF assms] at [OF assms] columns [OF assms r]
    by (auto simp: shown_def nth_append intro!: nth_equalityI)
qed

lemma outside_empty: "ok d \<Longrightarrow> Columns (view d) \<le> c \<Longrightarrow> At (view d) r c = []"
  using at [of d r c] columns [of d r] by auto

end

definition sd_ok :: "StringData \<Rightarrow> bool" where
  "sd_ok m \<longleftrightarrow> (\<forall>row\<in>set (sd_rows m). length row \<le> sd_columns m)"

interpretation string_data: table_data StringData_view sd_rows sd_ok
  by unfold_locales
    (auto simp: StringData_view_def StringData_Rows_def StringData_At_def StringData_Columns_def sd_ok_def)

text \<open>The rows that a filter keeps, and the condition that the data under it has no cells outside its columns.\<close>

definition keptRows :: "Filter \<Rightarrow> nat list" where
  "keptRows m = filter (flt_filter m) [0..<Rows (flt_data m)]"

definition flt_grid :: "Filter \<Rightarrow> string list list" where
  "flt_grid m = map (\<lambda>i. map (At (flt_data m) i) [0..<Columns (flt_data m)]) (keptRows m)"

definition flt_ok :: "Filter \<Rightarrow> bool" where
  "flt_ok m \<longleftrightarrow> (\<forall>i c. Columns (flt_data m) \<le> c \<longrightarrow> At (flt_data m) i c = [])"

lemma filterAt_nth:
  "j \<le> row \<Longrightarrow> filterAt m row cell j is =
     (let ks = filter (flt_filter m) is in if row - j < length ks then At (flt_data m) (ks ! (row - j)) cell else [])"
proof (induction m row cell j "is" rule: filterAt.induct)
  case (2 m row cell j i "is")
  then show ?case by (cases "j = row") (auto simp: Let_def Suc_diff_Suc [symmetric])
qed (simp add: Let_def)

lemma Filter_Rows_kept: "Filter_Rows m = length (keptRows m)"
proof -
  have "foldl (\<lambda>j i. if f i then j + 1 else j) (j :: nat) is = j + length (filter f is)" for f j and "is" :: "nat list"
    by (induction "is" arbitrary: j) auto
  then show ?thesis by (simp add: Filter_Rows_def keptRows_def)
qed

interpretation filter_data: table_data Filter_view flt_grid flt_ok
proof
  fix m :: Filter and r c :: nat
  assume ok: "flt_ok m"
  show "Rows (Filter_view m) = length (flt_grid m)" by (simp add: Filter_view_def Filter_Rows_kept flt_grid_def)
  show "At (Filter_view m) r c = (if r < length (flt_grid m) \<and> c < length (flt_grid m ! r) then flt_grid m ! r ! c else [])"
    using ok filterAt_nth [of 0 r m c "[0..<Rows (flt_data m)]"]
    by (auto simp: Filter_view_def Filter_At_def flt_grid_def flt_ok_def keptRows_def Let_def)
  show "length (flt_grid m ! r) \<le> Columns (Filter_view m)" if "r < length (flt_grid m)"
    using that by (simp add: flt_grid_def Filter_view_def Filter_Columns_def)
qed

lemma NewStringData_ok: "sd_ok (NewStringData rows) \<and> sd_rows (NewStringData rows) = rows"
proof (induction rows rule: rev_induct)
  case (snoc row rows)
  have "NewStringData (rows @ [row]) = StringData_Append row (NewStringData rows)"
    by (simp add: NewStringData_def StringData_Append_def)
  then show ?case using snoc by (fastforce simp: StringData_Append_def sd_ok_def)
qed (simp add: NewStringData_def sd_ok_def)

definition filtered :: "string list list \<Rightarrow> (nat \<Rightarrow> bool) \<Rightarrow> Filter" where
  "filtered rows f = \<lparr>flt_data = StringData_view (NewStringData rows), flt_filter = f\<rparr>"

text \<open>Rows that were put into the data are shown complete and in order, shorter ones padded with empty cells, and through a
  filter exactly the rows that it keeps are shown.\<close>

theorem filtered_rows_shown:
  "map (\<lambda>r. map (Filter_At (filtered rows f) r) [0..<Filter_Columns (filtered rows f)]) [0..<Filter_Rows (filtered rows f)] =
    map (\<lambda>i. rows ! i @ replicate (sd_columns (NewStringData rows) - length (rows ! i)) []) (filter f [0..<length rows])"
proof -
  define m where "m = NewStringData rows"
  define flt where "flt = filtered rows f"
  note flt_def = flt_def [unfolded filtered_def, folded m_def]
  have m: "sd_ok m" "sd_rows m = rows" using NewStringData_ok by (simp_all add: m_def)
  have shown: "map (StringData_At m i) [0..<sd_columns m] = rows ! i @ replicate (sd_columns m - length (rows ! i)) []"
    if "i < length rows" for i
    using arg_cong [OF string_data.shown_padded [OF m(1)], of "\<lambda>xs. xs ! i"] that m(2)
    by (simp add: string_data.shown_def StringData_view_def StringData_Rows_def StringData_Columns_def)
  have "flt_ok flt" using string_data.outside_empty [OF m(1)] by (simp add: flt_ok_def flt_def)
  from filter_data.shown_padded [OF this]
  have "map (\<lambda>r. map (Filter_At flt r) [0..<Filter_Columns flt]) [0..<Filter_Rows flt] =
      map (\<lambda>row. row @ replicate (Filter_Columns flt - length row) []) (flt_grid flt)"
    by (simp add: filter_data.shown_def Filter_view_def)
  also have "\<dots> = flt_grid flt" by (simp add: flt_grid_def flt_def Filter_Columns_def comp_def)
  also have "\<dots> = map (\<lambda>i. map (StringData_At m i) [0..<sd_columns m]) (filter f [0..<length rows])"
    by (simp add: flt_grid_def keptRows_def flt_def StringData_view_def StringData_Columns_def StringData_Rows_def m(2))
  also have "\<dots> = map (\<lambda>i. rows ! i @ replicate (sd_columns m - length (rows ! i)) []) (filter f [0..<length rows])"
    using shown by simp
  finally show ?thesis by (simp only: flt_def m_def filtered_def)
qed

section \<open>Lines\<close>

text \<open>What the drawing of lines relies on: the border of the table is one cell wide, its styles have no padding, and the width of
  a line is the sum of the widths of its parts.\<close>

definition borderChars :: "Border \<Rightarrow> string list" where
  "borderChars b = [Top b, Bottom b, Left b, Right b, TopLeft b, TopRight b, BottomLeft b, BottomRight b, MiddleLeft b,
     MiddleRight b, Middle b, MiddleTop b, MiddleBottom b]"

definition thin_border :: "'s lipgloss \<Rightarrow> 's Table \<Rightarrow> bool" where
  "thin_border lib t \<longleftrightarrow>
     (\<forall>row col b c n. c \<in> set (borderChars (t_border t)) \<longrightarrow>
        Width lib (Render lib (getBorderStyle t row col b) (Repeat c n)) = nat n)"

definition adds_widths :: "'s lipgloss \<Rightarrow> 's Table \<Rightarrow> bool" where
  "adds_widths lib t \<longleftrightarrow>
     (\<forall>ps. (\<forall>p\<in>set ps. \<exists>row col b c n. c \<in> set (borderChars (t_border t)) \<and>
          p = Render lib (getBorderStyle t row col b) (Repeat c n)) \<longrightarrow>
        Width lib (concat ps) = sum_list (map (Width lib) ps))"

text \<open>The parts of a line.\<close>

definition borderPart :: "'s lipgloss \<Rightarrow> 's Table \<Rightarrow> string \<Rightarrow> nat \<Rightarrow> bool" where
  "borderPart lib t p n \<longleftrightarrow> (\<exists>row col b c. c \<in> set (borderChars (t_border t)) \<and>
     p = Render lib (getBorderStyle t row col b) (Repeat c (int n)))"

definition line_of :: "'s lipgloss \<Rightarrow> 's Table \<Rightarrow> string \<Rightarrow> nat \<Rightarrow> bool" where
  "line_of lib t s n \<longleftrightarrow> (\<exists>ps ns. s = concat ps \<and> list_all2 (borderPart lib t) ps ns \<and> n = sum_list ns)"

lemma line_width:
  assumes "thin_border lib t" "adds_widths lib t" "line_of lib t s n"
  shows "Width lib s = n"
proof -
  obtain ps ns where ps: "s = concat ps" "list_all2 (borderPart lib t) ps ns" "n = sum_list ns"
    using assms(3) by (auto simp: line_of_def)
  have w: "Width lib p = n" if "borderPart lib t p n" for p n using that assms(1) by (force simp: borderPart_def thin_border_def)
  from ps(2) have "map (Width lib) ps = ns" by (induction rule: list_all2_induct) (auto simp: w)
  moreover have "\<forall>p\<in>set ps. \<exists>n. borderPart lib t p n" using ps(2) by (induction rule: list_all2_induct) auto
  then have "Width lib (concat ps) = sum_list (map (Width lib) ps)"
    using assms(2) unfolding adds_widths_def borderPart_def by blast
  ultimately show ?thesis using ps by simp
qed

lemma line_Nil: "line_of lib t [] 0"
  unfolding line_of_def by (intro exI [of _ "[]"]) simp

lemma line_append: "line_of lib t s n \<Longrightarrow> line_of lib t s' n' \<Longrightarrow> line_of lib t (s @ s') (n + n')"
  unfolding line_of_def by (metis concat_append list_all2_appendI sum_list_append)

lemma line_part:
  assumes "c \<in> set (borderChars (t_border t))"
  shows "line_of lib t (Render lib (getBorderStyle t row col b) (Repeat c n)) (nat n)"
proof -
  have "borderPart lib t (Render lib (getBorderStyle t row col b) (Repeat c n)) (nat n)"
    using assms unfolding borderPart_def by (intro exI [of _ row] exI [of _ col] exI [of _ b] exI [of _ c]) (simp add: Repeat_def)
  then show ?thesis unfolding line_of_def
    by (intro exI [of _ "[Render lib (getBorderStyle t row col b) (Repeat c n)]"] exI [of _ "[nat n]"]) simp
qed

lemma Repeat_1: "Repeat c 1 = c"
  by (simp add: Repeat_def)

lemma line_char:
  assumes "c \<in> set (borderChars (t_border t))"
  shows "line_of lib t (Render lib (getBorderStyle t row col b) c) 1"
  using line_part [OF assms, of lib row col b 1] by (simp add: Repeat_1)

lemma line_borderEnd:
  assumes "c \<in> set (borderChars (t_border t))"
  shows "line_of lib t (borderEnd lib t present row col b c) (nat (btoi present))"
  using line_char [OF assms] line_Nil by (auto simp: borderEnd_def btoi_def)

lemma line_segments:
  assumes "line \<in> set (borderChars (t_border t))" "cross \<in> set (borderChars (t_border t))"
  shows "line_of lib t (borderSegments lib t row n lineType line crossType cross)
    (sum_list (map (\<lambda>i. nat (t_widths t ! i)) [0..<n]) + (if t_borderColumn t then n - 1 else 0))"
proof -
  let ?f = "\<lambda>n i. Render lib (getBorderStyle t row (int i) lineType) (Repeat line (t_widths t ! i)) @
      (if i < n - 1 \<and> t_borderColumn t then Render lib (getBorderStyle t row (int i) crossType) cross else [])"
  have "line_of lib t (concat (map (?f n) [0..<k]))
      (sum_list (map (\<lambda>i. nat (t_widths t ! i)) [0..<k]) + (if t_borderColumn t then min k (n - 1) else 0))" if "k \<le> n" for k
    using that
  proof (induction k)
    case (Suc k)
    have "line_of lib t (?f n k) (nat (t_widths t ! k) + (if k < n - 1 \<and> t_borderColumn t then 1 else 0))"
      using line_append [OF line_part [OF assms(1)] line_char [OF assms(2)]] line_part [OF assms(1)] by auto
    from line_append [OF Suc.IH this] Suc.prems show ?case by (simp add: min_def add_ac split: if_splits)
  qed (simp add: line_Nil)
  from this [OF order.refl] show ?thesis unfolding borderSegments_def min_absorb2 [OF diff_le_self] .
qed

lemma drawn_nonneg:
  assumes "drawable t v" "String_table lib t = Some (t', s)"
  shows "\<forall>i<length (t_widths t'). 0 \<le> t_widths t' ! i" "t_widths t' \<noteq> []"
proof -
  let ?t = "measured lib t (data_view v)"
  have "0 < t_width ?t" using assms(1) by (simp add: measured_fields drawable_def)
  then obtain ws where "resizeColumns lib ?t (data_view v) = Some ws" "length ws = length (t_widths ?t)" "\<forall>i<length ws. 0 \<le> ws ! i"
    using resizeColumns_spec [of ?t lib "data_view v"] measured_widths [OF assms(1), of lib] by blast
  moreover from this String_table_resized [OF assms(1)] assms(2) have "t' = ?t\<lparr>t_widths := ws\<rparr>" by fastforce
  ultimately show "\<forall>i<length (t_widths t'). 0 \<le> t_widths t' ! i" "t_widths t' \<noteq> []"
    using measured_widths(2) [OF assms(1), of lib] by auto
qed

lemma border_in: "\<forall>c\<in>{Top b, Bottom b, TopLeft b, TopRight b, BottomLeft b, BottomRight b, MiddleLeft b, MiddleRight b, Middle b,
    MiddleTop b, MiddleBottom b}. c \<in> set (borderChars b)"
  by (simp add: borderChars_def)

lemma sum_nat_widths:
  "\<forall>i<length ws. 0 \<le> ws ! i \<Longrightarrow> int (sum_list (map (\<lambda>i. nat (ws ! i)) [0..<length ws])) = sum_list ws"
  by (simp add: sum_list_sum_nth interv_sum_list_conv_sum_set_nat atLeast0LessThan)

text \<open>The horizontal lines of a drawn table are as wide as the table, when the border is drawn with one cell per part: the
  top and the bottom line always, and a line between two rows when the table has a left and a right border; without one of these
  the line between two rows is one cell too wide for each of them, because it is drawn with both ends.\<close>

theorem border_lines_fit:
  assumes "drawable t v" "String_table lib t = Some (t', s)" "thin_border lib t'" "adds_widths lib t'"
  shows "int (Width lib (constructTopBorder lib t')) = GetTotalWidth t' \<and>
    int (Width lib (constructBottomBorder lib t' rows)) = GetTotalWidth t' \<and>
    int (Width lib (rowSeparator lib t' r)) =
      GetTotalWidth t' + (1 - btoi (t_borderLeft t')) + (1 - btoi (t_borderRight t'))"
proof -
  note nn = drawn_nonneg [OF assms(1,2)]
  note fit = line_width [OF assms(3,4)]
  let ?n = "length (t_widths t')"
  define seg where "seg = sum_list (map (\<lambda>i. nat (t_widths t' ! i)) [0..<?n]) + (if t_borderColumn t' then ?n - 1 else 0)"
  have seg: "int seg + btoi (t_borderLeft t') + btoi (t_borderRight t') = GetTotalWidth t'"
    using sum_nat_widths [OF nn(1)] nn(2) by (simp add: seg_def GetTotalWidth_def computeWidth_def of_nat_diff Suc_leI)
  have b: "int (nat (btoi x)) = btoi x" for x by (simp add: btoi_def)
  have "Width lib (constructTopBorder lib t') = nat (btoi (t_borderLeft t')) + (seg + nat (btoi (t_borderRight t')))"
    unfolding constructTopBorder_def seg_def using border_in [of "t_border t'"]
    by (intro fit line_append line_borderEnd line_segments) auto
  moreover have "Width lib (constructBottomBorder lib t' rows) = nat (btoi (t_borderLeft t')) + (seg + nat (btoi (t_borderRight t')))"
    unfolding constructBottomBorder_def seg_def using border_in [of "t_border t'"]
    by (intro fit line_append line_borderEnd line_segments) auto
  moreover have "Width lib (rowSeparator lib t' r) = 1 + (seg + 1)"
    unfolding rowSeparator_def seg_def Let_def using border_in [of "t_border t'"]
    by (intro fit line_append line_char line_segments) auto
  ultimately show ?thesis using seg b by (simp add: algebra_simps)
qed

section \<open>An example\<close>

text \<open>A renderer without styles, and a table of two columns.\<close>

definition plain_lib :: "unit lipgloss" where
  "plain_lib = \<lparr>NewStyle = (), StyleWidth = (\<lambda>_ s. s), StyleMaxWidth = (\<lambda>_ s. s), StyleHeight = (\<lambda>_ s. s),
     StyleMaxHeight = (\<lambda>_ s. s), Render = (\<lambda>_ s. s), Width = length, Height = (\<lambda>_. 1), JoinTop = concat,
     Truncate = (\<lambda>s n _. take (nat n) s)\<rparr>"

definition ascii_border :: Border where
  "ascii_border = \<lparr>Top = ''-'', Bottom = ''-'', Left = ''|'', Right = ''|'', TopLeft = ''+'', TopRight = ''+'',
     BottomLeft = ''+'', BottomRight = ''+'', MiddleLeft = ''+'', MiddleRight = ''+'', Middle = ''+'',
     MiddleTop = ''+'', MiddleBottom = ''+''\<rparr>"

definition demo_data :: data_value where
  "demo_data = IsStringData (NewStringData [[''aa'', ''b''], [''a'', ''bbbbbbbb''], [''aaaa'', ''bb'']])"

definition demo_table :: "int \<Rightarrow> unit Table" where
  "demo_table w = (New_table plain_lib ascii_border)\<lparr>t_data := Some demo_data, t_width := w\<rparr>"

lemma demo_drawable: "drawable (demo_table 10) demo_data"
  by (simp add: drawable_def demo_table_def demo_data_def StringData_view_def StringData_Rows_def StringData_Columns_def
      NewStringData_def)

lemma demo_drawn: "\<exists>t' s. String_table plain_lib (demo_table 10) = Some (t', s) \<and> t_border t' = ascii_border"
proof -
  have "map_option (\<lambda>(t', s). t_border t') (String_table plain_lib (demo_table 10)) = Some ascii_border" by code_simp
  then show ?thesis by (auto simp: map_option_case split: option.splits)
qed

theorem table_exact_width_witness:
  "\<exists>t' s. String_table plain_lib (demo_table 10) = Some (t', s) \<and> (GetTotalWidth t' = 10 \<or>
     GetTotalWidth t' < 10 \<and> getExpandableColumns t' = [] \<or> 10 < GetTotalWidth t')"
  using table_exact_width [OF demo_drawable, of plain_lib] by (auto simp: demo_table_def)

theorem table_shrink_medians_witness:
  "\<exists>t' s. String_table plain_lib (demo_table 10) = Some (t', s) \<and> GetTotalWidth t' = 10 \<and>
     list_all2 (\<le>) [3, 3] (t_widths t')"
proof -
  have "t_width (demo_table 10) < computeWidth (measured plain_lib (demo_table 10) (data_view demo_data))"
    "medianWidths plain_lib (measured plain_lib (demo_table 10) (data_view demo_data)) (data_view demo_data) = [3, 3]"
    "borderWidth (measured plain_lib (demo_table 10) (data_view demo_data)) = 3" "t_width (demo_table 10) = 10" by code_simp+
  with table_shrink_medians [OF demo_drawable this(1)] show ?thesis by simp
qed

theorem border_lines_fit_witness:
  "\<exists>t' s. String_table plain_lib (demo_table 10) = Some (t', s) \<and>
     int (Width plain_lib (constructTopBorder plain_lib t')) = GetTotalWidth t'"
proof -
  obtain t' s where t': "String_table plain_lib (demo_table 10) = Some (t', s)" "t_border t' = ascii_border"
    using demo_drawn by blast
  have "thin_border plain_lib t'" "adds_widths plain_lib t'"
    by (auto simp: thin_border_def adds_widths_def plain_lib_def t' ascii_border_def borderChars_def Repeat_def
        length_concat comp_def sum_list_replicate)
  from border_lines_fit [OF demo_drawable t'(1) this] t'(1) show ?thesis by blast
qed

end
