(* ===== verification/Theme.thy ===== *)
theory Theme
  imports TableProps LoginProps
begin

text \<open>
  \<open>tssh/theme.go\<close>: the table of hosts and the table with the details of one host.  The templates of the other themes are
  text for \<open>promptui\<close> and are left out.
\<close>

record sshHost =
  h_Args :: sshArgs
  h_Alias :: string
  h_Host :: string
  h_Port :: string
  h_User :: string
  h_IdentityFile :: string
  h_ProxyCommand :: string
  h_ProxyJump :: string
  h_RemoteCommand :: string
  h_GroupLabels :: string
  h_Selected :: bool

record 's tableTheme =
  tableHeaderStyle :: 's
  defaultAliasStyle :: 's
  defaultHostStyle :: 's
  defaultGroupStyle :: 's
  selectedIconStyle :: 's
  selectedAliasStyle :: 's
  selectedHostStyle :: 's
  selectedGrouplStyle :: 's
  defaultBorderStyle :: 's
  selectedBorderStyle :: 's
  detailsNameStyle :: 's
  detailsValueStyle :: 's
  detailsBorderStyle :: 's
  tableWidth :: int

text \<open>The host of a cell is nil in the row of headers, where it is not used.\<close>

definition cellStyle :: "'s lipgloss \<Rightarrow> 's tableTheme \<Rightarrow> bool \<Rightarrow> int \<Rightarrow> int \<Rightarrow> 's" where
  "cellStyle lib t selected row col =
     (if row = 0 then tableHeaderStyle t else if col = 0 then selectedIconStyle t
      else if selected then
        (if col = 1 then selectedAliasStyle t else if col = 2 then selectedHostStyle t
         else if col = 3 then selectedGrouplStyle t else NewStyle lib)
      else if col = 1 then defaultAliasStyle t else if col = 2 then defaultHostStyle t
      else if col = 3 then defaultGroupStyle t else NewStyle lib)"

definition borderStyle :: "'s tableTheme \<Rightarrow> int \<Rightarrow> int \<Rightarrow> int \<Rightarrow> BorderType \<Rightarrow> 's" where
  "borderStyle t idx row col b =
     (if row = idx then (if b = BorderBottom then selectedBorderStyle t else defaultBorderStyle t)
      else if row = idx + 1 then
        (case b of BorderLeft \<Rightarrow> if col = 0 then selectedBorderStyle t else defaultBorderStyle t
         | BorderRight \<Rightarrow> selectedBorderStyle t | BorderBottom \<Rightarrow> selectedBorderStyle t
         | _ \<Rightarrow> defaultBorderStyle t)
      else defaultBorderStyle t)"

text \<open>The check mark is three bytes of UTF-8.\<close>

definition hostRow :: "sshHost \<Rightarrow> string list" where
  "hostRow h = [if h_Selected h then [CHR 0xE2, CHR 0x9C, CHR 0x94] else '' '', h_Alias h, h_Host h, h_GroupLabels h]"

definition itemsTable :: "'s lipgloss \<Rightarrow> Border \<Rightarrow> 's tableTheme \<Rightarrow> sshHost list \<Rightarrow> int \<Rightarrow> 's Table" where
  "itemsTable lib rounded t items idx =
     BorderStyleFunc_table (Some (borderStyle t idx))
       (StyleFunc_table (Some (\<lambda>row col. cellStyle lib t (row > 0 \<and> h_Selected (items ! nat (row - 1))) row col))
         (Rows_table (map hostRow items)
           (Headers ['''', ''Alias'', ''Host Name'', ''Group Labels'']
             (BorderRow True (New_table lib rounded)))))"

definition renderItems :: "'s lipgloss \<Rightarrow> Border \<Rightarrow> 's tableTheme \<Rightarrow> sshHost list \<Rightarrow> int \<Rightarrow> ('s tableTheme \<times> string) option" where
  "renderItems lib rounded t items idx =
     (case String_table lib (itemsTable lib rounded t items idx) of None \<Rightarrow> None
      | Some (tbl, result) \<Rightarrow> Some (t\<lparr>tableWidth := GetTotalWidth tbl\<rparr>, result))"

definition getPromptDetailItems :: "string \<Rightarrow> string list" where
  "getPromptDetailItems promptDetailItems =
     Fields (if promptDetailItems = []
       then ''Alias Host Port User GroupLabels IdentityFile ProxyCommand ProxyJump RemoteCommand UdpMode TsshdPath''
       else promptDetailItems)"

definition detailOf :: "userConfig \<Rightarrow> sshHost \<Rightarrow> string \<Rightarrow> string \<times> string" where
  "detailOf uc host item =
     (let l = ToLower item in
      if l = ''alias'' then (''Alias'', h_Alias host)
      else if l = ''host'' then (''Host'', h_Host host)
      else if l = ''port'' then (''Port'', h_Port host)
      else if l = ''user'' then (''User'', h_User host)
      else if l = ''grouplabels'' then (''GroupLabels'', h_GroupLabels host)
      else if l = ''identityfile'' then (''IdentityFile'', h_IdentityFile host)
      else if l = ''proxycommand'' then (''ProxyCommand'', h_ProxyCommand host)
      else if l = ''proxyjump'' then (''ProxyJump'', h_ProxyJump host)
      else if l = ''remotecommand'' then (''RemoteCommand'', h_RemoteCommand host)
      else (item, getExConfig uc (h_Args host) item))"

definition detailRows :: "userConfig \<Rightarrow> string \<Rightarrow> sshHost \<Rightarrow> string list list" where
  "detailRows uc promptDetailItems host =
     map (\<lambda>(name, v). [name, v]) (filter (\<lambda>(name, v). v \<noteq> []) (map (detailOf uc host) (getPromptDetailItems promptDetailItems)))"

definition detailsTable :: "'s lipgloss \<Rightarrow> Border \<Rightarrow> userConfig \<Rightarrow> string \<Rightarrow> 's tableTheme \<Rightarrow> sshHost \<Rightarrow> 's Table" where
  "detailsTable lib rounded uc items t host =
     (let tbl = FixedColumns [0]
            (StyleFunc_table (Some (\<lambda>row col. if col = 0 then detailsNameStyle t else detailsValueStyle t))
              (BorderStyle (detailsBorderStyle t)
                (Rows_table (detailRows uc items host) (BorderRow True (New_table lib rounded))))) in
      if tableWidth t > 0 then Width_table (tableWidth t) tbl else tbl)"

definition renderDetails :: "'s lipgloss \<Rightarrow> Border \<Rightarrow> userConfig \<Rightarrow> string \<Rightarrow> 's tableTheme \<Rightarrow> sshHost \<Rightarrow> string option" where
  "renderDetails lib rounded uc items t host = map_option snd (String_table lib (detailsTable lib rounded uc items t host))"

section \<open>The details are as wide as the hosts\<close>

lemma Rows_table_uniform:
  assumes "t_data t = Some (IsStringData m)" "sd_columns m \<le> n" "\<forall>row\<in>set rows. length row = n"
  shows "\<exists>m'. Rows_table rows t = t\<lparr>t_data := Some (IsStringData m')\<rparr> \<and> sd_rows m' = sd_rows m @ rows \<and>
    sd_columns m' = (if rows = [] then sd_columns m else n)"
  using assms
proof (induction rows arbitrary: t m)
  case (Cons row rows)
  let ?m = "StringData_Append row m" and ?t = "t\<lparr>t_data := Some (IsStringData (StringData_Append row m))\<rparr>"
  have "Rows_table (row # rows) t = Rows_table rows ?t" using Cons.prems(1) by (simp add: Rows_table_def)
  moreover have "sd_rows ?m = sd_rows m @ [row]" "sd_columns ?m = n"
    using Cons.prems(2,3) by (simp_all add: StringData_Append_def max_def)
  ultimately show ?case using Cons.IH [of ?t ?m] Cons.prems(3) by (auto split: if_splits)
next
  case Nil
  then show ?case by (cases t) (auto simp: Rows_table_def)
qed

lemma itemsTable_shape:
  "\<exists>m. t_data (itemsTable lib rounded t items idx) = Some (IsStringData m) \<and> sd_columns m \<le> 4"
  "t_width (itemsTable lib rounded t items idx) = 0" "length (t_headers (itemsTable lib rounded t items idx)) = 4"
  "t_borderColumn (itemsTable lib rounded t items idx)" "t_borderLeft (itemsTable lib rounded t items idx)"
  "t_borderRight (itemsTable lib rounded t items idx)"
proof -
  let ?t0 = "Headers ['''', ''Alias'', ''Host Name'', ''Group Labels''] (BorderRow True (New_table lib rounded))"
  have "t_data ?t0 = Some (IsStringData (NewStringData []))" by (simp add: New_table_def Headers_def BorderRow_def)
  moreover have "sd_columns (NewStringData []) \<le> 4" "\<forall>row\<in>set (map hostRow items). length row = 4"
    by (auto simp: NewStringData_def hostRow_def)
  ultimately obtain m where "Rows_table (map hostRow items) ?t0 = ?t0\<lparr>t_data := Some (IsStringData m)\<rparr>" "sd_columns m \<le> 4"
    using Rows_table_uniform [of ?t0 "NewStringData []" 4 "map hostRow items"] by (auto split: if_splits)
  then show "\<exists>m. t_data (itemsTable lib rounded t items idx) = Some (IsStringData m) \<and> sd_columns m \<le> 4"
    "t_width (itemsTable lib rounded t items idx) = 0" "length (t_headers (itemsTable lib rounded t items idx)) = 4"
    "t_borderColumn (itemsTable lib rounded t items idx)" "t_borderLeft (itemsTable lib rounded t items idx)"
    "t_borderRight (itemsTable lib rounded t items idx)"
    by (auto simp: itemsTable_def BorderStyleFunc_table_def StyleFunc_table_def Headers_def BorderRow_def New_table_def)
qed

lemma detailsTable_shape:
  assumes "detailRows uc items host \<noteq> []" "0 < tableWidth t"
  shows "\<exists>m. t_data (detailsTable lib rounded uc items t host) = Some (IsStringData m) \<and> sd_columns m = 2 \<and> sd_rows m \<noteq> []"
    "t_width (detailsTable lib rounded uc items t host) = tableWidth t" "t_headers (detailsTable lib rounded uc items t host) = []"
    "t_borderColumn (detailsTable lib rounded uc items t host)" "t_borderLeft (detailsTable lib rounded uc items t host)"
    "t_borderRight (detailsTable lib rounded uc items t host)" "t_fixedColumns (detailsTable lib rounded uc items t host) = [0]"
proof -
  let ?t0 = "BorderRow True (New_table lib rounded)"
  have "t_data ?t0 = Some (IsStringData (NewStringData []))" by (simp add: New_table_def BorderRow_def)
  moreover have "sd_columns (NewStringData []) \<le> 2" "\<forall>row\<in>set (detailRows uc items host). length row = 2"
    by (auto simp: NewStringData_def detailRows_def)
  ultimately obtain m where "Rows_table (detailRows uc items host) ?t0 = ?t0\<lparr>t_data := Some (IsStringData m)\<rparr>" "sd_columns m = 2"
    "sd_rows m \<noteq> []"
    using Rows_table_uniform [of ?t0 "NewStringData []" 2 "detailRows uc items host"] assms(1) by auto
  then show "\<exists>m. t_data (detailsTable lib rounded uc items t host) = Some (IsStringData m) \<and> sd_columns m = 2 \<and> sd_rows m \<noteq> []"
    "t_width (detailsTable lib rounded uc items t host) = tableWidth t" "t_headers (detailsTable lib rounded uc items t host) = []"
    "t_borderColumn (detailsTable lib rounded uc items t host)" "t_borderLeft (detailsTable lib rounded uc items t host)"
    "t_borderRight (detailsTable lib rounded uc items t host)" "t_fixedColumns (detailsTable lib rounded uc items t host) = [0]"
    using assms(2) by (auto simp: detailsTable_def Let_def FixedColumns_def Width_table_def StyleFunc_table_def BorderStyle_def
        BorderRow_def New_table_def)
qed

text \<open>The table of hosts has four columns and all borders, so it is at least as wide as its borders.\<close>

lemma renderItems_width:
  "\<exists>t' s. renderItems lib rounded t items idx = Some (t', s) \<and> 5 \<le> tableWidth t'"
proof -
  let ?t = "itemsTable lib rounded t items idx"
  obtain m where m: "t_data ?t = Some (IsStringData m)" "sd_columns m \<le> 4" using itemsTable_shape(1) by blast
  let ?d = "StringData_view m"
  define t1 where "t1 = measured lib ?t ?d"
  have hs: "length (padHeaders ?d (t_headers ?t)) = 4"
    using itemsTable_shape(3) [of lib rounded t items idx] m(2)
    by (auto simp: padHeaders_def StringData_view_def StringData_Columns_def)
  have sz: "length (t_widths t1) = 4" "\<forall>i<4. 0 \<le> t_widths t1 ! i"
    using measureTable_sized [of "?t\<lparr>t_headers := padHeaders ?d (t_headers ?t)\<rparr>" ?d lib] hs m(2)
    by (auto simp: sized_def t1_def measured_def StringData_view_def StringData_Columns_def)
  have same: "t_width t1 = 0" "t_borderColumn t1" "t_borderLeft t1" "t_borderRight t1"
    using measureTable_fields [of lib "?t\<lparr>t_headers := padHeaders ?d (t_headers ?t)\<rparr>" ?d] itemsTable_shape
    by (auto simp: t1_def measured_def)
  have "0 \<le> sum_list (t_widths t1)" using sz by (intro sum_list_nonneg) (auto simp: in_set_conv_nth)
  then have "5 \<le> GetTotalWidth (t1\<lparr>t_widths := t_widths t1\<rparr>)"
    using sz same by (simp add: GetTotalWidth_def computeWidth_def btoi_def)
  moreover have "resizeColumns lib t1 ?d = Some (t_widths t1)" using same by (simp add: resizeColumns_def)
  moreover have "t_headers ?t \<noteq> []" using itemsTable_shape(3) [of lib rounded t items idx] by auto
  ultimately show ?thesis
    using m(1) by (simp add: renderItems_def String_table_def Let_def t1_def measured_def)
qed

text \<open>The table with the details of a host is drawn without a panic and is exactly as wide as the table of hosts that was drawn
  before it, whatever the hosts and the details are, when there is at least one detail.\<close>

theorem details_as_wide_as_items:
  assumes "renderItems lib rounded t items idx = Some (t', s)" "detailRows uc details host \<noteq> []"
  shows "\<exists>tbl s'. String_table lib (detailsTable lib rounded uc details t' host) = Some (tbl, s') \<and>
    renderDetails lib rounded uc details t' host = Some s' \<and> GetTotalWidth tbl = tableWidth t'"
proof -
  have w: "5 \<le> tableWidth t'" using renderItems_width [of lib rounded t items idx] assms(1) by auto
  let ?t = "detailsTable lib rounded uc details t' host"
  note shape = detailsTable_shape [OF assms(2), of t']
  obtain m where m: "t_data ?t = Some (IsStringData m)" "sd_columns m = 2" "sd_rows m \<noteq> []" using shape(1) w by force
  define d where "d = StringData_view m"
  have d: "drawable ?t (IsStringData m)" "data_view (IsStringData m) = d" "Columns d = 2"
    using m shape(2) w by (auto simp: drawable_def d_def StringData_view_def StringData_Rows_def StringData_Columns_def)
  define t1 where "t1 = measured lib ?t d"
  have t1: "t_width t1 = tableWidth t'" "t_headers t1 = []" "t_borderColumn t1" "t_borderLeft t1" "t_borderRight t1"
    "t_fixedColumns t1 = [0]"
    using measureTable_fields [of lib "?t\<lparr>t_headers := padHeaders d (t_headers ?t)\<rparr>" d] shape(2-7) w
    by (auto simp: t1_def measured_def padHeaders_def)
  have two: "length (t_widths t1) = 2"
    using measureTable_sized [of "?t\<lparr>t_headers := padHeaders d (t_headers ?t)\<rparr>" d lib] shape(3) w d(3)
    by (auto simp: sized_def t1_def measured_def padHeaders_def)
  have border: "borderWidth t1 = 3" and expand: "getExpandableColumns t1 \<noteq> []"
    using t1 two by (simp_all add: borderWidth_def btoi_def getExpandableColumns_def upt_rec)
  obtain ws where ws: "resizeColumns lib t1 d = Some ws" "length ws = length (t_widths t1)" "sum_list ws + borderWidth t1 = t_width t1"
    using resizeColumns_spec [of t1 lib d] measured_widths [OF d(1), of lib] t1(1) w border expand
    unfolding d(2) t1_def by (auto split: if_splits)
  then obtain s' where "String_table lib ?t = Some (t1\<lparr>t_widths := ws\<rparr>, s')"
    using String_table_resized [OF d(1), of lib ws] by (auto simp: d(2) t1_def d_def)
  then show ?thesis using widths_update [OF ws(2)] ws(3) t1(1) by (auto simp: renderDetails_def)
qed

definition demo_theme :: "unit tableTheme" where
  "demo_theme = \<lparr>tableHeaderStyle = (), defaultAliasStyle = (), defaultHostStyle = (), defaultGroupStyle = (), selectedIconStyle = (),
     selectedAliasStyle = (), selectedHostStyle = (), selectedGrouplStyle = (), defaultBorderStyle = (), selectedBorderStyle = (),
     detailsNameStyle = (), detailsValueStyle = (), detailsBorderStyle = (), tableWidth = 0\<rparr>"

definition demo_host :: sshHost where
  "demo_host = \<lparr>h_Args = demo_args, h_Alias = ''web'', h_Host = ''192.0.2.1'', h_Port = [], h_User = ''me'', h_IdentityFile = [],
     h_ProxyCommand = [], h_ProxyJump = [], h_RemoteCommand = [], h_GroupLabels = [], h_Selected = True\<rparr>"

theorem details_as_wide_as_items_witness:
  "\<exists>t' s tbl s'. renderItems plain_lib ascii_border demo_theme [demo_host] 0 = Some (t', s) \<and>
     String_table plain_lib (detailsTable plain_lib ascii_border demo_uc ''alias User'' t' demo_host) = Some (tbl, s') \<and>
     GetTotalWidth tbl = tableWidth t'"
proof -
  obtain t' s where "renderItems plain_lib ascii_border demo_theme [demo_host] 0 = Some (t', s)"
    using renderItems_width by blast
  moreover have "detailRows demo_uc ''alias User'' demo_host \<noteq> []" by code_simp
  ultimately show ?thesis using details_as_wide_as_items by blast
qed

end
