(* ===== verification/Prompt.thy ===== *)
theory Prompt
  imports Theme
begin

text \<open>
  \<open>tssh/prompt.go\<close> and the list of hosts in \<open>tssh/config.go\<close>: which hosts can be chosen, what every key does in the
  list, and which host is chosen in the end.  The packages \<open>promptui\<close> and \<open>readline\<close>, which draw the list and
  take the keys, and \<open>ssh_config\<close>, which parses the files, are parameters.
\<close>

section \<open>The list of hosts\<close>

text \<open>A \<open>Host\<close> block of a configuration file: its patterns, with whether they are negated, and the files that are included
  in it, each with its own blocks; a file that could not be read is nil.\<close>

datatype cfg_host = CfgHost (cfg_patterns: "(string \<times> bool) list") (cfg_includes: "cfg_host list option list")

text \<open>The state of the walk: hosts so far, aliases seen, and patterns with wildcards.\<close>

record host_walk =
  hw_hosts :: "sshHost list"
  hw_seen :: "string list"
  hw_wildcards :: "(string \<times> bool) list"

definition hostArgs :: "userConfig \<Rightarrow> (string \<Rightarrow> bool) \<Rightarrow> sshArgs \<Rightarrow> string \<Rightarrow> sshArgs" where
  "hostArgs uc resolves oriArgs alias =
     (let args = oriArgs\<lparr>a_Destination := alias, a_originalDest := alias\<rparr>;
          v = getOptionConfig uc args ''CanonicalizeHostname'' in
      if \<not> uc_useOpenSSH uc \<and> (EqualFold v ''always'' \<or> EqualFold v ''yes'') then
        (case canonicalizeHost uc resolves args alias of
           Inr host \<Rightarrow> if host \<noteq> alias then args\<lparr>a_canonicalDest := host\<rparr> else args
         | Inl _ \<Rightarrow> args)
      else args)"

definition promptHost :: "userConfig \<Rightarrow> sshArgs \<Rightarrow> string \<Rightarrow> sshHost" where
  "promptHost uc args alias =
     (let host = getOptionConfig uc args ''HostName'' in
      \<lparr>h_Args = args, h_Alias = alias,
       h_Host = (if host = [] \<and> a_canonicalDest args \<noteq> [] then a_canonicalDest args else host),
       h_Port = getOptionConfig uc args ''Port'', h_User = getOptionConfig uc args ''User'',
       h_IdentityFile = getOptionConfig uc args ''IdentityFile'', h_ProxyCommand = getOptionConfig uc args ''ProxyCommand'',
       h_ProxyJump = getOptionConfig uc args ''ProxyJump'', h_RemoteCommand = getOptionConfig uc args ''RemoteCommand'',
       h_GroupLabels = getGroupLabels uc args, h_Selected = False\<rparr>)"

definition appendPattern :: "userConfig \<Rightarrow> (string \<Rightarrow> bool) \<Rightarrow> sshArgs \<Rightarrow> string \<times> bool \<Rightarrow> host_walk \<Rightarrow> host_walk" where
  "appendPattern uc resolves oriArgs pattern w =
     (case pattern of (alias, neg) \<Rightarrow>
      if alias \<in> set (hw_seen w) then w
      else let w1 = w\<lparr>hw_seen := hw_seen w @ [alias]\<rparr>; args = hostArgs uc resolves oriArgs alias in
        if CHR ''*'' \<in> set alias \<or> CHR ''?'' \<in> set alias then
          (if alias \<noteq> ''*'' \<and> \<not> neg then w1\<lparr>hw_wildcards := hw_wildcards w1 @ [pattern]\<rparr> else w1)
        else if EqualFold (getExOptionConfig uc args ''HideHost'') ''yes'' then w1
        else w1\<lparr>hw_hosts := hw_hosts w1 @ [promptHost uc args alias]\<rparr>)"

definition appendPromptHosts :: "userConfig \<Rightarrow> (string \<Rightarrow> bool) \<Rightarrow> sshArgs \<Rightarrow> cfg_host \<Rightarrow> host_walk \<Rightarrow> host_walk" where
  "appendPromptHosts uc resolves oriArgs h w =
     foldl (\<lambda>w pattern. appendPattern uc resolves oriArgs pattern w) w (cfg_patterns h)"

fun recursiveGetHosts :: "userConfig \<Rightarrow> (string \<Rightarrow> bool) \<Rightarrow> sshArgs \<Rightarrow> cfg_host list \<Rightarrow> host_walk \<Rightarrow> host_walk"
and includedHosts :: "userConfig \<Rightarrow> (string \<Rightarrow> bool) \<Rightarrow> sshArgs \<Rightarrow> cfg_host list option list \<Rightarrow> host_walk \<Rightarrow> host_walk" where
  "recursiveGetHosts uc resolves args [] w = w"
| "recursiveGetHosts uc resolves args (CfgHost ps incs # hs) w =
     recursiveGetHosts uc resolves args hs
       (appendPromptHosts uc resolves args (CfgHost ps incs) (includedHosts uc resolves args incs w))"
| "includedHosts uc resolves args [] w = w"
| "includedHosts uc resolves args (None # fs) w = includedHosts uc resolves args fs w"
| "includedHosts uc resolves args (Some hs # fs) w =
     includedHosts uc resolves args fs (recursiveGetHosts uc resolves args hs w)"

text \<open>The hosts of the user's file and then of the system's file, if there is one.\<close>

definition getAllHosts :: "userConfig \<Rightarrow> (string \<Rightarrow> bool) \<Rightarrow> sshArgs \<Rightarrow> cfg_host list option \<Rightarrow> cfg_host list option \<Rightarrow> host_walk" where
  "getAllHosts uc resolves args config sysConfig =
     (let load = (\<lambda>c w. case c of None \<Rightarrow> w | Some hs \<Rightarrow> recursiveGetHosts uc resolves args hs w) in
      load sysConfig (load config \<lparr>hw_hosts = [], hw_seen = [], hw_wildcards = []\<rparr>))"

section \<open>Keys\<close>

datatype openTerm = openTermDefault | openTermPane | openTermTab | openTermWindow

record sshPrompt =
  p_hosts :: "sshHost list"
  p_termMgr :: bool
  p_openType :: openTerm
  p_showShortcuts :: bool
  p_search :: bool
  p_quit :: bool

text \<open>What the list shows when a key is read: the numbers of the visible hosts, how many items are visible, and the number of
  the current one, which is negative when there is none.\<close>

record selector =
  GetVisibleItems :: "nat list"
  GetVisibleSize :: nat
  GetCurrentIndex :: int

text \<open>The keys that \<open>readline\<close> and \<open>promptui\<close> understand.\<close>

record prompt_keys =
  CharPrev :: char
  CharNext :: char
  CharBackward :: char
  CharForward :: char
  CharEnter :: char
  KeyRefresh :: char
  KeySoftEnter :: char
  KeyCtrlE :: char

definition getPageCount :: "nat \<Rightarrow> sshPrompt \<Rightarrow> nat" where
  "getPageCount pageSize p = nat ((int (length (p_hosts p)) - 1) sdiv int pageSize + 1)"

definition getPromptPageSize :: "nat \<Rightarrow> nat" where
  "getPromptPageSize configured = (if configured \<noteq> 0 then configured else 10)"

definition hasSelected :: "sshPrompt \<Rightarrow> bool" where
  "hasSelected p = list_ex h_Selected (p_hosts p)"

definition getSelected :: "int \<Rightarrow> sshPrompt \<Rightarrow> sshHost list" where
  "getSelected idx p =
     (let hosts = filter h_Selected (p_hosts p) in
      if hosts = [] \<and> 0 \<le> idx \<and> idx < int (length (p_hosts p)) then [p_hosts p ! nat idx] else hosts)"

text \<open>A key is one of some sequences, or a single byte that counts always, or one that counts unless a search is typed.\<close>

definition pressed :: "sshPrompt \<Rightarrow> string list \<Rightarrow> string \<Rightarrow> string \<Rightarrow> string \<Rightarrow> bool" where
  "pressed p seqs always plain buf \<longleftrightarrow>
     buf \<in> set seqs \<or> length buf = 1 \<and> (hd buf \<in> set always \<or> hd buf \<in> set plain \<and> \<not> p_search p)"

definition csi :: "string \<Rightarrow> string" where
  "csi s = [CHR 0x1B, CHR 0x5B] @ s"

definition userQuit :: "sshPrompt \<Rightarrow> string \<Rightarrow> bool" where
  "userQuit p buf = pressed p [] [CHR 0x03, CHR 0x11] ''qQ'' buf"

definition movePrev :: "sshPrompt \<Rightarrow> string \<Rightarrow> bool" where
  "movePrev p buf = pressed p [csi ''A'', csi ''Z''] [CHR 0x0B] ''kK'' buf"

definition moveNext :: "sshPrompt \<Rightarrow> string \<Rightarrow> bool" where
  "moveNext p buf = pressed p [csi ''B''] [CHR 0x09, CHR 0x0A] ''jJ'' buf"

definition pageUp :: "sshPrompt \<Rightarrow> string \<Rightarrow> bool" where
  "pageUp p buf = pressed p [csi ''D'', csi ''5~''] [CHR 0x08, CHR 0x15, CHR 0x02] ''hHuUbB'' buf"

definition pageDown :: "sshPrompt \<Rightarrow> string \<Rightarrow> bool" where
  "pageDown p buf = pressed p [csi ''C'', csi ''6~''] [CHR 0x0C, CHR 0x04, CHR 0x06] ''lLdDfF'' buf"

definition gotoHome :: "sshPrompt \<Rightarrow> string \<Rightarrow> bool" where
  "gotoHome p buf = pressed p [csi ''H'', csi ''1~''] [] ''g'' buf"

definition gotoEnd :: "sshPrompt \<Rightarrow> string \<Rightarrow> bool" where
  "gotoEnd p buf = pressed p [csi ''F'', csi ''4~''] [] ''G'' buf"

definition toggleSelect :: "sshPrompt \<Rightarrow> string \<Rightarrow> bool" where
  "toggleSelect p buf \<longleftrightarrow> p_termMgr p \<and> pressed p [[CHR 0xC2, CHR 0xA0]] [CHR 0x00, CHR 0x18] '' xX'' buf"

definition selectAllItems :: "sshPrompt \<Rightarrow> string \<Rightarrow> bool" where
  "selectAllItems p buf \<longleftrightarrow> p_termMgr p \<and> pressed p [] [CHR 0x01] ''aA'' buf"

definition selectOpposite :: "sshPrompt \<Rightarrow> string \<Rightarrow> bool" where
  "selectOpposite p buf \<longleftrightarrow> p_termMgr p \<and> pressed p [] [CHR 0x0F] ''oO'' buf"

definition toggleSearch :: "sshPrompt \<Rightarrow> string \<Rightarrow> bool" where
  "toggleSearch p buf \<longleftrightarrow> length buf = 1 \<and> (hd buf = CHR 0x2F \<or> hd buf = CHR 0x1B \<and> p_search p)"

definition toggleShortcuts :: "sshPrompt \<Rightarrow> string \<Rightarrow> bool" where
  "toggleShortcuts p buf = pressed p [] ''?'' [] buf"

definition addKeywords :: "selector \<Rightarrow> sshPrompt \<Rightarrow> string \<Rightarrow> bool" where
  "addKeywords sel p buf \<longleftrightarrow> length buf = 1 \<and> hd buf = CHR 0x0D \<and> p_search p \<and> GetVisibleSize sel > 0"

definition eraseKeywords :: "sshPrompt \<Rightarrow> string \<Rightarrow> bool" where
  "eraseKeywords p buf = pressed p [] [CHR 0x05] ''eE'' buf"

text \<open>The answer, and the prompt with the type of opening, which is also set when the answer is no.\<close>

definition userConfirm :: "sshPrompt \<Rightarrow> string \<Rightarrow> bool \<times> sshPrompt" where
  "userConfirm p buf =
     (if length buf \<noteq> 1 then (False, p)
      else let c = hd buf in
        if c = CHR 0x0D then (\<not> p_search p, p\<lparr>p_openType := openTermDefault\<rparr>)
        else if \<not> p_termMgr p \<or> \<not> hasSelected p then (False, p)
        else if c = CHR 0x10 then (True, p\<lparr>p_openType := openTermPane\<rparr>)
        else if c \<in> set ''pP'' then (\<not> p_search p, p\<lparr>p_openType := openTermPane\<rparr>)
        else if c = CHR 0x14 then (True, p\<lparr>p_openType := openTermTab\<rparr>)
        else if c \<in> set ''tT'' then (\<not> p_search p, p\<lparr>p_openType := openTermTab\<rparr>)
        else if c = CHR 0x17 then (True, p\<lparr>p_openType := openTermWindow\<rparr>)
        else if c \<in> set ''wW'' then (\<not> p_search p, p\<lparr>p_openType := openTermWindow\<rparr>)
        else (False, p))"

section \<open>The loop over the keys\<close>

definition setSelected :: "(bool \<Rightarrow> bool) \<Rightarrow> nat \<Rightarrow> sshHost list \<Rightarrow> sshHost list" where
  "setSelected f i hs = (if i < length hs then hs[i := (hs ! i)\<lparr>h_Selected := f (h_Selected (hs ! i))\<rparr>] else hs)"

text \<open>One turn of \<open>wrapStdin\<close>: the prompt, the bytes written to the list, and whether the loop goes on.  The visible items are
  hosts of the list.\<close>

definition wrapKey :: "prompt_keys \<Rightarrow> nat \<Rightarrow> selector \<Rightarrow> sshPrompt \<Rightarrow> bool \<Rightarrow> string \<Rightarrow> sshPrompt \<times> string \<times> bool" where
  "wrapKey pk pageSize sel p err buf =
     (let refresh = (\<lambda>p. (p, [KeyRefresh pk], True)) in
      if err \<or> userQuit p buf then (p\<lparr>p_quit := True\<rparr>, [], False)
      else if movePrev p buf then (p, [CharPrev pk], True)
      else if moveNext p buf then (p, [CharNext pk], True)
      else if pageUp p buf then (p, [CharBackward pk], True)
      else if pageDown p buf then (p, [CharForward pk], True)
      else if gotoHome p buf then (p, replicate (getPageCount pageSize p) (CharBackward pk), True)
      else if gotoEnd p buf then (p, replicate (getPageCount pageSize p) (CharForward pk), True)
      else if toggleSelect p buf then
        refresh (if GetCurrentIndex sel \<ge> 0 then p\<lparr>p_hosts := setSelected Not (nat (GetCurrentIndex sel)) (p_hosts p)\<rparr> else p)
      else if selectAllItems p buf then
        refresh (p\<lparr>p_hosts := foldl (\<lambda>hs i. setSelected (\<lambda>_. True) i hs) (p_hosts p) (GetVisibleItems sel)\<rparr>)
      else if selectOpposite p buf then
        refresh (p\<lparr>p_hosts := foldl (\<lambda>hs i. setSelected Not i hs) (p_hosts p) (GetVisibleItems sel)\<rparr>)
      else if toggleSearch p buf then (p\<lparr>p_search := \<not> p_search p\<rparr>, ''/'', True)
      else if toggleShortcuts p buf then refresh (p\<lparr>p_showShortcuts := \<not> p_showShortcuts p\<rparr>)
      else if addKeywords sel p buf then (p\<lparr>p_search := False\<rparr>, [KeySoftEnter pk], True)
      else if eraseKeywords p buf then (p\<lparr>p_search := False\<rparr>, [KeyCtrlE pk], True)
      else case userConfirm p buf of (yes, p') \<Rightarrow>
        if yes then (p', [CharEnter pk], False)
        else if buf = [CHR 0x00] then refresh p'
        else (p', buf, True))"

text \<open>What the loop reads: an error or some bytes, with what the list shows then.\<close>

type_synonym key_event = "selector \<times> bool \<times> string"

fun wrapLoop :: "prompt_keys \<Rightarrow> nat \<Rightarrow> sshPrompt \<Rightarrow> key_event list \<Rightarrow> sshPrompt \<times> string list \<times> bool" where
  "wrapLoop pk pageSize p [] = (p, [], True)"
| "wrapLoop pk pageSize p ((sel, err, buf) # es) =
     (case wrapKey pk pageSize sel p err buf of (p', out, go) \<Rightarrow>
      if go then (case wrapLoop pk pageSize p' es of (p2, outs, g) \<Rightarrow> (p2, out # outs, g))
      else (p', [out], False))"

definition wrapStdin :: "prompt_keys \<Rightarrow> nat \<Rightarrow> string \<Rightarrow> sshPrompt \<Rightarrow> key_event list \<Rightarrow> sshPrompt \<times> string list \<times> bool" where
  "wrapStdin pk pageSize promptDefaultMode p es =
     (if EqualFold promptDefaultMode ''search''
      then (case wrapLoop pk pageSize (p\<lparr>p_search := True\<rparr>) es of (p', outs, g) \<Rightarrow> (p', ''/'' # outs, g))
      else wrapLoop pk pageSize p es)"

text \<open>\<open>bellFilter\<close>: the bytes of a write that reach the terminal.\<close>

definition bellFilter_Write :: "char \<Rightarrow> string \<Rightarrow> string" where
  "bellFilter_Write bell b = (if b = [bell] then [] else b)"

section \<open>Choosing\<close>

text \<open>\<open>strings.ToLower\<close> of the three texts of a host that are searched.\<close>

definition matchHost :: "sshHost \<Rightarrow> string list \<Rightarrow> bool" where
  "matchHost h keywords =
     list_all (\<lambda>k. Contains (ToLower (h_Host h)) k \<or> Contains (ToLower (h_Alias h)) k \<or> Contains (ToLower (h_GroupLabels h)) k) keywords"

definition searcher :: "sshHost list \<Rightarrow> string \<Rightarrow> nat \<Rightarrow> bool" where
  "searcher hosts input index = matchHost (hosts ! index) (Fields (ToLower input))"

text \<open>The end of \<open>chooseAlias\<close>, from the result of the list: the alias and whether the user quits, with the hosts that are opened
  in other terminals; \<^term>\<open>None\<close> is a panic on an empty selection.\<close>

definition chosenAlias :: "sshPrompt \<Rightarrow> int result \<Rightarrow> ((string \<times> bool) result \<times> (openTerm \<times> sshHost list) option) option" where
  "chosenAlias p outcome =
     (case outcome of
        Inl e \<Rightarrow> Some (Inl (''prompt choose alias failed: '' @ e), None)
      | Inr idx \<Rightarrow>
          if p_quit p then Some (Inr ([], True), None)
          else (case getSelected idx p of
              [] \<Rightarrow> None
            | h # hs \<Rightarrow> Some (Inr (h_Alias h, False), if hs \<noteq> [] \<and> p_termMgr p then Some (p_openType p, h # hs) else None)))"

record dest_env =
  isTerminal :: bool
  fuzzyHostSelection :: bool
  matchesPattern :: "string \<times> bool \<Rightarrow> string \<Rightarrow> bool"
  lookupHost :: "string \<Rightarrow> bool"
  chooseAlias :: "string \<Rightarrow> (string \<times> bool) result"

definition predictDestination :: "userConfig \<Rightarrow> dest_env \<Rightarrow> host_walk \<Rightarrow> string \<Rightarrow> (string \<times> bool) result" where
  "predictDestination uc env w dest =
     (let as_is = Inr (dest, False) in
      if \<not> isTerminal env \<or> uc_useOpenSSH uc \<or> \<not> fuzzyHostSelection env \<or> list_ex (\<lambda>c. c \<in> set ''.:[]@'') dest then as_is
      else if list_ex (\<lambda>h. h_Alias h = dest) (hw_hosts w) then as_is
      else if list_ex (\<lambda>ptn. matchesPattern env ptn dest) (hw_wildcards w) then as_is
      else if \<not> list_ex (\<lambda>h. matchHost h (Fields (ToLower dest))) (hw_hosts w) then as_is
      else if lookupHost env dest then as_is
      else chooseAlias env dest)"

definition chooseOrPredictDest :: "userConfig \<Rightarrow> dest_env \<Rightarrow> host_walk \<Rightarrow> string \<Rightarrow> string \<Rightarrow> string \<Rightarrow> (string \<times> bool) result" where
  "chooseOrPredictDest uc env w controlCmd controlPath dest =
     (if controlCmd \<noteq> [] \<and> controlPath \<noteq> [] then Inr (dest, False)
      else if dest = [] \<or> dest = ''FAKE_DEST_IN_WARP'' then
        (if \<not> isTerminal env then Inl ''destination is required when running tssh in non-interactive mode''
         else chooseAlias env [])
      else predictDestination uc env w dest)"

section \<open>Panes\<close>

text \<open>\<open>math.Floor(math.Sqrt(n))\<close>, which is exact for the number of hosts.\<close>

definition isqrt :: "nat \<Rightarrow> nat" where
  "isqrt n = last (filter (\<lambda>k. k * k \<le> n) [0..<Suc n])"

fun takeRows :: "nat list \<Rightarrow> string list \<Rightarrow> string list list" where
  "takeRows [] hs = []"
| "takeRows (c # cs) hs = take c hs # takeRows cs (drop c hs)"

definition getPanesMatrix :: "sshHost list \<Rightarrow> string list list" where
  "getPanesMatrix hosts =
     (let rows = isqrt (length hosts);
          cols = foldl (\<lambda>cols i. cols[i mod rows := cols ! (i mod rows) + 1]) (replicate rows 0) [0..<length hosts] in
      takeRows cols (map h_Alias hosts))"

end
