(* ===== verification/PromptProps.thy ===== *)
theory PromptProps
  imports Prompt
begin

text \<open>
  The list of hosts: which hosts it has, that no key has two meanings, that the prompt and the list agree on whether a search is
  typed, and the layout of panes.
\<close>

section \<open>The hosts\<close>

text \<open>All patterns of the files in the order of the walk: those of an included file before those of the block that includes it.\<close>

fun patternsOf :: "cfg_host list \<Rightarrow> (string \<times> bool) list"
and includedPatterns :: "cfg_host list option list \<Rightarrow> (string \<times> bool) list" where
  "patternsOf [] = []"
| "patternsOf (CfgHost ps incs # hs) = includedPatterns incs @ ps @ patternsOf hs"
| "includedPatterns [] = []"
| "includedPatterns (None # fs) = includedPatterns fs"
| "includedPatterns (Some hs # fs) = patternsOf hs @ includedPatterns fs"

definition configured :: "cfg_host list option \<Rightarrow> (string \<times> bool) list" where
  "configured c = (case c of None \<Rightarrow> [] | Some hs \<Rightarrow> patternsOf hs)"

lemma walk_foldl:
  "recursiveGetHosts uc r args hs w = foldl (\<lambda>w pat. appendPattern uc r args pat w) w (patternsOf hs)"
  "includedHosts uc r args fs w = foldl (\<lambda>w pat. appendPattern uc r args pat w) w (includedPatterns fs)"
  by (induction uc r args hs w and uc r args fs w rule: recursiveGetHosts_includedHosts.induct)
    (simp_all add: appendPromptHosts_def)

definition wildcard :: "string \<Rightarrow> bool" where
  "wildcard a \<longleftrightarrow> CHR ''*'' \<in> set a \<or> CHR ''?'' \<in> set a"

definition hidden :: "userConfig \<Rightarrow> (string \<Rightarrow> bool) \<Rightarrow> sshArgs \<Rightarrow> string \<Rightarrow> bool" where
  "hidden uc r args a \<longleftrightarrow> EqualFold (getExOptionConfig uc (hostArgs uc r args a) ''HideHost'') ''yes''"

text \<open>Without later repetitions.\<close>

definition firsts :: "string list \<Rightarrow> string list" where
  "firsts xs = rev (remdups (rev xs))"

lemma firsts_snoc: "firsts (xs @ [x]) = (if x \<in> set xs then firsts xs else firsts xs @ [x])"
  by (simp add: firsts_def)

lemma firsts_props: "distinct (firsts xs)" "set (firsts xs) = set xs" "firsts [] = []"
  by (simp_all add: firsts_def)

definition listed :: "userConfig \<Rightarrow> (string \<Rightarrow> bool) \<Rightarrow> sshArgs \<Rightarrow> string list \<Rightarrow> sshHost list" where
  "listed uc r args as =
     map (\<lambda>a. promptHost uc (hostArgs uc r args a) a) (filter (\<lambda>a. \<not> wildcard a \<and> \<not> hidden uc r args a) (firsts as))"

lemma walk_listed:
  "hw_hosts (foldl (\<lambda>w pat. appendPattern uc r args pat w) \<lparr>hw_hosts = [], hw_seen = [], hw_wildcards = []\<rparr> ps) =
     listed uc r args (map fst ps) \<and>
   set (hw_seen (foldl (\<lambda>w pat. appendPattern uc r args pat w) \<lparr>hw_hosts = [], hw_seen = [], hw_wildcards = []\<rparr> ps)) = fst ` set ps"
proof (induction ps rule: rev_induct)
  case (snoc pat ps)
  then show ?case
    by (cases pat) (auto simp: appendPattern_def Let_def listed_def firsts_snoc wildcard_def hidden_def)
qed (simp add: listed_def firsts_props)

text \<open>The hosts of the list are exactly the names of the configuration files that have no wildcard and are not hidden, each once
  and in the order of their first occurrence, those of included files first and the user's file before the system's.\<close>

theorem prompt_hosts:
  "hw_hosts (getAllHosts uc r args config sysConfig) = listed uc r args (map fst (configured config @ configured sysConfig)) \<and>
   distinct (map h_Alias (hw_hosts (getAllHosts uc r args config sysConfig)))"
proof -
  have "getAllHosts uc r args config sysConfig =
      foldl (\<lambda>w pat. appendPattern uc r args pat w) \<lparr>hw_hosts = [], hw_seen = [], hw_wildcards = []\<rparr>
        (configured config @ configured sysConfig)"
    by (simp add: getAllHosts_def configured_def walk_foldl Let_def split: option.splits)
  then have "hw_hosts (getAllHosts uc r args config sysConfig) = listed uc r args (map fst (configured config @ configured sysConfig))"
    using walk_listed [of uc r args "configured config @ configured sysConfig"] by (simp del: foldl_append map_append)
  moreover have "map h_Alias (listed uc r args as) = filter (\<lambda>a. \<not> wildcard a \<and> \<not> hidden uc r args a) (firsts as)" for as
    by (simp add: listed_def comp_def promptHost_def Let_def)
  ultimately show ?thesis using firsts_props(1) by simp
qed

section \<open>No key has two meanings\<close>

text \<open>The cases of the loop in their order.\<close>

definition keyCases :: "selector \<Rightarrow> sshPrompt \<Rightarrow> string \<Rightarrow> bool list" where
  "keyCases sel p buf =
     [userQuit p buf, movePrev p buf, moveNext p buf, pageUp p buf, pageDown p buf, gotoHome p buf, gotoEnd p buf,
      toggleSelect p buf, selectAllItems p buf, selectOpposite p buf, toggleSearch p buf, toggleShortcuts p buf,
      addKeywords sel p buf, eraseKeywords p buf, fst (userConfirm p buf)]"

text \<open>The keys of each case, apart from the enter key, which two cases share.\<close>

definition keysOf :: "string list list" where
  "keysOf =
     map (\<lambda>(seqs, single). seqs @ map (\<lambda>c. [c]) single)
       [([], [CHR 0x03, CHR 0x11] @ ''qQ''), ([csi ''A'', csi ''Z''], [CHR 0x0B] @ ''kK''), ([csi ''B''], [CHR 0x09, CHR 0x0A] @ ''jJ''),
        ([csi ''D'', csi ''5~''], [CHR 0x08, CHR 0x15, CHR 0x02] @ ''hHuUbB''),
        ([csi ''C'', csi ''6~''], [CHR 0x0C, CHR 0x04, CHR 0x06] @ ''lLdDfF''), ([csi ''H'', csi ''1~''], ''g''), ([csi ''F'', csi ''4~''], ''G''),
        ([[CHR 0xC2, CHR 0xA0]], [CHR 0x00, CHR 0x18] @ '' xX''), ([], [CHR 0x01] @ ''aA''), ([], [CHR 0x0F] @ ''oO''),
        ([], [CHR 0x2F, CHR 0x1B]), ([], ''?''), ([], []), ([], [CHR 0x05] @ ''eE''),
        ([], [CHR 0x10, CHR 0x14, CHR 0x17] @ ''pPtTwW'')]"

lemma keysOf_distinct: "distinct (concat keysOf)"
  by code_simp

lemma one_of_disjoint:
  assumes "list_all2 (\<lambda>b ks. b \<longrightarrow> x \<in> set ks) bs kss" "distinct (concat kss)"
  shows "length (filter (\<lambda>b. b) bs) \<le> 1 \<and> (x \<notin> set (concat kss) \<longrightarrow> filter (\<lambda>b. b) bs = [])"
  using assms by (induction rule: list_all2_induct) (auto simp: disjoint_iff)

lemma pressed_keys: "pressed p seqs always plain buf \<Longrightarrow> buf \<in> set (seqs @ map (\<lambda>c. [c]) (always @ plain))"
  by (cases buf) (auto simp: pressed_def)

lemma pressed_enter: "CHR 0x0D \<notin> set (always @ plain) \<Longrightarrow> [CHR 0x0D] \<notin> set seqs \<Longrightarrow> \<not> pressed p seqs always plain [CHR 0x0D]"
  by (auto simp: pressed_def)

lemmas key_defs = userQuit_def movePrev_def moveNext_def pageUp_def pageDown_def gotoHome_def gotoEnd_def toggleSelect_def
  selectAllItems_def selectOpposite_def toggleShortcuts_def eraseKeywords_def

text \<open>No key has two meanings: whatever is read, in either mode and with or without a terminal manager, at most one case of the
  loop applies, so the order of the cases does not matter.\<close>

theorem prompt_keys_disjoint: "length (filter (\<lambda>b. b) (keyCases sel p buf)) \<le> 1"
proof (cases "buf = [CHR 0x0D]")
  case True
  then show ?thesis
    by (simp add: keyCases_def key_defs pressed_enter csi_def toggleSearch_def addKeywords_def userConfirm_def Let_def)
next
  case False
  have "list_all2 (\<lambda>b ks. b \<longrightarrow> buf \<in> set ks) (keyCases sel p buf) keysOf"
    using False pressed_keys [of p _ _ _ buf]
    by (cases buf) (auto simp: keyCases_def keysOf_def key_defs pressed_def toggleSearch_def addKeywords_def userConfirm_def Let_def
        split: if_splits)
  from one_of_disjoint [OF this keysOf_distinct] show ?thesis by simp
qed

section \<open>Search mode\<close>

text \<open>What the prompt relies on: in the list a slash toggles the search, two keys end it, and no other key
  changes the mode, in particular none of those that the prompt sends to move.\<close>

definition follows :: "prompt_keys \<Rightarrow> (bool \<Rightarrow> char \<Rightarrow> bool) \<Rightarrow> bool" where
  "follows pk mode \<longleftrightarrow>
     (\<forall>m. mode m (CHR 0x2F) = (\<not> m) \<and> \<not> mode m (KeySoftEnter pk) \<and> \<not> mode m (KeyCtrlE pk)) \<and>
     (\<forall>m c. c \<notin> {CHR 0x2F, KeySoftEnter pk, KeyCtrlE pk} \<longrightarrow> mode m c = m) \<and>
     (\<forall>m. \<forall>c\<in>{CharPrev pk, CharNext pk, CharBackward pk, CharForward pk, CharEnter pk, KeyRefresh pk}. mode m c = m)"

text \<open>A read of one key.\<close>

definition key_read :: "prompt_keys \<Rightarrow> string \<Rightarrow> bool" where
  "key_read pk buf \<longleftrightarrow> length buf = 1 \<and> (hd buf \<notin> {KeySoftEnter pk, KeyCtrlE pk} \<or> hd buf = CHR 0x05)"

lemma follows_simps:
  assumes "follows pk mode"
  shows "mode m (CharPrev pk) = m" "mode m (CharNext pk) = m" "mode m (CharBackward pk) = m" "mode m (CharForward pk) = m"
    "mode m (CharEnter pk) = m" "mode m (KeyRefresh pk) = m" "mode m (CHR 0x2F) = (\<not> m)" "mode m (KeySoftEnter pk) = False"
    "mode m (KeyCtrlE pk) = False"
  using assms by (simp_all add: follows_def)

lemma foldl_replicate: "mode m c = m \<Longrightarrow> foldl mode m (replicate n c) = m"
  by (induction n) simp_all

lemma userConfirm_search: "p_search (snd (userConfirm p buf)) = p_search p"
  by (simp add: userConfirm_def Let_def)

lemma raw_key:
  assumes "follows pk mode" "key_read pk buf" "\<not> toggleSearch p buf" "\<not> eraseKeywords p buf"
  shows "foldl mode m buf = m"
proof -
  obtain c where c: "buf = [c]" using assms(2) by (cases buf) (auto simp: key_read_def)
  then have "c \<noteq> CHR 0x2F" "c \<noteq> CHR 0x05"
    using assms(3,4) by (auto simp: toggleSearch_def eraseKeywords_def pressed_def)
  then have "c \<notin> {CHR 0x2F, KeySoftEnter pk, KeyCtrlE pk}" using assms(2) c by (auto simp: key_read_def)
  then show ?thesis using assms(1) c by (simp add: follows_def)
qed

lemma wrapKey_search:
  assumes "follows pk mode" "key_read pk buf"
  shows "case wrapKey pk n sel p err buf of (p', out, go) \<Rightarrow> p_search p' = foldl mode (p_search p) out"
proof -
  obtain yes p2 where c: "userConfirm p buf = (yes, p2)" by fastforce
  then have "p_search p2 = p_search p" using userConfirm_search [of p buf] by simp
  moreover have "\<not> toggleSearch p buf \<Longrightarrow> \<not> eraseKeywords p buf \<Longrightarrow> foldl mode (p_search p) buf = p_search p"
    using raw_key [OF assms] by blast
  ultimately show ?thesis by (simp add: wrapKey_def Let_def c foldl_replicate follows_simps [OF assms(1)])
qed

text \<open>The prompt and the list agree on whether a search is typed: when every read delivers one key, the mode that the prompt
  keeps is the mode that the list reaches with the bytes sent to it, after any sequence of keys.\<close>

theorem search_mode_in_sync:
  assumes "follows pk mode" "\<forall>(sel, err, buf)\<in>set es. key_read pk buf" "wrapLoop pk n p es = (p', outs, go)"
  shows "p_search p' = foldl mode (p_search p) (concat outs)"
  using assms(2,3)
proof (induction es arbitrary: p outs)
  case (Cons e es)
  obtain sel err buf where e: "e = (sel, err, buf)" by (cases e)
  obtain p1 out g where k: "wrapKey pk n sel p err buf = (p1, out, g)" by (cases "wrapKey pk n sel p err buf")
  have "p_search p1 = foldl mode (p_search p) out"
    using wrapKey_search [OF assms(1), of buf p n sel err] Cons.prems(1) e k by simp
  then show ?case using Cons e k by (auto split: if_splits prod.splits)
qed simp

text \<open>A slash that arrives together with other bytes in one read is passed on as it is, so the list toggles the search and the
  prompt does not: from then on the prompt takes typed letters for commands, or commands for letters.\<close>

theorem slash_in_chunk_out_of_sync:
  assumes "follows pk mode" "\<forall>m. mode m c = m"
  shows "wrapLoop pk n p [(sel, False, [CHR 0x2F, c])] = (p, [[CHR 0x2F, c]], True) \<and>
    p_search p \<noteq> foldl mode (p_search p) [CHR 0x2F, c]"
proof -
  have "wrapKey pk n sel p False [CHR 0x2F, c] = (p, [CHR 0x2F, c], True)"
    by (simp add: wrapKey_def Let_def key_defs pressed_def csi_def toggleSearch_def addKeywords_def userConfirm_def)
  then show ?thesis using assms by (simp add: follows_simps)
qed

text \<open>In search mode every printable character except a slash and a question mark is typed into the search, whatever it means as
  a command otherwise: it reaches the list unchanged, and mode, selection and the loop stay as they are.\<close>

theorem search_typing_lossless:
  assumes "p_search p" "32 \<le> (of_char c :: nat)" "of_char c < (127 :: nat)" "c \<noteq> CHR 0x2F" "c \<noteq> CHR ''?''"
  shows "\<exists>ot. wrapKey pk n sel p False [c] = (p\<lparr>p_openType := ot\<rparr>, [c], True)"
proof -
  have ctrl: "c \<noteq> d" if "(of_char d :: nat) < 32" for d using that assms(2) by auto
  have "\<not> userQuit p [c] \<and> \<not> movePrev p [c] \<and> \<not> moveNext p [c] \<and> \<not> pageUp p [c] \<and> \<not> pageDown p [c] \<and> \<not> gotoHome p [c] \<and>
      \<not> gotoEnd p [c] \<and> \<not> toggleSelect p [c] \<and> \<not> selectAllItems p [c] \<and> \<not> selectOpposite p [c] \<and> \<not> toggleSearch p [c] \<and>
      \<not> toggleShortcuts p [c] \<and> \<not> addKeywords sel p [c] \<and> \<not> eraseKeywords p [c]"
    using assms(1,4,5) by (simp add: key_defs pressed_def csi_def toggleSearch_def addKeywords_def ctrl)
  moreover obtain ot where "userConfirm p [c] = (False, p\<lparr>p_openType := ot\<rparr>)"
  proof -
    have "\<exists>ot. userConfirm p [c] = (False, p\<lparr>p_openType := ot\<rparr>)"
      using assms(1) exI [of "\<lambda>ot. p = p\<lparr>p_openType := ot\<rparr>" "p_openType p"]
      by (simp add: userConfirm_def Let_def ctrl) blast
    then show ?thesis using that by blast
  qed
  moreover have "c \<noteq> CHR 0x00" by (rule ctrl) simp
  ultimately show ?thesis by (auto simp: wrapKey_def Let_def)
qed

text \<open>A list that behaves as the prompt relies on.\<close>

definition demo_keys :: prompt_keys where
  "demo_keys = \<lparr>CharPrev = CHR 0x10, CharNext = CHR 0x0E, CharBackward = CHR 0x02, CharForward = CHR 0x06, CharEnter = CHR 0x0D,
     KeyRefresh = CHR 0x12, KeySoftEnter = CHR 0x1E, KeyCtrlE = CHR 0x05\<rparr>"

definition demo_mode :: "bool \<Rightarrow> char \<Rightarrow> bool" where
  "demo_mode m c = (if c = CHR 0x2F then \<not> m else if c = CHR 0x1E \<or> c = CHR 0x05 then False else m)"

definition demo_prompt :: sshPrompt where
  "demo_prompt = \<lparr>p_hosts = [demo_host], p_termMgr = True, p_openType = openTermDefault, p_showShortcuts = False, p_search = False,
     p_quit = False\<rparr>"

definition demo_sel :: selector where
  "demo_sel = \<lparr>GetVisibleItems = [0], GetVisibleSize = 1, GetCurrentIndex = 0\<rparr>"

lemma demo_follows: "follows demo_keys demo_mode"
  by (simp add: follows_def demo_keys_def demo_mode_def)

lemma demo_typed:
  "wrapLoop demo_keys 10 demo_prompt [(demo_sel, False, ''/''), (demo_sel, False, ''q''), (demo_sel, False, [CHR 0x0D])] =
     (demo_prompt, [''/'', ''q'', [CHR 0x1E]], True)"
  by (simp add: wrapKey_def Let_def key_defs pressed_def csi_def toggleSearch_def addKeywords_def userConfirm_def demo_prompt_def
      demo_sel_def demo_host_def hasSelected_def demo_keys_def)

theorem search_mode_in_sync_witness: "p_search demo_prompt = foldl demo_mode False (concat [''/'', ''q'', [CHR 0x1E]])"
proof -
  have "\<forall>(sel, err, buf)\<in>set [(demo_sel, False, ''/''), (demo_sel, False, ''q''), (demo_sel, False, [CHR 0x0D])]. key_read demo_keys buf"
    by (simp add: key_read_def demo_keys_def)
  from search_mode_in_sync [OF demo_follows this demo_typed] show ?thesis by (simp add: demo_prompt_def)
qed

theorem slash_in_chunk_out_of_sync_witness:
  "wrapLoop demo_keys 10 demo_prompt [(demo_sel, False, ''/q'')] = (demo_prompt, [''/q''], True) \<and>
     p_search demo_prompt \<noteq> foldl demo_mode (p_search demo_prompt) ''/q''"
  by (rule slash_in_chunk_out_of_sync [OF demo_follows]) (simp add: demo_mode_def)

theorem search_typing_lossless_witness:
  "\<exists>ot. wrapKey demo_keys 10 demo_sel (demo_prompt\<lparr>p_search := True\<rparr>) False ''q'' =
     (demo_prompt\<lparr>p_search := True, p_openType := ot\<rparr>, ''q'', True)"
  by (rule search_typing_lossless) simp_all

section \<open>The result\<close>

text \<open>A confirmed choice gives the first of the selected hosts, or the current one when none is selected; all selected hosts are opened
  when there is a terminal manager and more than one.  It does not panic when the list returns the number of one of its hosts.\<close>

theorem chosen_alias:
  assumes "\<not> p_quit p" "0 \<le> idx" "idx < int (length (p_hosts p))"
  shows "\<exists>h hs. getSelected idx p = h # hs \<and> (if hasSelected p then h # hs = filter h_Selected (p_hosts p) else [h] = [p_hosts p ! nat idx] \<and> hs = []) \<and>
    chosenAlias p (Inr idx) = Some (Inr (h_Alias h, False), if hs \<noteq> [] \<and> p_termMgr p then Some (p_openType p, h # hs) else None)"
proof -
  have "getSelected idx p \<noteq> []" using assms(2,3) by (simp add: getSelected_def Let_def)
  then obtain h hs where s: "getSelected idx p = h # hs" by (cases "getSelected idx p") auto
  then have "if hasSelected p then h # hs = filter h_Selected (p_hosts p) else [h] = [p_hosts p ! nat idx] \<and> hs = []"
    using assms(2,3) by (auto simp: getSelected_def hasSelected_def Let_def list_ex_iff filter_empty_conv split: if_splits)
  then show ?thesis using s assms(1) by (simp add: chosenAlias_def)
qed

section \<open>Panes\<close>

lemma last_ge: "sorted xs \<Longrightarrow> x \<in> set xs \<Longrightarrow> x \<le> last xs"
  by (induction xs) auto

lemma isqrt_bounds: "isqrt n * isqrt n \<le> n" "n > 0 \<Longrightarrow> 0 < isqrt n"
proof -
  let ?xs = "filter (\<lambda>k. k * k \<le> n) [0..<Suc n]"
  have "0 \<in> set ?xs" by (simp del: upt_Suc)
  then have "?xs \<noteq> []" by (metis empty_iff empty_set)
  then have "isqrt n \<in> set ?xs" unfolding isqrt_def by (rule last_in_set)
  then show "isqrt n * isqrt n \<le> n" by (simp del: upt_Suc)
  assume "n > 0"
  then have "1 \<in> set ?xs" by (simp del: upt_Suc)
  then have "1 \<le> last ?xs" by (intro last_ge) (simp_all add: sorted_wrt_filter del: upt_Suc)
  then show "0 < isqrt n" by (simp add: isqrt_def)
qed

text \<open>How often each remainder occurs among the numbers below \<open>n\<close>.\<close>

lemma mod_zero_below: "0 < x \<Longrightarrow> x < 2 * r \<Longrightarrow> (x mod r = 0) = (x = (r :: nat))"
proof
  assume a: "0 < x" "x < 2 * r" "x mod r = 0"
  then have "x = r * (x div r)" by auto
  moreover have "x div r < 2" using a(2) by (simp add: less_mult_imp_div_less)
  ultimately show "x = r" using a(1) by (cases "x div r") (auto simp: numeral_2_eq_2)
qed simp

lemma count_remainders:
  assumes "0 < r"
  shows "foldl (\<lambda>cols i. cols[i mod r := cols ! (i mod r) + 1]) (replicate r 0) [0..<n] = map (\<lambda>j. (n + r - 1 - j) div r) [0..<r]"
proof (induction n)
  case 0
  have "(r - 1 - j) div r = 0" if "j < r" for j using that by simp
  then show ?case by (auto intro!: nth_equalityI)
next
  case (Suc n)
  have step: "(Suc n + r - 1 - j) div r = (n + r - 1 - j) div r + (if n mod r = j then 1 else 0)" if "j < r" for j
  proof -
    have eq: "Suc n + r - 1 - j = Suc (n + r - 1 - j)" "Suc (n + r - 1 - j) = n + (r - j)" using that by simp_all
    have "(n + (r - j)) mod r = (n mod r + (r - j)) mod r" by (simp add: mod_add_left_eq)
    moreover have "(n mod r + (r - j)) mod r = 0 \<longleftrightarrow> n mod r + (r - j) = r"
      using that assms mod_less_divisor [OF assms, of n] by (intro mod_zero_below) linarith+
    moreover have "n mod r + (r - j) = r \<longleftrightarrow> n mod r = j" using that by linarith
    ultimately have "Suc (n + r - 1 - j) mod r = 0 \<longleftrightarrow> n mod r = j" unfolding eq(2) by simp
    then show ?thesis unfolding eq(1) div_Suc by simp
  qed
  have "map (\<lambda>j. (Suc n + r - 1 - j) div r) [0..<r] = map (\<lambda>j. (n + r - 1 - j) div r + (if n mod r = j then 1 else 0)) [0..<r]"
    using step by (intro map_cong) simp_all
  also have "\<dots> = (map (\<lambda>j. (n + r - 1 - j) div r) [0..<r])[n mod r := map (\<lambda>j. (n + r - 1 - j) div r) [0..<r] ! (n mod r) + 1]"
    using assms by (intro nth_equalityI) (auto simp: nth_list_update)
  finally show ?case using Suc by simp
qed

lemma takeRows_concat: "sum_list cs = length hs \<Longrightarrow> concat (takeRows cs hs) = hs \<and> map length (takeRows cs hs) = cs"
  by (induction cs hs rule: takeRows.induct) auto


text \<open>The layout of panes has every host once and in order, in as many rows as the integer square root of their number, and the lengths
  of two rows differ by at most one, the longer ones first.\<close>

theorem panes_layout:
  "concat (getPanesMatrix hosts) = map h_Alias hosts \<and> length (getPanesMatrix hosts) = isqrt (length hosts) \<and>
   (\<forall>i j. i < j \<longrightarrow> j < isqrt (length hosts) \<longrightarrow>
      length (getPanesMatrix hosts ! j) \<le> length (getPanesMatrix hosts ! i) \<and>
      length (getPanesMatrix hosts ! i) \<le> length (getPanesMatrix hosts ! j) + 1)"
proof -
  let ?n = "length hosts" and ?r = "isqrt (length hosts)"
  let ?f = "\<lambda>(cols :: nat list) i. cols[i mod ?r := cols ! (i mod ?r) + 1]"
  define cols :: "nat list" where "cols = foldl ?f (replicate ?r 0) [0..<?n]"
  have m: "getPanesMatrix hosts = takeRows cols (map h_Alias hosts)" by (simp add: getPanesMatrix_def cols_def Let_def)
  have "length (foldl ?f (replicate ?r 0) [0..<k]) = ?r \<and> (sum_list (foldl ?f (replicate ?r 0) [0..<k]) = k)" if "k \<le> ?n" for k
    using that
  proof (induction k)
    case (Suc k)
    then have "0 < ?r" using isqrt_bounds(2) [of ?n] by linarith
    then show ?case using Suc by (simp add: sum_list_update member_le_sum_list)
  qed simp
  then have c: "length cols = ?r" "sum_list cols = length (map h_Alias hosts)" by (simp_all add: cols_def)
  note t = takeRows_concat [OF c(2)]
  have len: "length (getPanesMatrix hosts ! k) = cols ! k" if "k < ?r" for k
    using t c(1) that m by (metis length_map nth_map)
  have "cols ! j \<le> cols ! i \<and> cols ! i \<le> cols ! j + 1" if "i < j" "j < ?r" for i j
  proof -
    have e: "cols ! k = (?n + ?r - 1 - k) div ?r" if "k < ?r" for k
      using count_remainders [of ?r ?n] that by (simp add: cols_def)
    have "(?n + ?r - 1 - i) div ?r \<le> (?n + ?r - 1 - j + ?r) div ?r" using that by (intro div_le_mono) simp
    moreover have "(?n + ?r - 1 - j) div ?r \<le> (?n + ?r - 1 - i) div ?r" using that by (intro div_le_mono) simp
    moreover have "(?n + ?r - 1 - j + ?r) div ?r = (?n + ?r - 1 - j) div ?r + 1" using that by (intro div_add_self2) simp
    ultimately show ?thesis using e [of i] e [of j] that by linarith
  qed
  then show ?thesis using t m c(1) len by (metis length_map less_trans)
qed


theorem panes_layout_witness: "length (getPanesMatrix (replicate 5 demo_host) ! 1) \<le> length (getPanesMatrix (replicate 5 demo_host) ! 0)"
proof -
  have "isqrt (length (replicate 5 demo_host)) = 2" by code_simp
  then show ?thesis using panes_layout [of "replicate 5 demo_host"] by force
qed

end
