(* ===== verification/Tmux.thy ===== *)
theory Tmux
  imports GoHash
begin

text \<open>
  \<open>tssh/tmuxcc.go\<close> and the input side of \<open>tssh/notif.go\<close>: while the connection is lost, what the terminal sends in the control mode of
  tmux is decoded here, and notices are written as output of a pane.  The time stamps of the acknowledgements are left out:
  only their number counts.
\<close>

section \<open>Output\<close>

definition octal :: "nat \<Rightarrow> string" where
  "octal n = map (\<lambda>d. char_of (48 + d)) [n div 64 mod 8, n div 8 mod 8, n mod 8]"

definition tmuxByte :: "char \<Rightarrow> string" where
  "tmuxByte b =
     (let n = (of_char b :: nat) in if n < 32 \<or> b = CHR 0x5C \<or> n > 126 then CHR 0x5C # octal n else [b])"

definition writeTmuxOutput :: "string \<Rightarrow> string \<Rightarrow> string" where
  "writeTmuxOutput output paneId =
     ''%output %'' @ paneId @ '' '' @ concat (map tmuxByte output) @ [CHR 0x0D, CHR 0x0A]"

section \<open>Input\<close>

text \<open>\<open>strconv.ParseUint(s, 16, 8)\<close>.\<close>

definition ParseHex8 :: "string \<Rightarrow> nat option" where
  "ParseHex8 s =
     (case those (map hex_val s) of
        None \<Rightarrow> None
      | Some ds \<Rightarrow> let v = foldl (\<lambda>a d. 16 * a + d) 0 ds in if ds = [] \<or> v > 255 then None else Some v)"

definition hexInput :: "string \<Rightarrow> string" where
  "hexInput hex =
     (if HasPrefix hex ''0x'' then (case ParseHex8 (drop 2 hex) of None \<Rightarrow> [] | Some v \<Rightarrow> [char_of v]) else [])"

record tmuxDecoded =
  td_input :: string
  td_paneId :: string
  td_detach :: bool
  td_acks :: nat

definition tmuxCommand :: "tmuxDecoded \<Rightarrow> string \<Rightarrow> tmuxDecoded" where
  "tmuxCommand st cmd =
     (let tokens = Fields (TrimSpace cmd);
          st1 = st\<lparr>td_acks := td_acks st + 1, td_detach := td_detach st \<or> tokens \<noteq> [] \<and> hd tokens = ''detach''\<rparr> in
      case tokens of
        name # flag # target # args \<Rightarrow>
          if name = ''send'' then
            (if flag = ''-lt'' then
               st1\<lparr>td_paneId := target, td_input := td_input st1 @ (case args of [] \<Rightarrow> [] | a # _ \<Rightarrow> a)\<rparr>
             else if flag = ''-t'' then
               st1\<lparr>td_paneId := target, td_input := td_input st1 @ concat (map hexInput args)\<rparr>
             else st1)
          else if name = ''select-pane'' \<or> name = ''display-message'' then
            (if flag = ''-t'' then st1\<lparr>td_paneId := target\<rparr> else st1)
          else st1
      | _ \<Rightarrow> st1)"

definition tmuxLine :: "tmuxDecoded \<Rightarrow> string \<Rightarrow> tmuxDecoded" where
  "tmuxLine st part = foldl tmuxCommand st (Split part (CHR '';''))"

definition tmuxPane :: "string \<Rightarrow> string" where
  "tmuxPane paneId0 =
     (let p = TrimSet paneId0 {CHR 0x22, CHR 0x27};
          q = (case p of [] \<Rightarrow> [] | c # r \<Rightarrow> if c = CHR ''%'' then r else []) in
      if q \<noteq> [] \<and> ParseUint q 32 = None then [] else q)"

text \<open>The decoded commands, and the rest after the last carriage return, which is nil when it is empty.\<close>

definition handleAndDecodeTmuxInput :: "string \<Rightarrow> tmuxDecoded \<times> string option" where
  "handleAndDecodeTmuxInput buf =
     (let parts = Split buf (CHR 0x0D);
          st = foldl tmuxLine \<lparr>td_input = [], td_paneId = [], td_detach = False, td_acks = 0\<rparr> (butlast parts);
          lst = last parts in
      (st\<lparr>td_paneId := tmuxPane (td_paneId st)\<rparr>, if lst = [] then None else Some lst))"

text \<open>The acknowledgements for input that was discarded while tmux integration is running.\<close>

definition handleTmuxDiscardedInput :: "bool \<Rightarrow> string \<Rightarrow> nat" where
  "handleTmuxDiscardedInput running discarded =
     (if discarded = [] \<or> \<not> running then 0 else length (filter (\<lambda>b. b = CHR '';'' \<or> b = CHR 0x0D) discarded))"

text \<open>The pane and the columns, from the variables of the session, if they could be read.\<close>

definition getTmuxPaneIdAndColumns :: "string list result \<Rightarrow> string \<times> nat" where
  "getTmuxPaneIdAndColumns values =
     (case values of
        Inr [pane, columns] \<Rightarrow>
          if pane \<noteq> ''null'' \<and> ParseUint pane 32 = None then ([], 0)
          else let paneId = (if pane = ''null'' then [] else pane) in
            (case ParseUint columns 32 of None \<Rightarrow> (paneId, 0) | Some n \<Rightarrow> (paneId, n))
      | _ \<Rightarrow> ([], 0))"

section \<open>The interceptor\<close>

text \<open>The read buffer is one block of memory that every read fills from its start; the rest of an incomplete line is a slice of it,
  with its start and its length.\<close>

record interceptor =
  ni_mem :: string
  ni_left :: "(nat \<times> nat) option"
  ni_tmux :: bool
  ni_paneId :: "string option"
  ni_keys :: string
  ni_cursorPos :: "string option"
  ni_acks :: nat
  ni_exit :: bool

definition slice :: "string \<Rightarrow> nat \<times> nat \<Rightarrow> string" where
  "slice mem s = (case s of (start, n) \<Rightarrow> take n (drop start mem))"

text \<open>What is done with the decoded bytes: a single key is passed on when the channel takes it, and a report of the cursor position is
  kept.\<close>

definition takeInput :: "string \<Rightarrow> interceptor \<Rightarrow> interceptor" where
  "takeInput buf ni =
     (let n = length buf in
      if n = 1 then ni\<lparr>ni_keys := ni_keys ni @ buf\<rparr>
      else if n > 5 \<and> buf ! 0 = CHR 0x1B \<and> buf ! 1 = CHR ''['' \<and> buf ! (n - 1) = CHR ''R''
      then ni\<lparr>ni_cursorPos := Some (take (n - 3) (drop 2 buf))\<rparr>
      else ni)"

text \<open>The bytes of \<open>append(left, buf...)\<close>, the memory after it and where the result lies: in place when the block has room behind the
  left bytes, and in a block of its own otherwise, of which no slice is modelled.\<close>

definition appendLeft :: "string \<Rightarrow> (nat \<times> nat) option \<Rightarrow> nat \<Rightarrow> string \<times> string \<times> nat option" where
  "appendLeft mem left n =
     (case left of
        None \<Rightarrow> (take n mem, mem, Some 0)
      | Some (start, l) \<Rightarrow>
          let buf = take n mem; bytes = slice mem (start, l) @ buf in
          if start + l + n \<le> length mem then (bytes, take (start + l) mem @ buf @ drop (start + l + n) mem, Some start)
          else (bytes, mem, None))"

text \<open>\<open>handleUserInput\<close> on the first \<open>n\<close> bytes of the memory; the model stops when the rest lies in a block of its own.\<close>

definition handleUserInput :: "nat \<Rightarrow> interceptor \<Rightarrow> interceptor option" where
  "handleUserInput n ni =
     (if \<not> ni_tmux ni then Some (takeInput (take n (ni_mem ni)) (ni\<lparr>ni_left := None\<rparr>))
      else case appendLeft (ni_mem ni) (ni_left ni) n of (bytes, mem, at) \<Rightarrow>
        (case handleAndDecodeTmuxInput bytes of (st, rest) \<Rightarrow>
           let ni1 = ni\<lparr>ni_mem := mem, ni_acks := ni_acks ni + td_acks st,
                 ni_left := (case rest of None \<Rightarrow> None | Some r \<Rightarrow> Some (the at + length bytes - length r, length r))\<rparr> in
           if rest \<noteq> None \<and> at = None then None
           else if td_detach st then Some (ni1\<lparr>ni_exit := True\<rparr>)
           else if td_paneId st = [] then Some ni1
           else (case ni_paneId ni1 of
               None \<Rightarrow> Some (takeInput (td_input st) (ni1\<lparr>ni_paneId := Some (td_paneId st)\<rparr>))
             | Some p \<Rightarrow> Some (if p \<noteq> td_paneId st then ni1 else takeInput (td_input st) ni1))))"

text \<open>A read of the loop of \<open>forwardInput\<close> while input is intercepted.\<close>

definition interceptRead :: "string \<Rightarrow> interceptor \<Rightarrow> interceptor option" where
  "interceptRead data ni =
     handleUserInput (length data) (ni\<lparr>ni_mem := data @ drop (length data) (ni_mem ni)\<rparr>)"

section \<open>Output is restored\<close>

text \<open>What a client of the control mode does with the output of a pane: three octal digits after a backslash are one byte.\<close>

fun undoOctal :: "string \<Rightarrow> string" where
  "undoOctal [] = []"
| "undoOctal (c # s) =
     (if c = CHR 0x5C \<and> length s \<ge> 3
      then char_of (64 * (of_char (s ! 0) - 48) + 8 * (of_char (s ! 1) - 48) + (of_char (s ! 2) - 48 :: nat)) # undoOctal (drop 3 s)
      else c # undoOctal s)"

lemma of_octal_digit: "d < 8 \<Longrightarrow> (of_char (char_of (48 + d :: nat)) :: nat) = 48 + d"
  by simp

lemma octal_value: "64 * (n div 64) + 8 * (n div 8 mod 8) + n mod 8 = (n :: nat)"
proof -
  have "n mod 64 = 8 * (n div 8 mod 8) + n mod 8" using mod_mult2_eq [of n 8 8] by simp
  moreover have "64 * (n div 64) + n mod 64 = n" by simp
  ultimately show ?thesis by linarith
qed

lemma undoOctal_byte: "undoOctal (tmuxByte b @ s) = b # undoOctal s"
proof (cases "(of_char b :: nat) < 32 \<or> b = CHR 0x5C \<or> of_char b > (126 :: nat)")
  case True
  have "(of_char b :: nat) < 256" by (metis of_char_mod_256 mod_less_divisor zero_less_numeral)
  then have "(of_char b :: nat) div 64 < 8" using less_mult_imp_div_less [of "of_char b" 8 64] by linarith
  then have "(of_char b :: nat) div 64 mod 8 = of_char b div 64" by (rule mod_less)
  then show ?thesis using True octal_value [of "of_char b"]
    by (simp add: tmuxByte_def Let_def octal_def numeral_3_eq_3 numeral_2_eq_2 add.assoc)
qed (simp add: tmuxByte_def Let_def)

lemma tmuxByte_printable: "c \<in> set (tmuxByte b) \<Longrightarrow> 32 \<le> (of_char c :: nat) \<and> (of_char c :: nat) \<le> 126"
  by (auto simp: tmuxByte_def octal_def Let_def split: if_splits)

text \<open>Any output, of any bytes, is restored exactly by a client that undoes the octal escapes, and its encoding has only printable
  characters, so it cannot end the line or add a command of its own.\<close>

theorem tmux_output_restored:
  "writeTmuxOutput output paneId = ''%output %'' @ paneId @ '' '' @ concat (map tmuxByte output) @ [CHR 0x0D, CHR 0x0A] \<and>
   undoOctal (concat (map tmuxByte output)) = output \<and>
   list_all (\<lambda>c. 32 \<le> (of_char c :: nat) \<and> (of_char c :: nat) \<le> 126) (concat (map tmuxByte output))"
proof -
  have "undoOctal (concat (map tmuxByte output)) = output"
    by (induction "output") (simp_all add: undoOctal_byte)
  then show ?thesis using tmuxByte_printable by (auto simp: writeTmuxOutput_def list_all_iff)
qed

section \<open>Input in pieces\<close>

lemma Split_snoc: "Split (a @ b) c = butlast (Split a c) @ Split (last (Split a c) @ b) c"
proof (induction a)
  case (Cons x a)
  show ?case
  proof (cases "x = c")
    case False
    obtain p ps where "Split a c = p # ps" by (cases "Split a c") auto
    then show ?thesis using Cons False by (cases ps) (auto split: list.splits)
  qed (use Cons in simp)
qed simp

abbreviation td_none :: tmuxDecoded where
  "td_none \<equiv> \<lparr>td_input = [], td_paneId = [], td_detach = False, td_acks = 0\<rparr>"

definition shifted :: "tmuxDecoded \<Rightarrow> tmuxDecoded \<Rightarrow> tmuxDecoded \<Rightarrow> bool" where
  "shifted st d st' \<longleftrightarrow> td_input st' = td_input st @ td_input d \<and> td_detach st' = (td_detach st \<or> td_detach d) \<and>
     td_acks st' = td_acks st + td_acks d"

lemma shifted_command: "shifted st (tmuxCommand td_none cmd) (tmuxCommand st cmd)"
  by (auto simp: shifted_def tmuxCommand_def Let_def split: list.splits)

lemma shifted_trans: "shifted st d st' \<Longrightarrow> shifted d e d' \<Longrightarrow> shifted st' e st'' \<Longrightarrow> shifted st d' st''"
  by (auto simp: shifted_def)

lemma shifted_fold:
  assumes "\<And>st x. shifted st (f td_none x) (f st x)"
  shows "shifted st (foldl f td_none xs) (foldl f st xs)"
proof (induction xs rule: rev_induct)
  case (snoc x xs)
  let ?d = "foldl f td_none xs"
  from shifted_trans [OF snoc.IH assms [of ?d x] assms [of "foldl f st xs" x]] show ?case by simp
qed (simp add: shifted_def)

lemma shifted_line: "shifted st (tmuxLine td_none part) (tmuxLine st part)"
  unfolding tmuxLine_def by (rule shifted_fold) (rule shifted_command)

lemma shifted_lines: "shifted st (foldl tmuxLine td_none parts) (foldl tmuxLine st parts)"
  by (rule shifted_fold) (rule shifted_line)

definition rest_of :: "string option \<Rightarrow> string" where
  "rest_of r = (case r of None \<Rightarrow> [] | Some s \<Rightarrow> s)"


section \<open>Keys sent by the terminal\<close>

lemma TrimSpace_edges:
  assumes "ascii s" "s = [] \<or> \<not> IsSpace [hd s] \<and> \<not> IsSpace [last s]"
  shows "TrimSpace s = s"
proof -
  have "\<not> HasPrefix s r \<and> \<not> HasSuffix s r" if r: "r \<in> set space_runes" for r
  proof (cases "ascii r")
    case True
    then obtain c where c: "r = [c]" "IsSpace [c]" using space_rune_cases [OF r] by blast
    have "\<not> HasPrefix s [c]" using assms(2) c(2) by (cases s) (auto simp: HasPrefix_prefix)
    moreover have "\<not> HasSuffix s [c]" using assms(2) c(2) by (cases s rule: rev_cases) (auto simp: HasSuffix_def HasPrefix_prefix)
    ultimately show ?thesis using c(1) by simp
  next
    case False
    then have "\<not> set r \<subseteq> set s" using assms(1) by (auto simp: ascii_def)
    then show ?thesis by (auto simp: HasSuffix_def HasPrefix_prefix dest!: set_mono_prefix)
  qed
  then have "find (HasPrefix s) space_runes = None" "find (HasSuffix s) space_runes = None" by (simp_all add: find_None_iff)
  then show ?thesis by (simp add: TrimSpace_def TrimLeftSpace.simps [of s] TrimRightSpace.simps [of s])
qed

lemma fields_aux_append: "solid w \<Longrightarrow> fields_aux acc (map (\<lambda>c. ([c], [c])) w @ rs) = fields_aux (acc @ w) rs"
  by (induction w arbitrary: acc) (auto simp: solid_def)

lemma space_is_space: "IsSpace '' ''"
  by code_simp

definition word :: "string \<Rightarrow> bool" where
  "word w \<longleftrightarrow> solid w \<and> w \<noteq> []"

lemma fields_aux_words:
  "\<forall>w\<in>set ws. word w \<Longrightarrow> fields_aux [] (map (\<lambda>c. ([c], [c])) (Join ws '' '')) = ws"
  by (induction ws "'' ''" rule: Join.induct) (auto simp: word_def fields_aux_append space_is_space fields_aux_solid)

lemma ascii_words: "\<forall>w\<in>set ws. word w \<Longrightarrow> ascii (Join ws '' '')"
  by (induction ws "'' ''" rule: Join.induct) (auto simp: word_def solid_def)

lemma Fields_words:
  assumes "\<forall>w\<in>set ws. word w"
  shows "Fields (TrimSpace (Join ws '' '')) = ws"
proof -
  have "Join ws '' '' = [] \<or> \<not> IsSpace [hd (Join ws '' '')] \<and> \<not> IsSpace [last (Join ws '' '')]"
    using assms
  proof (induction ws "'' ''" rule: Join.induct)
    case (3 x y ys)
    then show ?case by (cases ys) (auto simp: word_def solid_def)
  qed (auto simp: word_def solid_def)
  then show ?thesis
    using TrimSpace_edges [OF ascii_words [OF assms]] fields_aux_words [OF assms] ascii_words [OF assms]
    by (simp add: Fields_def range_runes_ascii)
qed

section \<open>Acknowledgements\<close>

definition separators :: "string \<Rightarrow> nat" where
  "separators s = length (filter (\<lambda>b. b = CHR '';'' \<or> b = CHR 0x0D) s)"

lemma length_Split_count: "length (Split s c) = Suc (count_list s c)"
  by (induction s) (auto split: list.splits)

lemma acks_command: "td_acks (tmuxCommand st cmd) = td_acks st + 1"
  by (auto simp: tmuxCommand_def Let_def split: list.splits)

lemma acks_line: "td_acks (tmuxLine st part) = td_acks st + Suc (count_list part (CHR '';''))"
proof -
  have "td_acks (foldl tmuxCommand st cs) = td_acks st + length cs" for cs
    by (induction cs arbitrary: st) (simp_all add: acks_command)
  then show ?thesis by (simp add: tmuxLine_def length_Split_count)
qed

text \<open>Every command is acknowledged once: the number of acknowledgements is the number of semicolons and carriage returns in the
  complete lines, the same number as when the input was discarded.\<close>

theorem tmux_acks:
  assumes "handleAndDecodeTmuxInput buf = (st, r)" "buf \<noteq> []"
  shows "td_acks st + separators (rest_of r) = handleTmuxDiscardedInput True buf"
proof -
  let ?ps = "Split buf (CHR 0x0D)"
  have fold: "td_acks (foldl tmuxLine st0 ps) = td_acks st0 + (\<Sum>p\<leftarrow>ps. Suc (count_list p (CHR '';'')))" for st0 ps
    by (induction ps arbitrary: st0) (simp_all add: acks_line)
  have sep: "separators p = count_list p (CHR '';'')" if "CHR 0x0D \<notin> set p" for p
    using that by (induction p) (auto simp: separators_def)
  have join: "separators (Join ps [CHR 0x0D]) = (\<Sum>p\<leftarrow>butlast ps. Suc (count_list p (CHR '';''))) + separators (last ps)"
    if "ps \<noteq> []" "\<forall>p\<in>set ps. CHR 0x0D \<notin> set p" for ps
    using that
  proof (induction ps "[CHR 0x0D]" rule: Join.induct)
    case (3 x y ys)
    then show ?case using sep [of x] by (simp add: separators_def)
  qed simp_all
  have "separators buf = td_acks st + separators (rest_of r)"
    using join [of ?ps] Split_parts [of _ buf "CHR 0x0D"] assms(1) fold
    by (auto simp: handleAndDecodeTmuxInput_def Let_def rest_of_def)
  then show ?thesis using assms(2) by (simp add: handleTmuxDiscardedInput_def separators_def)
qed

text \<open>The command by which the terminal sends bytes to a pane.\<close>

definition hexToken :: "char \<Rightarrow> string" where
  "hexToken c = ''0x'' @ [hex_digit (of_char c div 16), hex_digit (of_char c mod 16)]"

definition sendCommand :: "nat \<Rightarrow> string \<Rightarrow> string" where
  "sendCommand pane keys = Join ([''send'', ''-t'', CHR ''%'' # utoa pane] @ map hexToken keys) '' '' @ [CHR 0x0D]"

definition plain :: "char \<Rightarrow> bool" where
  "plain c \<longleftrightarrow> 33 \<le> (of_char c :: nat) \<and> (of_char c :: nat) < 127 \<and> c \<noteq> CHR '';'' \<and> c \<noteq> CHR 0x22 \<and> c \<noteq> CHR 0x27"

lemma plain_word: "w \<noteq> [] \<Longrightarrow> list_all plain w \<Longrightarrow> word w"
  using IsSpace_small by (fastforce simp: word_def solid_def ascii_def list_all_iff plain_def)

lemma digit_plain: "is_digit c \<Longrightarrow> plain c"
  by (auto simp: plain_def is_digit_def byte_in_def)

lemma utoa_plain: "list_all plain (utoa n)"
  using list_all_digit_utoa [of n] digit_plain by (auto simp: list_all_iff)

lemma hex_digit_plain: "n < 16 \<Longrightarrow> plain (hex_digit n)"
  using hex_digit_safe [of n] by (auto simp: plain_def byte_in_def)

lemma char_halves: "(of_char c :: nat) div 16 < 16" "(of_char c :: nat) mod 16 < 16"
proof -
  have "(of_char c :: nat) < 256" by (metis of_char_mod_256 mod_less_divisor zero_less_numeral)
  then show "(of_char c :: nat) div 16 < 16" using less_mult_imp_div_less [of "of_char c" 16 16] by linarith
qed simp

lemma hexToken_plain: "list_all plain (hexToken c)"
  using hex_digit_plain char_halves by (simp add: hexToken_def) (simp add: plain_def)

lemma hexInput_token: "hexInput (hexToken c) = [c]"
proof -
  have "ParseHex8 [hex_digit (of_char c div 16), hex_digit (of_char c mod 16)] = Some (16 * (of_char c div 16) + of_char c mod 16)"
    using char_halves [of c] by (simp add: ParseHex8_def hex_val_digit Let_def)
  then show ?thesis by (simp add: hexInput_def hexToken_def HasPrefix_def)
qed

lemma Join_chars: "c \<in> set (Join ws '' '') \<Longrightarrow> c = CHR '' '' \<or> (\<exists>w\<in>set ws. c \<in> set w)"
  by (induction ws "'' ''" rule: Join.induct) auto

lemma TrimSet_none: "set s \<inter> cs = {} \<Longrightarrow> TrimSet s cs = s"
proof -
  assume s: "set s \<inter> cs = {}"
  have "dropWhile (\<lambda>c. c \<in> cs) xs = xs" if "set xs \<inter> cs = {}" for xs
    using that by (cases xs) auto
  from this [of s] this [of "rev s"] s show ?thesis by (simp add: TrimSet_def TrimLeftSet_def TrimRightSet_def)
qed

lemma tmuxPane_utoa:
  assumes "pane < 2 ^ 32"
  shows "tmuxPane (CHR ''%'' # utoa pane) = utoa pane"
proof -
  have "CHR 0x22 \<notin> set (utoa pane)" "CHR 0x27 \<notin> set (utoa pane)"
    using utoa_plain [of pane] by (auto simp: list_all_iff plain_def)
  then have "TrimSet (CHR ''%'' # utoa pane) {CHR 0x22, CHR 0x27} = CHR ''%'' # utoa pane" by (intro TrimSet_none) simp
  then show ?thesis using ParseUint_utoa [OF assms] by (simp add: tmuxPane_def Let_def)
qed

lemma decode_sendCommand:
  assumes "pane < 2 ^ 32"
  shows "handleAndDecodeTmuxInput (sendCommand pane keys) =
    (\<lparr>td_input = keys, td_paneId = utoa pane, td_detach = False, td_acks = 1\<rparr>, None)"
proof -
  let ?ws = "[''send'', ''-t'', CHR ''%'' # utoa pane] @ map hexToken keys"
  let ?body = "Join ?ws '' ''"
  have "list_all plain ''send''" "list_all plain ''-t''" "plain (CHR ''%'')" by (simp_all add: plain_def)
  then have plain: "\<forall>w\<in>set ?ws. list_all plain w \<and> w \<noteq> []"
    using utoa_plain [of pane] hexToken_plain by (simp add: hexToken_def)
  then have "\<forall>w\<in>set ?ws. word w" using plain_word by blast
  then have tokens: "Fields (TrimSpace ?body) = ?ws" by (rule Fields_words)
  have not_plain: "\<not> plain (CHR '';'')" "\<not> plain (CHR 0x0D)" "CHR '';'' \<noteq> CHR '' ''" "CHR 0x0D \<noteq> CHR '' ''"
    by (simp_all add: plain_def)
  have "CHR '';'' \<notin> set ?body" "CHR 0x0D \<notin> set ?body"
    using Join_chars [of "CHR '';''" ?ws] Join_chars [of "CHR 0x0D" ?ws] plain not_plain unfolding list_all_iff by blast+
  then have split: "Split (sendCommand pane keys) (CHR 0x0D) = [?body, []]" "Split ?body (CHR '';'') = [?body]"
    using Split_append [of "CHR 0x0D" ?body "[]"] by (simp_all add: sendCommand_def Split_notin)
  have "concat (map hexInput (map hexToken keys)) = keys" by (induction keys) (simp_all add: hexInput_token)
  then have "tmuxLine \<lparr>td_input = [], td_paneId = [], td_detach = False, td_acks = 0\<rparr> ?body =
      \<lparr>td_input = keys, td_paneId = CHR ''%'' # utoa pane, td_detach = False, td_acks = 1\<rparr>"
    using split(2) tokens by (simp add: tmuxLine_def tmuxCommand_def Let_def)
  then show ?thesis using split(1) tmuxPane_utoa [OF assms] by (simp add: handleAndDecodeTmuxInput_def)
qed

text \<open>Keys that the terminal sends to a pane are decoded exactly: the bytes, whatever they are, the pane, one acknowledgement and
  nothing left over.\<close>

theorem tmux_keys_roundtrip:
  assumes "pane < 2 ^ 32"
  shows "handleAndDecodeTmuxInput (sendCommand pane keys) =
    (\<lparr>td_input = keys, td_paneId = utoa pane, td_detach = False, td_acks = 1\<rparr>, None)"
  using assms by (rule decode_sendCommand)

theorem tmux_keys_roundtrip_witness:
  "handleAndDecodeTmuxInput (sendCommand 7 [CHR 0x1B, CHR 0x0D]) =
     (\<lparr>td_input = [CHR 0x1B, CHR 0x0D], td_paneId = utoa 7, td_detach = False, td_acks = 1\<rparr>, None)"
  by (rule tmux_keys_roundtrip) simp

text \<open>The command \<open>send -t %1 0x41\<close> in two pieces.\<close>

lemma utoa_1: "utoa 1 = ''1''"
  by code_simp

lemma demo_pieces: "sendCommand 1 ''A'' = ''send -t %1 0x4'' @ [CHR ''1'', CHR 0x0D]"
  by code_simp

lemma demo_decode:
  "handleAndDecodeTmuxInput ''send -t %1 0x4'' = (\<lparr>td_input = [], td_paneId = [], td_detach = False, td_acks = 0\<rparr>, Some ''send -t %1 0x4'')"
  "handleAndDecodeTmuxInput (''send -t %1 0x4'' @ [CHR ''1'', CHR 0x0D]) =
     (\<lparr>td_input = ''A'', td_paneId = ''1'', td_detach = False, td_acks = 1\<rparr>, None)"
proof -
  show "handleAndDecodeTmuxInput (''send -t %1 0x4'' @ [CHR ''1'', CHR 0x0D]) =
     (\<lparr>td_input = ''A'', td_paneId = ''1'', td_detach = False, td_acks = 1\<rparr>, None)"
    using decode_sendCommand [of 1 "''A''"] utoa_1 unfolding demo_pieces by simp
  show "handleAndDecodeTmuxInput ''send -t %1 0x4'' =
      (\<lparr>td_input = [], td_paneId = [], td_detach = False, td_acks = 0\<rparr>, Some ''send -t %1 0x4'')"
    by (simp add: handleAndDecodeTmuxInput_def tmuxPane_def TrimSet_none)
qed


theorem tmux_acks_witness: "1 + separators [] = handleTmuxDiscardedInput True (''send -t %1 0x4'' @ [CHR ''1'', CHR 0x0D])"
  using tmux_acks [OF demo_decode(2)] by (simp add: rest_of_def)

section \<open>The rest of a line is overwritten\<close>

lemma demo_garbled:
  "handleAndDecodeTmuxInput ([CHR ''1'', CHR 0x0D] @ ''nd -t %1 0x41'' @ [CHR 0x0D]) =
     (\<lparr>td_input = [], td_paneId = [], td_detach = False, td_acks = 2\<rparr>, None)"
proof -
  have "word ''1''" "word ''nd''" "word ''-t''" "word ''%1''" "word ''0x41''" by (rule plain_word; simp add: plain_def)+
  then have "Fields (TrimSpace ''1'') = [''1'']" "Fields (TrimSpace ''nd -t %1 0x41'') = [''nd'', ''-t'', ''%1'', ''0x41'']"
    using Fields_words [of "[''1'']"] Fields_words [of "[''nd'', ''-t'', ''%1'', ''0x41'']"] by simp_all
  then show ?thesis by (simp add: handleAndDecodeTmuxInput_def tmuxLine_def tmuxCommand_def Let_def tmuxPane_def TrimSet_none)
qed

text \<open>C35: a command that arrives in two reads while input is intercepted is lost: the rest of the first read is kept as a slice of the read
  buffer, which the second read overwrites, so other bytes are decoded.  In one read the same command delivers its key.\<close>

theorem tmux_rest_overwritten:
  assumes "ni_tmux ni" "ni_left ni = None" "ni_paneId ni = None" "16 \<le> length (ni_mem ni)"
  shows "\<exists>ni1 ni2 ni3. interceptRead ''send -t %1 0x4'' ni = Some ni1 \<and> interceptRead [CHR ''1'', CHR 0x0D] ni1 = Some ni2 \<and>
    ni_keys ni2 = ni_keys ni \<and>
    interceptRead (''send -t %1 0x4'' @ [CHR ''1'', CHR 0x0D]) ni = Some ni3 \<and> ni_keys ni3 = ni_keys ni @ ''A''"
proof -
  let ?d1 = "''send -t %1 0x4''" and ?d2 = "[CHR ''1'', CHR 0x0D]"
  let ?m1 = "?d1 @ drop (length ?d1) (ni_mem ni)"
  let ?ni1 = "ni\<lparr>ni_mem := ?m1, ni_left := Some (0, length ?d1)\<rparr>"
  have one: "interceptRead ?d1 ni = Some ?ni1"
    using assms demo_decode(1) by (simp add: interceptRead_def handleUserInput_def appendLeft_def Let_def)
  have "2 \<le> length (drop (length ?d1) (ni_mem ni))" using assms(4) by simp
  then obtain x y r where r: "drop (length ?d1) (ni_mem ni) = x # y # r" 
    unfolding numeral_2_eq_2 Suc_le_length_iff by blast
  have "appendLeft (?d2 @ drop (length ?d2) (?d1 @ x # y # r)) (Some (0, length ?d1)) (length ?d2) =
      (?d2 @ ''nd -t %1 0x41'' @ [CHR 0x0D], ?d2 @ ''nd -t %1 0x4'' @ ?d2 @ r, Some 0)"
    by (simp add: appendLeft_def slice_def Let_def)
  then have "\<exists>ni2. interceptRead ?d2 ?ni1 = Some ni2 \<and> ni_keys ni2 = ni_keys ni"
    unfolding r using assms demo_garbled by (simp add: interceptRead_def handleUserInput_def Let_def)
  moreover have "\<exists>ni3. interceptRead (?d1 @ ?d2) ni = Some ni3 \<and> ni_keys ni3 = ni_keys ni @ ''A''"
    using assms demo_decode(2) by (simp add: interceptRead_def handleUserInput_def appendLeft_def Let_def takeInput_def)
  ultimately show ?thesis using one by blast
qed

theorem tmux_rest_overwritten_witness:
  "\<exists>ni1 ni2. interceptRead ''send -t %1 0x4'' \<lparr>ni_mem = replicate 32768 (CHR 0x00), ni_left = None, ni_tmux = True, ni_paneId = None,
       ni_keys = [], ni_cursorPos = None, ni_acks = 0, ni_exit = False\<rparr> = Some ni1 \<and>
     interceptRead [CHR ''1'', CHR 0x0D] ni1 = Some ni2 \<and> ni_keys ni2 = []"
  using tmux_rest_overwritten [of "\<lparr>ni_mem = replicate 32768 (CHR 0x00), ni_left = None, ni_tmux = True, ni_paneId = None,
       ni_keys = [], ni_cursorPos = None, ni_acks = 0, ni_exit = False\<rparr>"] by auto

end
