(* ===== verification/Spec2Isabelle.thy ===== *)
theory Spec2Isabelle
  imports Prelude GoStrings GoNet GoHash
    MuxProto MuxHandshake MuxMaster MuxMsg MuxFlow MuxChannel MuxChannelProps MuxChannelThms MuxProxyProps
    Tokens Forward SshTime Algos Args Dns DnsQuery DnsProps KnownHosts KnownHostsProps
    Config Login LoginProps Expect ExpectProps
    GoAes Secrets Keys Auth AuthProps Listen UdpForward X11 Start
    Table TableProps Theme Prompt PromptProps Tmux
begin

text \<open>
  A model of tssh, an ssh client written in Go that is compatible with OpenSSH, and proofs about it.  The
  sources are in \<open>src/tssh\<close>.  The client reads its arguments and the ssh configuration, expands tokens in
  the configured values, connects, checks the server's host key, and then forwards the terminal, ports and
  sockets over the connection; a control master shares the connection with other clients over a Unix socket.

  \<^bold>\<open>Go.\<close> \<open>Prelude\<close> has the machine integers, byte strings and results with errors, \<open>GoStrings\<close>
  and \<open>GoNet\<close> the functions of \<open>strings\<close>, \<open>strconv\<close>, \<open>unicode\<close> and \<open>net\<close> that the sources call, on strings
  of bytes with UTF-8 decoding where Go decodes, and \<open>GoHash\<close> SHA-1, SHA-256, HMAC and the hex and
  base64 decoders.

  \<^bold>\<open>Connection sharing\<close> (\<open>mux_proto.go\<close>, \<open>mux_ctrl.go\<close>, \<open>mux_master.go\<close>, \<open>mux_proxy.go\<close>).
  \<^item> \<open>MuxProto\<close>: packets and messages on the control socket, over the locales \<open>io_writer\<close> and \<open>full_writer\<close>,
    with round trips of messages and packet streams.  \<open>MuxMsg\<close>: the ssh messages of the proxy; the
    codec of \<open>x/crypto/ssh\<close> is a parameter.
  \<^item> \<open>MuxHandshake\<close>: both sides of the hello exchange and the control commands.  \<open>MuxMaster\<close>: the requests of a
    client, the table of clients, closing and the unlinking of the socket, with the goroutines as a step
    relation.
  \<^item> \<open>MuxFlow\<close>: the send window and the inbound queue of a channel, as interpretations of the locales
    \<open>send_window\<close> and \<open>inbound_queue\<close>.  \<open>MuxChannel\<close>: every operation of a channel.  \<open>MuxChannelProps\<close>: its
    goroutines as a step relation, and window accounting as its invariant; \<open>MuxWire\<close>, \<open>MuxChannelSend\<close> and
    \<open>MuxChannelThms\<close>: the packets on the socket, what \<open>writeData\<close> and \<open>pumpIn\<close> deliver and that they finish.
  \<^item> \<open>MuxProxy\<close>: every operation of a proxy connection, with channel objects in a store.  \<open>MuxProxyThms\<close>,
    \<open>MuxProxyRun\<close> and \<open>MuxProxyProps\<close>: the tables of channels and listeners are consistent in every
    interleaving, a closed connection holds nothing, and the read loop ends.

  \<^bold>\<open>Configuration values.\<close> \<open>Tokens\<close> (\<open>tokens.go\<close>): expansion of percent tokens cannot bring shell syntax
  into a command.  \<open>Forward\<close> (\<open>forward.go\<close>): the grammar of forwarding specifications, its bounds and its
  round trip.  \<open>SshTime\<close> (\<open>comm.go\<close>): time values, with overflow checks at 32 bits.  \<open>Algos\<close> (\<open>algos.go\<close>):
  the list operators, with the regular expression that removal builds.  \<open>Args\<close> (\<open>args.go\<close>, \<open>stdio.go\<close>): option
  values, the escape key and the loops that forward the terminal.

  \<^bold>\<open>From arguments to a login.\<close> \<open>Config\<close> (\<open>config.go\<close>, \<open>effective_config.go\<close>, \<open>env.go\<close>): the lookup of a value in
  the arguments, the configuration files and the output of \<open>ssh -G\<close>, and the environment that is sent.
  \<open>Login\<close> (\<open>login.go\<close>, \<open>udp.go\<close>): host, user, port, proxies, remote command and the command of the UDP server.
  \<open>LoginProps\<close>: the order in which the sources of a value count, and that destinations and port ranges
  mean what was written.  \<open>Expect\<close> and \<open>ExpectProps\<close> (\<open>expect.go\<close>): the answers that are typed for the user,
  which are sent only after the pattern was seen.

  \<^bold>\<open>Host keys.\<close> \<open>Dns\<close> and \<open>DnsQuery\<close> (\<open>dns.go\<close>): fingerprints in DNS, the DNSSEC validation, queries and
  name servers; the package \<open>miekg/dns\<close> is the parameter \<open>dns_lib\<close> and the network an arbitrary state
  transformer.  \<open>DnsProps\<close>: a validated answer rests on a chain of signatures from the pinned anchors, the
  walk to the root ends, and which records the validation does not cover.  \<open>KnownHosts\<close> and
  \<open>KnownHostsProps\<close> (\<open>known_hosts.go\<close>): the files of known keys and the callback, with the complete list of
  reasons for accepting a key.

  \<^bold>\<open>Authentication.\<close> \<open>Secrets\<close> (\<open>config.go\<close>, \<open>otp.go\<close>): secrets of the configuration, encoded with AES-GCM, which is defined
  in \<open>GoAes\<close>, and answers to questions.  \<open>Keys\<close> (\<open>keys.go\<close>): private key files, the security keys that the library does not handle, and the
  signatures made by a helper process; \<open>x/crypto/ssh\<close> and \<open>encoding/pem\<close> are the parameter \<open>key_lib\<close>.  A security key
  is recognised with exactly its flags, in the 32-bit arithmetic of the code, and a signature takes at most four
  runs of the helper.  \<open>Auth\<close> and \<open>AuthProps\<close> (\<open>auth_method.go\<close>, \<open>agent.go\<close>, \<open>krb5.go\<close>): the authentication methods, the keys that
  are offered, and that a configured answer is given once.

  \<^bold>\<open>Forwarding and start.\<close> \<open>Listen\<close> (\<open>forward_tcp.go\<close>, \<open>forward_udp.go\<close>): the listeners, with unix sockets as files, and the
  copying of streams as a step relation that loses nothing.  \<open>UdpForward\<close> (\<open>forward_udp.go\<close>): the table of datagram
  sessions with its goroutines as a step relation, and how a session loses its entry.  \<open>X11\<close> (\<open>forward_x11.go\<close>,
  \<open>xauth.go\<close>): the cookies, and that a client is let through exactly with the one made up for it.  \<open>Start\<close> (\<open>main.go\<close>): the main
  function, the calls from the login to the exit, and that every path ends with the deferred functions.

  \<^bold>\<open>The terminal.\<close> \<open>Table\<close> (\<open>internal/table\<close>): the data behind a table, the sizing of its columns and the drawing,
  with \<open>lipgloss\<close> as a parameter.  \<open>TableProps\<close>: the locale \<open>table_data\<close> for what a table needs of its data, with
  the two kinds of data as interpretations, and that a table has exactly the wanted width.  \<open>Theme\<close> (\<open>theme.go\<close>): the
  tables of the host list and of the details.  \<open>Prompt\<close> (\<open>prompt.go\<close>, \<open>config.go\<close>, \<open>tmgr.go\<close>): the list of hosts, the
  keys, the search, the choice and the layout of panes; \<open>PromptProps\<close>: which hosts are listed, that keys are
  unambiguous, and when the search mode is in step with the list.  \<open>Tmux\<close> (\<open>tmuxcc.go\<close>, \<open>notif.go\<close>): output and input
  in the control mode of tmux, their round trips, and the read buffer as a memory that a kept slice shares.

  \<^bold>\<open>Bounds.\<close>  Loops over a finite input are total functions.  Two walks carry a bound that counts turns, and
  \<^term>\<open>None\<close> means that it was too small: \<open>validateDNSKEY\<close>, for which the length of the zone's name is
  enough, and the loop over malformed known hosts lines, for which one more than the number of
  non-empty lines is enough.  Both are proved.  Blocking operations return \<open>Blocked\<close>, and progress is
  stated for the step relations.

  \<^bold>\<open>Simplifications.\<close>  The text of most errors is shortened.  Debug output and warnings are left out.  The
  clock has one value during a DNSSEC validation.  File contents are strings of bytes, and writes to
  a file succeed or fail as a whole unless the model says how many bytes were written.

  \<^bold>\<open>Not modelled.\<close>  The transport, key exchange and agent protocol are the Go packages \<open>x/crypto/ssh\<close> and
  \<open>tsshd\<close>.  The text templates of the other themes, terminal drivers, the display of notifications, the installers
  of \<open>tools*.go\<close>, the Wayland helper and the managers of terminal windows are input and output around library
  calls.  Of the login, what is computed from arguments and configuration is modelled, not the connections
  themselves (\<open>ssh.go\<close>); the UDP transport (\<open>attach.go\<close>) is a protocol between two programs of which only one
  is here.
\<close>

end
